(* ===== verification/Prelude.thy ===== *)
theory Prelude
  imports
    Complex_Main
    "HOL-Library.List_Lexorder"
    "HOL-Library.Char_ord"
    "HOL-Library.AList"
    "HOL-Library.Multiset"
    "HOL-Library.Sublist"
begin

text \<open>
  Shared vocabulary of the development: C++ exceptions as values, NUL-terminated and
  length-counted byte strings, 32-bit signed arithmetic, the skip/limit window every listing
  operation of \<^verbatim>\<open>src/quarks.cpp\<close> computes inline, and the locale that captures the shape of
  those loops. A \<open>string\<close> is a list of bytes; the order on strings is the
  byte-lexicographic one of \<open>List_Lexorder\<close> and \<open>Char_ord\<close>, which is both the order of
  \<^verbatim>\<open>std::string::compare\<close> and of RocksDB's default comparator.
\<close>

named_theorems res_simps \<open>evaluation of computations that may throw\<close>

section \<open>Exceptions\<close>

text \<open>
  The exception classes the code distinguishes. \<open>RuntimeError\<close> is caught by
  \<^verbatim>\<open>catch (const std::runtime_error&)\<close>; \<open>BadLexicalCast\<close> (a \<^verbatim>\<open>std::bad_cast\<close>),
  \<open>InvalidArgument\<close> and \<open>OutOfRange\<close> (both \<^verbatim>\<open>std::logic_error\<close>) are not.
  \<open>Undefined\<close> stands for undefined behaviour of the C++ program (it is never caught).
\<close>

datatype exc = RuntimeError | BadLexicalCast | InvalidArgument | OutOfRange | Undefined

type_synonym 'a res = "exc + 'a"

definition res_bind :: "'a res \<Rightarrow> ('a \<Rightarrow> 'b res) \<Rightarrow> 'b res" where
  "res_bind r f = (case r of Inl e \<Rightarrow> Inl e | Inr a \<Rightarrow> f a)"

lemma res_bind_simps [simp, res_simps]:
  "res_bind (Inl e) f = Inl e"
  "res_bind (Inr a) f = f a"
  by (simp_all add: res_bind_def)

lemma res_bind_Inr_iff: "res_bind r f = Inr b \<longleftrightarrow> (\<exists>a. r = Inr a \<and> f a = Inr b)"
  by (cases r) simp_all

text \<open>A loop body that may throw, run over a list: the first exception ends the loop.\<close>

fun fold_res :: "('e \<Rightarrow> 'a \<Rightarrow> 'a res) \<Rightarrow> 'e list \<Rightarrow> 'a \<Rightarrow> 'a res" where
  "fold_res f [] a = Inr a"
| "fold_res f (x # xs) a = res_bind (f x a) (fold_res f xs)"

lemma fold_res_append:
  "fold_res f (xs @ ys) a = res_bind (fold_res f xs a) (fold_res f ys)"
proof (induction xs arbitrary: a)
  case (Cons x xs)
  then show ?case by (cases "f x a") simp_all
qed simp

lemma fold_res_pure:
  assumes "\<And>x a. x \<in> set xs \<Longrightarrow> f x a = Inr (g x a)"
  shows "fold_res f xs a = Inr (fold g xs a)"
  using assms by (induction xs arbitrary: a) simp_all

lemma fold_res_invariant:
  assumes "\<And>x a b. P a \<Longrightarrow> f x a = Inr b \<Longrightarrow> P b" and "P a" and "fold_res f xs a = Inr b"
  shows "P b"
  using assms(2,3)
proof (induction xs arbitrary: a)
  case (Cons x xs)
  then show ?case by (cases "f x a") (auto dest: assms(1))
qed simp

lemma fold_append_map: "fold (\<lambda>x acc. acc @ [h x]) xs acc = acc @ map h xs"
  by (induction xs arbitrary: acc) simp_all

lemma fold_Suc_length: "fold (\<lambda>x n. n + 1) xs (n :: int) = n + int (length xs)"
  by (induction xs arbitrary: n) simp_all

section \<open>Byte strings\<close>

abbreviation NUL :: char where "NUL \<equiv> CHR 0x00"

text \<open>\<^verbatim>\<open>s.c_str()\<close> read as a C string ends at the first NUL byte.\<close>

definition c_str :: "string \<Rightarrow> string" where
  "c_str s = takeWhile (\<lambda>c. c \<noteq> NUL) s"

lemma c_str_id: "NUL \<notin> set s \<Longrightarrow> c_str s = s"
  by (simp add: c_str_def takeWhile_eq_all_conv) metis

lemma c_str_no_NUL [simp]: "NUL \<notin> set (c_str s)"
  by (auto simp: c_str_def dest: set_takeWhileD)

lemma c_str_idem [simp]: "c_str (c_str s) = c_str s"
  by (rule c_str_id) simp

text \<open>\<^verbatim>\<open>Slice::starts_with\<close>.\<close>

definition starts_with :: "string \<Rightarrow> string \<Rightarrow> bool" where
  "starts_with k p = (take (length p) k = p)"

lemma starts_with_prefix: "starts_with k p \<longleftrightarrow> prefix p k"
  unfolding starts_with_def prefix_def by (metis append_eq_conv_conj append_take_drop_id)

lemma starts_with_Nil [simp]: "starts_with k []"
  by (simp add: starts_with_def)

text \<open>
  \<^verbatim>\<open>s.find("*")\<close> together with \<^verbatim>\<open>s.substr(0, found)\<close>: the text before the first star,
  or all of it. \<open>star_first\<close> is the guard \<^verbatim>\<open>found != npos && found == 0\<close>.
\<close>

definition before_star :: "string \<Rightarrow> string" where
  "before_star w = takeWhile (\<lambda>c. c \<noteq> CHR ''*'') w"

definition star_first :: "string \<Rightarrow> bool" where
  "star_first w = (case w of [] \<Rightarrow> False | c # _ \<Rightarrow> c = CHR ''*'')"

lemma before_star_Nil_iff: "before_star w = [] \<longleftrightarrow> w = [] \<or> star_first w"
  by (cases w) (simp_all add: before_star_def star_first_def)

text \<open>Keys with a common prefix are contiguous in byte order.\<close>

lemma prefix_le: "prefix p k \<Longrightarrow> p \<le> (k :: string)"
  by (induction p arbitrary: k) (auto simp: prefix_def)

lemma prefix_convex:
  assumes "prefix p a" and "a \<le> b" and "b \<le> c" and "prefix p c"
  shows "prefix p (b :: string)"
  using assms
proof (induction p arbitrary: a b c)
  case (Cons x p)
  obtain a' where a: "a = x # a'" "prefix p a'"
    using Cons.prems(1) by (auto simp: prefix_def)
  obtain c' where c: "c = x # c'" "prefix p c'"
    using Cons.prems(4) by (auto simp: prefix_def)
  obtain y b' where b: "b = y # b'"
    using Cons.prems(2) a by (cases b) simp_all
  have "x \<le> y \<and> y \<le> x"
    using Cons.prems(2,3) unfolding a(1) b c(1) Cons_le_Cons by (auto simp: less_imp_le)
  then have y: "y = x" by (blast intro: order.antisym)
  have "prefix p b'"
  proof (rule Cons.IH [of a' b' c'])
    show "a' \<le> b'" using Cons.prems(2) unfolding a(1) b y by simp
    show "b' \<le> c'" using Cons.prems(3) unfolding c(1) b y by simp
  qed (use a c in simp_all)
  then show ?case by (simp add: b y)
qed simp

lemma takeWhile_dropWhile_prefix:
  assumes "sorted (map fst es)"
  shows "takeWhile (\<lambda>e. starts_with (fst e) p) (dropWhile (\<lambda>e. fst e < p) es) =
    filter (\<lambda>e. starts_with (fst e) p) (es :: (string \<times> 'v) list)"
  using assms
proof (induction es)
  case (Cons e es)
  show ?case
  proof (cases "fst e < p")
    case True
    then have "\<not> starts_with (fst e) p"
      by (auto simp: starts_with_prefix dest: prefix_le)
    with True Cons show ?thesis by simp
  next
    case ge: False
    have "dropWhile (\<lambda>e. fst e < p) es = es"
      using ge Cons.prems by (cases es) auto
    moreover have "filter (\<lambda>e. starts_with (fst e) p) es = []" if "\<not> starts_with (fst e) p"
    proof -
      have "\<not> prefix p (fst x)" if x: "x \<in> set es" for x
      proof
        assume "prefix p (fst x)"
        moreover have "fst e \<le> fst x" using Cons.prems x by auto
        ultimately have "prefix p (fst e)"
          using ge by (intro prefix_convex [of p p "fst e" "fst x"]) auto
        with \<open>\<not> starts_with (fst e) p\<close> show False by (simp add: starts_with_prefix)
      qed
      then show ?thesis by (simp add: filter_empty_conv starts_with_prefix)
    qed
    ultimately show ?thesis using ge Cons by simp
  qed
qed simp

section \<open>Unordered maps\<close>

text \<open>
  The entries of an unordered container, kept in insertion order, in the order of iteration:
  \<open>ord\<close> maps the keys as inserted to the keys as visited, each of them once.
\<close>

definition order_ok :: "('k list \<Rightarrow> 'k list) \<Rightarrow> bool" where
  "order_ok ord = (\<forall>ks. mset (ord ks) = mset ks)"

definition in_order :: "('k list \<Rightarrow> 'k list) \<Rightarrow> ('k \<times> 'v) list \<Rightarrow> ('k \<times> 'v) list" where
  "in_order ord m = List.map_filter (\<lambda>k. map_option (Pair k) (map_of m k)) (ord (map fst m))"

lemma order_ok_set: "order_ok ord \<Longrightarrow> set (ord ks) = set ks"
  unfolding order_ok_def by (metis set_mset_mset)

lemma in_order_map: "in_order ord (map (\<lambda>(k, w). (k, f w)) m) = map (\<lambda>(k, w). (k, f w)) (in_order ord m)"
proof -
  have 1: "map fst (map (\<lambda>(k, w). (k, f w)) m) = map fst m" by (induction m) auto
  have 2: "map_of (map (\<lambda>(k, w). (k, f w)) m) k = map_option f (map_of m k)" for k
    by (induction m) auto
  have "List.map_filter (\<lambda>k. map_option (Pair k) (map_option f (map_of m k))) ks =
      map (\<lambda>(k, w). (k, f w)) (List.map_filter (\<lambda>k. map_option (Pair k) (map_of m k)) ks)" for ks
    by (induction ks) (auto simp: map_filter_simps split: option.splits)
  then show ?thesis unfolding in_order_def 1 2 .
qed

lemma set_in_order: "set (in_order ord m) \<subseteq> set m"
  by (auto simp: in_order_def List.map_filter_def dest: map_of_SomeD)

lemma map_fst_in_order:
  assumes "order_ok ord"
  shows "map fst (in_order ord m) = ord (map fst m)"
proof -
  have "map fst (List.map_filter (\<lambda>k. map_option (Pair k) (map_of m k)) ks) = ks"
    if "set ks \<subseteq> fst ` set m" for ks
    using that
  proof (induction ks)
    case (Cons k ks)
    then obtain v where "map_of m k = Some v"
      by (metis insert_subset list.simps(15) map_of_eq_None_iff not_None_eq)
    with Cons show ?case by (simp add: map_filter_simps)
  qed (simp add: map_filter_simps)
  then show ?thesis by (simp add: in_order_def order_ok_set [OF assms])
qed

lemma distinct_in_order:
  "order_ok ord \<Longrightarrow> distinct (map fst m) \<Longrightarrow> distinct (map fst (in_order ord m))"
  using map_fst_in_order [of ord m] unfolding order_ok_def by (metis mset_eq_imp_distinct_iff)

lemma map_of_in_order:
  assumes "order_ok ord"
  shows "map_of (in_order ord m) k = map_of m k"
proof -
  have "map_of (List.map_filter (\<lambda>k. map_option (Pair k) (map_of m k)) ks) k =
      (if k \<in> set ks then map_of m k else None)" for ks
    by (induction ks) (auto simp: map_filter_simps split: option.splits)
  then show ?thesis
    by (simp add: in_order_def order_ok_set [OF assms]) (metis map_of_eq_None_iff)
qed

lemma set_in_order_eq:
  assumes "order_ok ord" and "distinct (map fst m)"
  shows "set (in_order ord m) = set m"
proof -
  have "(k, v) \<in> set (in_order ord m) \<longleftrightarrow> (k, v) \<in> set m" for k v
    using map_of_eq_Some_iff [OF assms(2)] map_of_eq_Some_iff [OF distinct_in_order [OF assms]]
    by (simp add: map_of_in_order [OF assms(1)] eq_commute)
  then show ?thesis by auto
qed

lemma order_ok_simps [simp]: "order_ok (\<lambda>ks. ks)" "order_ok rev"
  by (simp_all add: order_ok_def)

section \<open>32-bit integers\<close>

definition INT_MAX :: int where "INT_MAX = 2147483647"
definition INT_MIN :: int where "INT_MIN = -2147483648"

definition wrap32 :: "int \<Rightarrow> int" where
  "wrap32 x = (x + 2147483648) mod 4294967296 - 2147483648"

lemma wrap32_id: "INT_MIN \<le> x \<Longrightarrow> x \<le> INT_MAX \<Longrightarrow> wrap32 x = x"
  by (simp add: wrap32_def INT_MIN_def INT_MAX_def)

lemma wrap32_range: "INT_MIN \<le> wrap32 x \<and> wrap32 x \<le> INT_MAX"
  by (simp add: wrap32_def INT_MIN_def INT_MAX_def)

text \<open>\<^verbatim>\<open>std::to_string\<close> on integers.\<close>

function int_digits :: "int \<Rightarrow> string" where
  "int_digits i = (if i < 10 then [char_of (48 + i)]
                   else int_digits (i div 10) @ [char_of (48 + i mod 10)])"
  by pat_completeness auto
termination
  by (relation "measure nat") auto

declare int_digits.simps [simp del]

definition to_string :: "int \<Rightarrow> string" where
  "to_string i = (if i < 0 then CHR ''-'' # int_digits (- i) else int_digits i)"

section \<open>The skip/limit window of a listing\<close>

text \<open>
  Every listing operation computes
  \<^verbatim>\<open>count = (limit == -1) ? INT_MAX : limit; lowerbound = skip - 1; upperbound = skip + count;\<close>
  emits the hit numbered \<open>i\<close> when
  \<^verbatim>\<open>i > lowerbound && (i < upperbound || limit == -1)\<close> and leaves the loop when
  \<^verbatim>\<open>(i == upperbound) && (limit != -1)\<close>. The two additions are done on 32-bit integers.
\<close>

definition lowerbound :: "int \<Rightarrow> int" where
  "lowerbound skip = wrap32 (skip - 1)"

definition upperbound :: "int \<Rightarrow> int \<Rightarrow> int" where
  "upperbound skip limit = wrap32 (skip + (if limit = -1 then INT_MAX else limit))"

definition selected :: "int \<Rightarrow> int \<Rightarrow> int \<Rightarrow> bool" where
  "selected skip limit i = (i > lowerbound skip \<and> (i < upperbound skip limit \<or> limit = -1))"

definition finished :: "int \<Rightarrow> int \<Rightarrow> int \<Rightarrow> bool" where
  "finished skip limit i = (i = upperbound skip limit \<and> limit \<noteq> -1)"

text \<open>What the window means: drop \<open>skip\<close> hits, keep \<open>limit\<close> of the rest (all of it at -1).\<close>

definition window :: "int \<Rightarrow> int \<Rightarrow> 'a list \<Rightarrow> 'a list" where
  "window skip limit xs =
     (let ys = drop (nat skip) xs in if limit = -1 then ys else take (nat limit) ys)"

text \<open>The parameters for which the 32-bit additions do not overflow into the result.\<close>

definition window_ok :: "int \<Rightarrow> int \<Rightarrow> bool" where
  "window_ok skip limit =
     (0 \<le> skip \<and> skip \<le> INT_MAX \<and> INT_MIN \<le> limit \<and> (limit = -1 \<or> skip + limit \<le> INT_MAX))"

fun picked :: "int \<Rightarrow> int \<Rightarrow> int \<Rightarrow> 'a list \<Rightarrow> 'a list" where
  "picked skip limit i [] = []"
| "picked skip limit i (x # xs) =
     (if selected skip limit i then x # picked skip limit (i + 1) xs
      else picked skip limit (i + 1) xs)"

lemma picked_after_finish:
  "limit \<noteq> -1 \<Longrightarrow> upperbound skip limit \<le> i \<Longrightarrow> picked skip limit i xs = []"
  by (induction xs arbitrary: i) (simp_all add: selected_def)

lemma selected_alt:
  assumes "window_ok skip limit"
  shows "selected skip limit i \<longleftrightarrow> skip \<le> i \<and> (limit = -1 \<or> i < skip + limit)"
  using assms wrap32_id [of "skip - 1"] wrap32_id [of "skip + limit"]
  by (auto simp: selected_def lowerbound_def upperbound_def window_ok_def INT_MAX_def INT_MIN_def)

lemma picked_limit:
  assumes "window_ok skip limit" and "limit \<noteq> -1" and "0 \<le> i"
  shows "picked skip limit i xs = drop (nat (skip - i)) (take (nat (skip + limit - i)) xs)"
  using assms(3)
proof (induction xs arbitrary: i)
  case (Cons x xs)
  have IH: "picked skip limit (i + 1) xs =
      drop (nat (skip - (i + 1))) (take (nat (skip + limit - (i + 1))) xs)"
    using Cons by simp
  show ?case
  proof (cases "i < skip + limit")
    case True
    then have "nat (skip + limit - i) = Suc (nat (skip + limit - (i + 1)))" by arith
    moreover have "nat (skip - i) = (if skip \<le> i then 0 else Suc (nat (skip - (i + 1))))"
      by simp arith
    ultimately show ?thesis
      using True IH assms by (simp add: selected_alt)
  next
    case False
    then show ?thesis using IH assms by (simp add: selected_alt)
  qed
qed simp

lemma picked_nolimit:
  assumes "window_ok skip (-1)"
  shows "picked skip (-1) i xs = drop (nat (skip - i)) xs"
proof (induction xs arbitrary: i)
  case (Cons x xs)
  have "nat (skip - i) = (if skip \<le> i then 0 else Suc (nat (skip - (i + 1))))"
    by simp arith
  then show ?case using Cons [of "i + 1"] assms by (simp add: selected_alt)
qed simp

lemma picked_window:
  assumes "window_ok skip limit"
  shows "picked skip limit 0 xs = window skip limit xs"
proof (cases "limit = -1")
  case True
  then show ?thesis using picked_nolimit [of skip 0 xs] assms by (simp add: window_def)
next
  case False
  have "nat (skip + limit) - nat skip = nat limit"
    using assms unfolding window_ok_def by (cases "limit < 0") (auto simp: nat_add_distrib)
  then show ?thesis using False picked_limit [of skip limit 0 xs] assms
    by (simp add: window_def drop_take)
qed

lemma length_window_le: "limit \<noteq> -1 \<Longrightarrow> 0 \<le> limit \<Longrightarrow> int (length (window skip limit xs)) \<le> limit"
  by (simp add: window_def Let_def)

lemma set_window_subset: "set (window skip limit xs) \<subseteq> set xs"
  by (auto simp: window_def Let_def dest: in_set_takeD in_set_dropD)

lemma window_all: "window 0 (-1) xs = xs"
  by (simp add: window_def)

lemma window_map: "window skip limit (map f xs) = map f (window skip limit xs)"
  by (simp add: window_def Let_def drop_map take_map)

text \<open>
  The contract shared by the listing loops: \<open>loop es i a\<close> is one inlined
  \<^verbatim>\<open>for\<close> loop over the entries \<open>es\<close> an iterator visits, started with the counter
  \<open>i\<close>; \<open>cont\<close> is the loop condition on the current entry, \<open>hit\<close> the match test
  that increments the counter, \<open>emit\<close> what the loop does with a selected entry. The
  lemma says what all of them compute.
\<close>

locale windowed_scan =
  fixes loop :: "'e list \<Rightarrow> int \<Rightarrow> 'a \<Rightarrow> 'a res"
    and cont :: "'e \<Rightarrow> bool"
    and hit :: "'e \<Rightarrow> bool"
    and emit :: "'e \<Rightarrow> 'a \<Rightarrow> 'a res"
    and skip :: int
    and limit :: int
  assumes loop_Nil: "loop [] i a = Inr a"
    and loop_stop: "\<not> cont e \<Longrightarrow> loop (e # es) i a = Inr a"
    and loop_miss: "cont e \<Longrightarrow> \<not> hit e \<Longrightarrow> loop (e # es) i a = loop es i a"
    and loop_hit: "cont e \<Longrightarrow> hit e \<Longrightarrow> loop (e # es) i a =
      res_bind (if selected skip limit (i + 1) then emit e a else Inr a)
        (\<lambda>a'. if finished skip limit (i + 1) then Inr a' else loop es (i + 1) a')"
begin

lemma loop_picked:
  "loop es i a =
     fold_res emit (picked skip limit (i + 1) (filter hit (takeWhile cont es))) a"
proof (induction es arbitrary: i a)
  case Nil
  show ?case by (simp add: loop_Nil)
next
  case (Cons e es)
  show ?case
  proof (cases "cont e \<and> hit e")
    case False
    then show ?thesis using Cons by (cases "cont e") (simp_all add: loop_stop loop_miss)
  next
    case True
    show ?thesis
    proof (cases "finished skip limit (i + 1)")
      case fin: True
      then have "\<not> selected skip limit (i + 1)"
        and "picked skip limit (i + 1 + 1) xs = []" for xs :: "'e list"
        by (auto simp: finished_def selected_def intro: picked_after_finish)
      with True fin show ?thesis by (simp add: loop_hit)
    next
      case False
      then show ?thesis using True Cons [of "i + 1"]
        by (cases "emit e a") (simp_all add: loop_hit)
    qed
  qed
qed

theorem loop_window:
  assumes "window_ok skip limit"
  shows "loop es (-1) a = fold_res emit (window skip limit (filter hit (takeWhile cont es))) a"
  by (simp add: loop_picked picked_window assms)

end

end
