(* ===== verification/Wildcmp.thy ===== *)
theory Wildcmp
  imports Prelude
begin

text \<open>
  The wildcard matcher \<^verbatim>\<open>wildcmp\<close> of \<^verbatim>\<open>src/quarks.cpp\<close> (lines 50-82), on which every
  wildcard query of the store rests. The C function walks two NUL-terminated strings with two
  saved positions \<open>mp\<close> and \<open>cp\<close> (the pattern after the last star, and where in the text
  to restart); here a pointer is the list of the characters from it up to the terminator.
  The declarative matcher \<open>wild_match\<close> says what a pattern means; the theorem is that the
  backtracking loop decides exactly that, and that it never follows the null pointer \<open>mp\<close>
  is initialised to.
\<close>

abbreviation STAR :: char where "STAR \<equiv> CHR ''*''"
abbreviation QUESTION :: char where "QUESTION \<equiv> CHR ''?''"

text \<open>The first loop: up to the first star the strings are compared in step.\<close>

fun wildcmp_head :: "string \<Rightarrow> string \<Rightarrow> (string \<times> string) option" where
  "wildcmp_head wild [] = Some (wild, [])"
| "wildcmp_head [] (c # str) = None"
| "wildcmp_head (p # wild) (c # str) =
     (if p = STAR then Some (p # wild, c # str)
      else if p \<noteq> c \<and> p \<noteq> QUESTION then None
      else wildcmp_head wild str)"

text \<open>The third loop and the return value: skip stars, then the pattern must be used up.\<close>

fun wildcmp_tail :: "string \<Rightarrow> bool" where
  "wildcmp_tail [] = True"
| "wildcmp_tail (p # wild) = (p = STAR \<and> wildcmp_tail wild)"

text \<open>
  The second loop. \<open>saved\<close> is the pair of \<open>mp\<close> and \<open>cp\<close>, \<open>None\<close> while both are NULL;
  the result \<open>None\<close> is a read through the null pointer.
\<close>

function (sequential) wildcmp_loop ::
    "string \<Rightarrow> string \<Rightarrow> (string \<times> string) option \<Rightarrow> bool option" where
  "wildcmp_loop wild [] saved = Some (wildcmp_tail wild)"
| "wildcmp_loop wild (c # str) saved =
     (case wild of
        p # wild' \<Rightarrow>
          if p = STAR then
            (if wild' = [] then Some True
             else wildcmp_loop wild' (c # str) (Some (wild', str)))
          else if p = c \<or> p = QUESTION then wildcmp_loop wild' str saved
          else (case saved of
                  None \<Rightarrow> None
                | Some (mp, cp) \<Rightarrow> wildcmp_loop mp cp (Some (mp, tl cp)))
      | [] \<Rightarrow> (case saved of
                  None \<Rightarrow> None
                | Some (mp, cp) \<Rightarrow> wildcmp_loop mp cp (Some (mp, tl cp))))"
  by pat_completeness auto
termination
proof (relation "measures
    [\<lambda>(w, s, sv). case sv of None \<Rightarrow> 2
                  | Some (m, c) \<Rightarrow> if length s \<le> Suc (length c) then 0 else 1,
     \<lambda>(w, s, sv). case sv of None \<Rightarrow> 0 | Some (m, c) \<Rightarrow> length c,
     \<lambda>(w, s, sv). length s,
     \<lambda>(w, s, sv). length w]")
qed (auto split: option.splits)

definition wildcmp_run :: "string \<Rightarrow> string \<Rightarrow> bool option" where
  "wildcmp_run wild str =
     (case wildcmp_head (c_str wild) (c_str str) of
        None \<Rightarrow> Some False
      | Some (w, s) \<Rightarrow> wildcmp_loop w s None)"

definition wildcmp :: "string \<Rightarrow> string \<Rightarrow> bool" where
  "wildcmp wild str = (wildcmp_run wild str = Some True)"

section \<open>What a pattern means\<close>

fun wild_match :: "string \<Rightarrow> string \<Rightarrow> bool" where
  "wild_match [] s = (s = [])"
| "wild_match (p # w) [] = (p = STAR \<and> wild_match w [])"
| "wild_match (p # w) (c # s) =
     (if p = STAR then wild_match w (c # s) \<or> wild_match (p # w) s
      else (p = c \<or> p = QUESTION) \<and> wild_match w s)"

lemma wild_match_Nil: "wild_match w [] = wildcmp_tail w"
  by (induction w) auto

lemma wild_match_star: "wild_match (STAR # w) s \<longleftrightarrow> (\<exists>k \<le> length s. wild_match w (drop k s))"
proof (induction s)
  case (Cons c s)
  have "(\<exists>k \<le> length (c # s). wild_match w (drop k (c # s))) \<longleftrightarrow>
      wild_match w (c # s) \<or> (\<exists>k \<le> length s. wild_match w (drop k s))"
    by (metis Suc_le_mono bot_nat_0.extremum drop0 drop_Suc_Cons length_Cons not0_implies_Suc)
  with Cons show ?case by simp
qed simp

lemma wild_match_star_drop: "wild_match (STAR # w) (drop k s) \<Longrightarrow> wild_match (STAR # w) s"
proof -
  assume "wild_match (STAR # w) (drop k s)"
  then obtain j where "j \<le> length (drop k s)" "wild_match w (drop (j + k) s)"
    by (auto simp: wild_match_star drop_drop)
  then show ?thesis
    unfolding wild_match_star by (intro exI [of _ "min (j + k) (length s)"]) (auto simp: min_def)
qed

text \<open>A star-free pattern prefix uses exactly as many characters as it has.\<close>

lemma wild_match_append:
  "STAR \<notin> set u \<Longrightarrow> wild_match (u @ w) s \<Longrightarrow>
     length u \<le> length s \<and> wild_match w (drop (length u) s)"
proof (induction u arbitrary: s)
  case (Cons p u)
  then show ?case by (cases s) auto
qed simp

text \<open>
  The invariant of the second loop: since the last star the pattern has advanced by a
  star-free \<open>u\<close> and the text by as many characters.
\<close>

definition in_step :: "string \<Rightarrow> string \<Rightarrow> string \<Rightarrow> string \<Rightarrow> bool" where
  "in_step wild str mp cp \<longleftrightarrow>
     (\<exists>u x. mp = u @ wild \<and> STAR \<notin> set u \<and> str = drop (length u) (x # cp) \<and>
            length u \<le> Suc (length cp))"

text \<open>Why older restart points may be forgotten when a new star is met.\<close>

lemma newer_star_suffices:
  assumes "in_step (STAR # w) s mp cp" and "wild_match (STAR # mp) cp"
  shows "wild_match (STAR # w) s"
proof -
  from assms(1) obtain u x where u: "mp = u @ STAR # w" "STAR \<notin> set u"
    and s: "s = drop (length u) (x # cp)"
    unfolding in_step_def by auto
  from assms(2) obtain k where "wild_match mp (drop k cp)"
    by (auto simp: wild_match_star)
  then have "wild_match (STAR # w) (drop (length u) (drop k cp))"
    using u wild_match_append by blast
  then have "wild_match (STAR # w) (drop (Suc k) s)"
    by (simp add: s drop_drop ac_simps)
  then show ?thesis by (rule wild_match_star_drop)
qed

text \<open>At the end of the text no restart can succeed.\<close>

lemma no_restart_at_end:
  assumes "in_step w [] mp cp"
  shows "\<not> wild_match (STAR # mp) cp"
proof
  assume "wild_match (STAR # mp) cp"
  then obtain k where k: "wild_match mp (drop k cp)" by (auto simp: wild_match_star)
  from assms obtain u where u: "mp = u @ w" "STAR \<notin> set u" "length u = Suc (length cp)"
    unfolding in_step_def by auto
  with k have "length u \<le> length (drop k cp)" using wild_match_append by blast
  with u show False by simp
qed

lemma in_step_start: "in_step w (c # s) w s"
  unfolding in_step_def by (intro exI [of _ "[]"] exI [of _ c]) simp

lemma in_step_advance:
  assumes "in_step (p # w) (c # s) mp cp" and "p \<noteq> STAR"
  shows "in_step w s mp cp"
proof -
  from assms(1) obtain u x where u: "mp = u @ p # w" "STAR \<notin> set u"
    and s: "c # s = drop (length u) (x # cp)" and l: "length u \<le> Suc (length cp)"
    unfolding in_step_def by auto
  have "length u < length (x # cp)" using s by (metis drop_all linorder_not_less list.distinct(1))
  moreover have "s = drop (Suc (length u)) (x # cp)"
    using s by (metis drop_Suc list.sel(3) tl_drop)
  ultimately show ?thesis
    using u assms(2) unfolding in_step_def
    by (intro exI [of _ "u @ [p]"] exI [of _ x]) auto
qed

lemma wildcmp_loop_correct:
  "saved = Some (mp, cp) \<Longrightarrow> in_step w s mp cp \<Longrightarrow>
     wildcmp_loop w s saved = Some (wild_match w s \<or> wild_match (STAR # mp) cp)"
proof (induction w s saved arbitrary: mp cp rule: wildcmp_loop.induct)
  case (1 w saved)
  then show ?case by (simp add: no_restart_at_end wild_match_Nil)
next
  case (2 w c s saved)
  note saved [simp] = 2(5)
  have restart: "wildcmp_loop mp cp (Some (mp, tl cp)) = Some (wild_match (STAR # mp) cp)"
    if IH: "\<And>m d. Some (mp, tl cp) = Some (m, d) \<Longrightarrow> in_step mp cp m d \<Longrightarrow>
      wildcmp_loop mp cp (Some (mp, tl cp)) = Some (wild_match mp cp \<or> wild_match (STAR # m) d)"
  proof (cases cp)
    case Nil
    then show ?thesis by (simp add: wild_match_Nil)
  next
    case (Cons d ds)
    then show ?thesis using IH [of mp ds] in_step_start [of mp d ds] by simp
  qed
  consider (nil) "w = []" | (star) w' where "w = STAR # w'"
    | (step) p w' where "w = p # w'" "p \<noteq> STAR" "p = c \<or> p = QUESTION"
    | (mism) p w' where "w = p # w'" "p \<noteq> STAR" "p \<noteq> c" "p \<noteq> QUESTION"
    by (cases w) blast+
  then show ?case
  proof cases
    case nil
    then show ?thesis using restart [OF 2(1) [of "(mp, cp)" mp cp]] by simp
  next
    case star
    have any: "wild_match [STAR] (c # s)"
      by (simp only: wild_match_star) (auto intro: exI [of _ "Suc (length s)"])
    show ?thesis
    proof (cases "w' = []")
      case True
      then show ?thesis using star any by simp
    next
      case False
      have "wildcmp_loop w' (c # s) (Some (w', s)) =
          Some (wild_match w' (c # s) \<or> wild_match (STAR # w') s)"
        using 2(2) [OF star, of w' s] False in_step_start [of w' c s] by simp
      moreover have "wild_match (STAR # mp) cp \<Longrightarrow> wild_match (STAR # w') (c # s)"
        using 2(6) star newer_star_suffices by blast
      ultimately show ?thesis using star False by auto
    qed
  next
    case step
    then have "in_step w' s mp cp" using 2(6) in_step_advance by blast
    then show ?thesis using 2(3) [of p w' mp cp] step by auto
  next
    case mism
    then show ?thesis using restart [OF 2(4) [of p w' "(mp, cp)" mp cp]] by simp
  qed
qed

lemma wildcmp_head_None: "wildcmp_head w s = None \<Longrightarrow> \<not> wild_match w s"
  by (induction w s rule: wildcmp_head.induct) (auto split: if_splits)

lemma wildcmp_head_Some:
  "wildcmp_head w s = Some (w', s') \<Longrightarrow>
     wild_match w s = wild_match w' s' \<and> (s' = [] \<or> (\<exists>w''. w' = STAR # w''))"
  by (induction w s rule: wildcmp_head.induct) (auto split: if_splits)

lemma wildcmp_run_eq: "wildcmp_run w s = Some (wild_match (c_str w) (c_str s))"
proof (cases "wildcmp_head (c_str w) (c_str s)")
  case None
  then show ?thesis by (simp add: wildcmp_run_def wildcmp_head_None)
next
  case (Some ws)
  obtain w' s' where ws: "ws = (w', s')" by (cases ws)
  with Some have eq: "wild_match (c_str w) (c_str s) = wild_match w' s'"
    and shape: "s' = [] \<or> (\<exists>w''. w' = STAR # w'')"
    using wildcmp_head_Some by auto
  have "wildcmp_loop w' s' None = Some (wild_match w' s')"
  proof (cases s')
    case Nil
    then show ?thesis by (simp add: wild_match_Nil)
  next
    case (Cons c t)
    with shape obtain v where v: "w' = STAR # v" by auto
    have "wildcmp_loop v (c # t) (Some (v, t)) = Some (wild_match (STAR # v) (c # t))"
      using wildcmp_loop_correct [OF refl in_step_start [of v c t]] by simp
    moreover have "wild_match [STAR] (c # t)"
      by (simp only: wild_match_star) (auto intro: exI [of _ "Suc (length t)"])
    ultimately show ?thesis using Cons v by auto
  qed
  then show ?thesis by (simp add: wildcmp_run_def Some ws eq)
qed

lemma wildcmp_eq: "wildcmp w s = wild_match (c_str w) (c_str s)"
  by (simp add: wildcmp_def wildcmp_run_eq)

section \<open>Prefix search is sound for wildcard queries\<close>

lemma wild_match_prefix:
  "QUESTION \<notin> set (before_star w) \<Longrightarrow> wild_match w s \<Longrightarrow> prefix (before_star w) s"
  unfolding before_star_def
  by (induction w s rule: wild_match.induct) (auto split: if_splits)

text \<open>A pattern with no \<open>*\<close> and no \<open>?\<close> matches itself only.\<close>

lemma wild_match_literal:
  "STAR \<notin> set w \<Longrightarrow> QUESTION \<notin> set w \<Longrightarrow> wild_match w s \<longleftrightarrow> s = w"
  by (induction w s rule: wild_match.induct) auto

text \<open>The common query \<open>prefix*\<close> matches the keys with that prefix.\<close>

lemma wild_match_prefix_star:
  "STAR \<notin> set p \<Longrightarrow> QUESTION \<notin> set p \<Longrightarrow> wild_match (p @ [STAR]) s \<longleftrightarrow> prefix p s"
proof (induction p arbitrary: s)
  case Nil
  show ?case using wild_match_star [of "[]" s] by auto
next
  case (Cons a p)
  then show ?case by (cases s) auto
qed

section \<open>The matcher is correct\<close>

text \<open>C2: for every pattern and text \<open>wildcmp\<close> ends, never follows a null pointer, and returns
  true exactly when the pattern matches the text (a star stands for any run of characters, a
  question mark for any one character).\<close>

theorem wildcmp_correct: "wildcmp_run wild str = Some (wild_match (c_str wild) (c_str str))"
  by (rule wildcmp_run_eq)

end
