(* ===== verification/Std_Map.thy ===== *)
theory Std_Map
  imports Prelude
begin

text \<open>
  \<^verbatim>\<open>std::map<std::string, V>\<close> as the program uses it (the cache \<open>_CacheMap\<close>, the rooms
  \<open>_connMap\<close> and \<open>_userRoomsMap\<close>): a list of entries in strictly ascending key order. An
  iterator is a position: the entries before it, nearest first, and the entries from it on;
  the iterator equals \<open>end()\<close> when the second list is empty. The locale \<open>ordered_map\<close> is
  what the rest of the development relies on; it is interpreted here on these operations, and
  the database interface extends it.
\<close>

type_synonym 'v smap = "(string \<times> 'v) list"
type_synonym 'v position = "(string \<times> 'v) list \<times> (string \<times> 'v) list"

definition sm_find :: "'v smap \<Rightarrow> string \<Rightarrow> 'v option" where
  "sm_find m k = map_of m k"

text \<open>\<open>m[k] = v\<close>.\<close>

fun sm_set :: "string \<Rightarrow> 'v \<Rightarrow> 'v smap \<Rightarrow> 'v smap" where
  "sm_set k v [] = [(k, v)]"
| "sm_set k v ((k', v') # m) =
     (if k < k' then (k, v) # (k', v') # m
      else if k = k' then (k, v) # m
      else (k', v') # sm_set k v m)"

text \<open>\<open>m.erase(k)\<close>.\<close>

fun sm_erase :: "string \<Rightarrow> 'v smap \<Rightarrow> 'v smap" where
  "sm_erase k [] = []"
| "sm_erase k ((k', v') # m) = (if k = k' then m else (k', v') # sm_erase k m)"

text \<open>\<open>m.lower_bound(k)\<close>: the first entry whose key is not less than \<open>k\<close>.\<close>

definition sm_lower_bound :: "'v smap \<Rightarrow> string \<Rightarrow> 'v position" where
  "sm_lower_bound m k =
     (rev (takeWhile (\<lambda>e. fst e < k) m), dropWhile (\<lambda>e. fst e < k) m)"

definition sm_inv :: "'v smap \<Rightarrow> bool" where
  "sm_inv m = sorted_wrt (<) (map fst m)"

lemma sm_inv_Nil [simp]: "sm_inv []"
  by (simp add: sm_inv_def)

lemma sm_inv_Cons: "sm_inv (e # m) \<longleftrightarrow> (\<forall>x \<in> set m. fst e < fst x) \<and> sm_inv m"
  by (auto simp: sm_inv_def)

lemma set_keys_sm_set: "fst ` set (sm_set k v m) = insert k (fst ` set m)"
  by (induction k v m rule: sm_set.induct) auto

lemma set_keys_sm_erase: "fst ` set (sm_erase k m) \<subseteq> fst ` set m"
  by (induction k m rule: sm_erase.induct) auto

lemma sm_inv_set: "sm_inv m \<Longrightarrow> sm_inv (sm_set k v m)"
proof (induction k v m rule: sm_set.induct)
  case (2 k v k' v' m)
  have "\<forall>x \<in> set (sm_set k v m). k' < fst x" if "k' < k"
    using 2(2) that set_keys_sm_set [of k v m] by (force simp: sm_inv_Cons)
  with 2 show ?case by (auto simp: sm_inv_Cons)
qed (simp add: sm_inv_Cons)

lemma sm_inv_erase: "sm_inv m \<Longrightarrow> sm_inv (sm_erase k m)"
proof (induction k m rule: sm_erase.induct)
  case (2 k k' v' m)
  then show ?case using set_keys_sm_erase [of k m] by (force simp: sm_inv_Cons)
qed simp

lemma sm_find_set: "sm_find (sm_set k v m) = (sm_find m)(k \<mapsto> v)"
  unfolding sm_find_def by (induction k v m rule: sm_set.induct) auto

lemma sm_find_erase: "sm_inv m \<Longrightarrow> sm_find (sm_erase k m) = (sm_find m)(k := None)"
proof (induction k m rule: sm_erase.induct)
  case (2 k k' v' m)
  have "map_of m k' = None" using 2(2) by (force simp: sm_inv_Cons map_of_eq_None_iff)
  with 2 show ?case by (auto simp: sm_find_def sm_inv_Cons)
qed (auto simp: sm_find_def)

section \<open>The interface of an ordered string map\<close>

locale ordered_map =
  fixes inv :: "'m \<Rightarrow> bool"
    and lookup :: "'m \<Rightarrow> string \<Rightarrow> 'v option"
    and entries :: "'m \<Rightarrow> (string \<times> 'v) list"
  assumes entries_ascending: "inv m \<Longrightarrow> sorted_wrt (<) (map fst (entries m))"
    and lookup_entries: "inv m \<Longrightarrow> lookup m = map_of (entries m)"
begin

lemma entries_distinct: "inv m \<Longrightarrow> distinct (map fst (entries m))"
  using entries_ascending strict_sorted_iff by blast

lemma entries_sorted: "inv m \<Longrightarrow> sorted (map fst (entries m))"
  using entries_ascending strict_sorted_iff by blast

lemma entries_iff: "inv m \<Longrightarrow> (k, v) \<in> set (entries m) \<longleftrightarrow> lookup m k = Some v"
  by (simp add: lookup_entries entries_distinct)

text \<open>Two maps with the same lookups have the same entries, in the same order.\<close>

lemma entries_unique:
  assumes "inv m" and "inv m'" and "lookup m = lookup m'"
  shows "entries m = entries m'"
proof (rule map_sorted_distinct_set_unique [where f = fst])
  show "inj_on fst (set (entries m) \<union> set (entries m'))"
    using assms entries_iff unfolding inj_on_def by (metis UnE option.inject prod.collapse)
  show "set (entries m) = set (entries m')"
    using assms entries_iff by (metis (no_types, lifting) subsetI set_eq_subset prod.collapse)
qed (use assms entries_sorted entries_distinct in blast)+

text \<open>The entries with a prefix are the run an iterator finds from the prefix on.\<close>

lemma prefix_run:
  assumes "inv m"
  shows "takeWhile (\<lambda>e. starts_with (fst e) p) (dropWhile (\<lambda>e. fst e < p) (entries m)) =
    filter (\<lambda>e. starts_with (fst e) p) (entries m)"
  by (rule takeWhile_dropWhile_prefix [OF entries_sorted [OF assms]])

end

interpretation sm: ordered_map sm_inv sm_find "\<lambda>m. m"
  by unfold_locales (simp_all add: sm_inv_def sm_find_def fun_eq_iff)

end
