(* ===== verification/Rocks.thy ===== *)
theory Rocks
  imports Std_Map
begin

text \<open>
  RocksDB as a parameter of the model. The library is not part of the repository, so the
  operations the server calls are the fields of a record the definitions take as an argument,
  over an unknown type of database states. The locale \<open>rocksdb\<close> states the documented
  behaviour the code relies on: point reads agree with the ordered contents, a successful
  write updates the contents and a failed one leaves them, and an iterator walks a snapshot
  of the contents in byte order. A status is modelled by its \<open>ok()\<close>.

  An iterator is a position in its snapshot: the entries before it, nearest first, and the
  entries from it on. \<open>Valid()\<close> is the second list being non-empty; \<open>Next()\<close> and \<open>Prev()\<close>
  require it (moving an iterator that is not valid is undefined behaviour).
\<close>

record 'db rocks =
  rocks_Get :: "'db \<Rightarrow> string \<Rightarrow> string option"
  rocks_Put :: "'db \<Rightarrow> string \<Rightarrow> string \<Rightarrow> bool \<times> 'db"
  rocks_Delete :: "'db \<Rightarrow> string \<Rightarrow> bool \<times> 'db"
  rocks_Write :: "'db \<Rightarrow> string list \<Rightarrow> bool \<times> 'db"
  rocks_Seek :: "'db \<Rightarrow> string \<Rightarrow> string position"
  rocks_SeekToFirst :: "'db \<Rightarrow> string position"
  rocks_SeekToLast :: "'db \<Rightarrow> string position"

text \<open>\<open>Prev()\<close>: the position before, undefined for an iterator that is not valid.\<close>

fun it_prev :: "string position \<Rightarrow> string position res" where
  "it_prev (before, []) = Inl Undefined"
| "it_prev ([], e # after) = Inr ([], [])"
| "it_prev (b # before, e # after) = Inr (before, b # e # after)"

text \<open>The entries a loop of \<open>Prev()\<close> visits, the current one first.\<close>

fun it_backwards :: "string position \<Rightarrow> (string \<times> string) list" where
  "it_backwards (before, []) = []"
| "it_backwards (before, e # after) = e # before"

definition remove_keys :: "string list \<Rightarrow> (string \<rightharpoonup> string) \<Rightarrow> (string \<rightharpoonup> string)" where
  "remove_keys ks m = (\<lambda>k. if k \<in> set ks then None else m k)"

locale rocksdb =
  ordered_map "\<lambda>_. True" "rocks_Get R" entries
  for R :: "'db rocks" and entries :: "'db \<Rightarrow> (string \<times> string) list" +
  assumes put_ok: "rocks_Put R d k v = (True, d') \<Longrightarrow> rocks_Get R d' = (rocks_Get R d)(k \<mapsto> v)"
    and put_fail: "rocks_Put R d k v = (False, d') \<Longrightarrow> rocks_Get R d' = rocks_Get R d"
    and delete_ok: "rocks_Delete R d k = (True, d') \<Longrightarrow> rocks_Get R d' = (rocks_Get R d)(k := None)"
    and delete_fail: "rocks_Delete R d k = (False, d') \<Longrightarrow> rocks_Get R d' = rocks_Get R d"
    and write_ok: "rocks_Write R d ks = (True, d') \<Longrightarrow>
      rocks_Get R d' = remove_keys ks (rocks_Get R d)"
    and write_fail: "rocks_Write R d ks = (False, d') \<Longrightarrow> rocks_Get R d' = rocks_Get R d"
    and seek: "rocks_Seek R d k = (rev (takeWhile (\<lambda>e. fst e < k) (entries d)),
      dropWhile (\<lambda>e. fst e < k) (entries d))"
    and seek_first: "rocks_SeekToFirst R d = ([], entries d)"
    and seek_last: "rocks_SeekToLast R d =
      (rev (butlast (entries d)), if entries d = [] then [] else [last (entries d)])"
begin

lemma seek_run:
  "takeWhile (\<lambda>e. starts_with (fst e) p) (snd (rocks_Seek R d p)) =
   filter (\<lambda>e. starts_with (fst e) p) (entries d)"
  by (simp add: seek prefix_run)

lemma backwards_all: "it_backwards (rocks_SeekToLast R d) = rev (entries d)"
  by (cases "entries d" rule: rev_cases) (simp_all add: seek_last)

lemma entries_cong: "rocks_Get R d = rocks_Get R d' \<Longrightarrow> entries d = entries d'"
  by (rule entries_unique) simp_all

end

text \<open>A database on which every write succeeds.\<close>

definition rocks_reliable :: "'db rocks \<Rightarrow> bool" where
  "rocks_reliable R \<longleftrightarrow>
     (\<forall>d k v. fst (rocks_Put R d k v)) \<and> (\<forall>d k. fst (rocks_Delete R d k)) \<and>
     (\<forall>d ks. fst (rocks_Write R d ks))"

section \<open>An in-memory database\<close>

text \<open>
  An ordered map with the operations of \<open>Std_Map\<close> has the interface of the database; it
  carries the invariant in its type. It is the instance concrete runs use.
\<close>

typedef memdb = "{m :: string smap. sm_inv m}"
  by (rule exI [of _ "[]"]) simp

setup_lifting type_definition_memdb

lift_definition mem_of :: "(string \<times> string) list \<Rightarrow> memdb" is
  "\<lambda>kvs. fold (\<lambda>(k, v). sm_set k v) kvs []"
proof -
  fix kvs :: "(string \<times> string) list"
  have "sm_inv m \<Longrightarrow> sm_inv (fold (\<lambda>(k, v). sm_set k v) kvs m)" for m
    by (induction kvs arbitrary: m) (auto simp: sm_inv_set)
  then show "sm_inv (fold (\<lambda>(k, v). sm_set k v) kvs [])" by simp
qed

lift_definition mem_entries :: "memdb \<Rightarrow> (string \<times> string) list" is "\<lambda>m. m" .

lift_definition mem_put :: "memdb \<Rightarrow> string \<Rightarrow> string \<Rightarrow> memdb" is "\<lambda>m k v. sm_set k v m"
  by (rule sm_inv_set)

lift_definition mem_delete :: "memdb \<Rightarrow> string \<Rightarrow> memdb" is "\<lambda>m k. sm_erase k m"
  by (rule sm_inv_erase)

lift_definition mem_get :: "memdb \<Rightarrow> string \<Rightarrow> string option" is "\<lambda>m k. sm_find m k" .

definition mem_rocks :: "memdb rocks" where
  "mem_rocks =
     \<lparr>rocks_Get = mem_get,
      rocks_Put = (\<lambda>d k v. (True, mem_put d k v)),
      rocks_Delete = (\<lambda>d k. (True, mem_delete d k)),
      rocks_Write = (\<lambda>d ks. (True, fold (\<lambda>k d. mem_delete d k) ks d)),
      rocks_Seek = (\<lambda>d k. sm_lower_bound (mem_entries d) k),
      rocks_SeekToFirst = (\<lambda>d. ([], mem_entries d)),
      rocks_SeekToLast = (\<lambda>d. (rev (butlast (mem_entries d)),
         if mem_entries d = [] then [] else [last (mem_entries d)]))\<rparr>"

lemma mem_get_put: "mem_get (mem_put d k v) = (mem_get d)(k \<mapsto> v)"
  by transfer (simp add: sm_find_set)

lemma mem_get_delete: "mem_get (mem_delete d k) = (mem_get d)(k := None)"
  by transfer (simp add: sm_find_erase)

lemma mem_get_deletes:
  "mem_get (fold (\<lambda>k d. mem_delete d k) ks d) = remove_keys ks (mem_get d)"
  by (induction ks arbitrary: d) (auto simp: remove_keys_def mem_get_delete fun_eq_iff)

interpretation mem: rocksdb mem_rocks mem_entries
proof
  fix d :: memdb
  show "sorted_wrt (<) (map fst (mem_entries d))" by transfer (simp add: sm_inv_def)
  show "rocks_Get mem_rocks d = map_of (mem_entries d)"
    by (simp add: mem_rocks_def, transfer) (simp add: sm_find_def fun_eq_iff)
qed (auto simp: mem_rocks_def mem_get_put mem_get_delete mem_get_deletes sm_lower_bound_def)

lemma mem_reliable: "rocks_reliable mem_rocks"
  by (simp add: rocks_reliable_def mem_rocks_def)

end
