(* ===== verification/Crow_Json.thy ===== *)
theory Crow_Json
  imports Prelude
begin

text \<open>
  The JSON library the server is written against,
  \<^verbatim>\<open>src/third-party/crow/include/crow/json.h\<close>: the read-only value \<open>rvalue\<close> the parser
  \<open>load\<close> produces, with the accessors that throw, and the writable value \<open>wvalue\<close> with its
  printer \<open>dump\<close>. An \<open>rvalue\<close> in error state (what \<open>load\<close> returns for a malformed text)
  is \<open>None\<close>; every accessor of such a value throws \<open>RuntimeError\<close>.

  Library code that is not in the repository enters as the record \<open>lib\<close>:
  \<^verbatim>\<open>boost::lexical_cast\<close> to 64-bit integers and to doubles, and the iteration order of
  \<^verbatim>\<open>std::unordered_map\<close>, which the C++ standard leaves open: \<open>um_order\<close> maps the keys in
  insertion order to the keys in iteration order.

  The main results are that the parser's fuel (one more than the length of the text) is
  enough, and that printing a value without numbers and loading the text gives it back.
\<close>

section \<open>Doubles\<close>

text \<open>The values of an IEEE double; every finite one is a rational number.\<close>

datatype double = Fin rat | NegZero | PInf | NInf | NaN

definition double_of_int :: "int \<Rightarrow> double" where
  "double_of_int i = Fin (of_int i)"

text \<open>\<^verbatim>\<open>==\<close> on doubles.\<close>

fun double_eq :: "double \<Rightarrow> double \<Rightarrow> bool" where
  "double_eq (Fin a) (Fin b) = (a = b)"
| "double_eq (Fin a) NegZero = (a = 0)"
| "double_eq NegZero (Fin b) = (b = 0)"
| "double_eq NegZero NegZero = True"
| "double_eq PInf PInf = True"
| "double_eq NInf NInf = True"
| "double_eq _ _ = False"

text \<open>Conversion to \<^verbatim>\<open>int\<close> truncates; out of range it is undefined behaviour.\<close>

definition trunc_rat :: "rat \<Rightarrow> int" where
  "trunc_rat r = (if r < 0 then - \<lfloor>- r\<rfloor> else \<lfloor>r\<rfloor>)"

fun double_to_int :: "double \<Rightarrow> int res" where
  "double_to_int (Fin r) =
     (let i = trunc_rat r in if INT_MIN \<le> i \<and> i \<le> INT_MAX then Inr i else Inl Undefined)"
| "double_to_int NegZero = Inr 0"
| "double_to_int _ = Inl Undefined"

text \<open>\<^verbatim>\<open>sprintf(outbuf, "%0.10g", d)\<close>: ten significant digits, trailing zeros removed.\<close>

definition pow10 :: "int \<Rightarrow> rat" where
  "pow10 k = (if 0 \<le> k then 10 ^ nat k else 1 / 10 ^ nat (- k))"

definition round_half_even :: "rat \<Rightarrow> int" where
  "round_half_even r =
     (let f = \<lfloor>r\<rfloor>; d = r - of_int f
      in if d < 1 / 2 then f else if d > 1 / 2 then f + 1 else if even f then f else f + 1)"

definition dec_exponent :: "rat \<Rightarrow> int" where
  "dec_exponent r =
     (let (n, d) = quotient_of r;
          x = int (length (int_digits n)) - int (length (int_digits d))
      in if pow10 x \<le> r then x else x - 1)"

definition strip_zeros :: "string \<Rightarrow> string" where
  "strip_zeros s = rev (dropWhile (\<lambda>c. c = CHR ''0'') (rev s))"

definition with_fraction :: "string \<Rightarrow> string \<Rightarrow> string" where
  "with_fraction i f = (let f' = strip_zeros f in if f' = [] then i else i @ ''.'' @ f')"

definition format_g10_pos :: "rat \<Rightarrow> string" where
  "format_g10_pos r =
     (let x0 = dec_exponent r;
          m0 = round_half_even (r * pow10 (9 - x0));
          (m, x) = (if m0 = 10000000000 then (1000000000, x0 + 1) else (m0, x0));
          ds = int_digits m
      in if -4 \<le> x \<and> x < 10 then
           (if 0 \<le> x then with_fraction (take (nat (x + 1)) ds) (drop (nat (x + 1)) ds)
            else with_fraction ''0'' (replicate (nat (- x - 1)) (CHR ''0'') @ ds))
         else
           with_fraction (take 1 ds) (drop 1 ds) @ ''e'' @ (if x < 0 then ''-'' else ''+'') @
           (let e = int_digits \<bar>x\<bar> in if length e < 2 then CHR ''0'' # e else e))"

fun format_g10 :: "double \<Rightarrow> string" where
  "format_g10 (Fin r) =
     (if r = 0 then ''0'' else if r < 0 then CHR ''-'' # format_g10_pos (- r)
      else format_g10_pos r)"
| "format_g10 NegZero = ''-0''"
| "format_g10 PInf = ''inf''"
| "format_g10 NInf = ''-inf''"
| "format_g10 NaN = ''nan''"

section \<open>The environment\<close>

record lib =
  lexcast_int64 :: "string \<Rightarrow> int option"
  lexcast_double :: "string \<Rightarrow> double option"
  um_order :: "string list \<Rightarrow> string list"

text \<open>What the standard guarantees of the iteration order: each key is visited once.\<close>

definition um_order_ok :: "lib \<Rightarrow> bool" where
  "um_order_ok L = order_ok (um_order L)"

section \<open>Read-only values\<close>

text \<open>
  \<open>RNumber\<close> keeps the text of the number and \<open>RString\<close> the raw, still escaped, text between
  the quotes, as the C++ value does with its two pointers into the loaded buffer.
\<close>

datatype rvalue =
    RNull | RFalse | RTrue | RNumber string | RString string
  | RList "rvalue list" | RObject "(string \<times> rvalue) list"

abbreviation BSLASH :: char where "BSLASH \<equiv> CHR 0x5C"
abbreviation DQUOTE :: char where "DQUOTE \<equiv> CHR 0x22"

definition simple_unescape :: "char \<Rightarrow> char option" where
  "simple_unescape e =
     (if e = DQUOTE then Some DQUOTE else if e = BSLASH then Some BSLASH
      else if e = CHR ''/'' then Some (CHR ''/'') else if e = CHR ''b'' then Some (CHR 0x08)
      else if e = CHR ''f'' then Some (CHR 0x0C) else if e = CHR ''n'' then Some (CHR 0x0A)
      else if e = CHR ''r'' then Some (CHR 0x0D) else if e = CHR ''t'' then Some (CHR 0x09)
      else None)"

definition from_hex :: "char \<Rightarrow> nat" where
  "from_hex c = (let n = of_char c in if 97 \<le> n then n - 97 + 10
                 else if 65 \<le> n then n - 65 + 10 else n - 48)"

definition utf8_of_code :: "nat \<Rightarrow> string" where
  "utf8_of_code code =
     (if 0x800 \<le> code then
        [char_of (0xE0 + code div 4096), char_of (0x80 + code div 64 mod 64),
         char_of (0x80 + code mod 64)]
      else if 0x80 \<le> code then [char_of (0xC0 + code div 64), char_of (0x80 + code mod 64)]
      else [char_of code])"

fun unescape :: "string \<Rightarrow> string" where
  "unescape [] = []"
| "unescape (c # cs) =
     (if c = BSLASH then
        (case cs of
           [] \<Rightarrow> []
         | e # cs' \<Rightarrow>
             if e = CHR ''u'' then
               (case cs' of
                  h1 # h2 # h3 # h4 # rest \<Rightarrow>
                    utf8_of_code (from_hex h1 * 4096 + from_hex h2 * 256 +
                                  from_hex h3 * 16 + from_hex h4) @ unescape rest
                | _ \<Rightarrow> [])
             else (case simple_unescape e of
                     Some x \<Rightarrow> x # unescape cs' | None \<Rightarrow> unescape cs'))
      else c # unescape cs)"

fun r_s :: "rvalue \<Rightarrow> string res" where
  "r_s (RString raw) = Inr (unescape raw)"
| "r_s _ = Inl RuntimeError"

fun r_i :: "lib \<Rightarrow> rvalue \<Rightarrow> int res" where
  "r_i L (RNumber t) = (case lexcast_int64 L t of None \<Rightarrow> Inl BadLexicalCast | Some i \<Rightarrow> Inr i)"
| "r_i L (RString t) = (case lexcast_int64 L t of None \<Rightarrow> Inl BadLexicalCast | Some i \<Rightarrow> Inr i)"
| "r_i L _ = Inl RuntimeError"

fun r_d :: "lib \<Rightarrow> rvalue \<Rightarrow> double res" where
  "r_d L (RNumber t) = (case lexcast_double L t of None \<Rightarrow> Inl BadLexicalCast | Some d \<Rightarrow> Inr d)"
| "r_d L _ = Inl RuntimeError"

fun r_b :: "rvalue \<Rightarrow> bool res" where
  "r_b RTrue = Inr True"
| "r_b RFalse = Inr False"
| "r_b _ = Inl RuntimeError"

text \<open>
  \<open>has\<close> sorts the members by key and searches; on a list the elements have no key and the
  comparison reads uninitialised pointers.
\<close>

fun r_has :: "rvalue \<Rightarrow> string \<Rightarrow> bool res" where
  "r_has (RObject kvs) k = Inr (k \<in> fst ` set kvs)"
| "r_has (RList xs) k = (if xs = [] then Inr False else Inl Undefined)"
| "r_has _ k = Inl RuntimeError"

fun r_get :: "rvalue \<Rightarrow> string \<Rightarrow> rvalue res" where
  "r_get (RObject kvs) k = (case map_of kvs k of Some v \<Rightarrow> Inr v | None \<Rightarrow> Inl RuntimeError)"
| "r_get _ k = Inl RuntimeError"

text \<open>\<open>begin()\<close> to \<open>end()\<close>: the elements with their keys (the empty key in a list).\<close>

fun r_members :: "rvalue \<Rightarrow> (string \<times> rvalue) list res" where
  "r_members (RList xs) = Inr (map (\<lambda>v. ([], v)) xs)"
| "r_members (RObject kvs) = Inr kvs"
| "r_members _ = Inl RuntimeError"

fun r_size :: "rvalue \<Rightarrow> nat res" where
  "r_size (RString raw) = Inr (length (unescape raw))"
| "r_size (RList xs) = Inr (length xs)"
| "r_size (RObject kvs) = Inr (length kvs)"
| "r_size _ = Inl RuntimeError"

fun r_at :: "rvalue \<Rightarrow> int \<Rightarrow> rvalue res" where
  "r_at (RList xs) i =
     (if int (length xs) \<le> i \<or> i < 0 then Inl RuntimeError else Inr (xs ! nat i))"
| "r_at _ i = Inl RuntimeError"

text \<open>
  After a call of \<open>has\<close> or \<open>operator[]\<close> the members of an object are in key order. The
  keys are compared as \<^verbatim>\<open>char\<close> sequences, and \<^verbatim>\<open>char\<close> is signed; for fewer than seventeen
  members \<^verbatim>\<open>std::sort\<close> is an insertion sort, hence stable.
\<close>

definition signed_char :: "char \<Rightarrow> int" where
  "signed_char c = (let n = int (of_char c) in if n < 128 then n else n - 256)"

fun sort_members :: "rvalue \<Rightarrow> rvalue" where
  "sort_members (RObject kvs) = RObject (sort_key (\<lambda>kv. map signed_char (fst kv)) kvs)"
| "sort_members v = v"

section \<open>The parser\<close>

definition peek :: "string \<Rightarrow> char" where
  "peek xs = (case xs of [] \<Rightarrow> NUL | c # _ \<Rightarrow> c)"

definition is_ws :: "char \<Rightarrow> bool" where
  "is_ws c = (c = CHR '' '' \<or> c = CHR 0x09 \<or> c = CHR 0x0D \<or> c = CHR 0x0A)"

definition ws_skip :: "string \<Rightarrow> string" where
  "ws_skip xs = dropWhile is_ws xs"

definition is_hex :: "char \<Rightarrow> bool" where
  "is_hex c = (let n = (of_char c :: nat)
     in 48 \<le> n \<and> n \<le> 57 \<or> 97 \<le> n \<and> n \<le> 102 \<or> 65 \<le> n \<and> n \<le> 70)"

text \<open>The loop of \<open>decode_string\<close>, after the opening quote: the raw text and the rest.\<close>

fun scan_string :: "string \<Rightarrow> (string \<times> string) option" where
  "scan_string [] = None"
| "scan_string (c # cs) =
     (if c = DQUOTE then Some ([], cs)
      else if c = NUL then None
      else if c = BSLASH then
        (case cs of
           [] \<Rightarrow> None
         | e # cs' \<Rightarrow>
             if e = CHR ''u'' then
               (case cs' of
                  h1 # h2 # h3 # h4 # rest \<Rightarrow>
                    if is_hex h1 \<and> is_hex h2 \<and> is_hex h3 \<and> is_hex h4
                    then map_option (\<lambda>(t, r). (c # e # h1 # h2 # h3 # h4 # t, r)) (scan_string rest)
                    else None
                | _ \<Rightarrow> None)
             else if simple_unescape e \<noteq> None
             then map_option (\<lambda>(t, r). (c # e # t, r)) (scan_string cs')
             else None)
      else map_option (\<lambda>(t, r). (c # t, r)) (scan_string cs))"

definition decode_string :: "string \<Rightarrow> (string \<times> string) option" where
  "decode_string xs = (if peek xs = DQUOTE then scan_string (tl xs) else None)"

datatype number_state =
  Minus | AfterMinus | ZeroFirst | Digits | DigitsAfterPoints | E | DigitsAfterE | Invalid

definition is_digit19 :: "char \<Rightarrow> bool" where
  "is_digit19 c = (49 \<le> (of_char c :: nat) \<and> (of_char c :: nat) \<le> 57)"

definition is_digit09 :: "char \<Rightarrow> bool" where
  "is_digit09 c = (48 \<le> (of_char c :: nat) \<and> (of_char c :: nat) \<le> 57)"

text \<open>The transition tables; \<open>None\<close> is the default branch, a character that ends the number.\<close>

definition number_step :: "number_state \<Rightarrow> char \<Rightarrow> number_state option" where
  "number_step st c =
     (if c = CHR ''0'' then Some (case st of Minus \<Rightarrow> ZeroFirst | AfterMinus \<Rightarrow> ZeroFirst
        | ZeroFirst \<Rightarrow> Invalid | Digits \<Rightarrow> Digits | DigitsAfterPoints \<Rightarrow> DigitsAfterPoints
        | E \<Rightarrow> DigitsAfterE | DigitsAfterE \<Rightarrow> DigitsAfterE | Invalid \<Rightarrow> Invalid)
      else if is_digit19 c then Some (case st of Minus \<Rightarrow> Digits | AfterMinus \<Rightarrow> Digits
        | ZeroFirst \<Rightarrow> Invalid | Digits \<Rightarrow> Digits | DigitsAfterPoints \<Rightarrow> DigitsAfterPoints
        | E \<Rightarrow> DigitsAfterE | DigitsAfterE \<Rightarrow> DigitsAfterE | Invalid \<Rightarrow> Invalid)
      else if c = CHR ''.'' then Some (case st of ZeroFirst \<Rightarrow> DigitsAfterPoints
        | Digits \<Rightarrow> DigitsAfterPoints | _ \<Rightarrow> Invalid)
      else if c = CHR ''-'' then Some (case st of Minus \<Rightarrow> AfterMinus | E \<Rightarrow> DigitsAfterE
        | _ \<Rightarrow> Invalid)
      else if c = CHR ''+'' then Some (case st of E \<Rightarrow> DigitsAfterE | _ \<Rightarrow> Invalid)
      else if c = CHR ''e'' \<or> c = CHR ''E'' then
        Some (case st of Digits \<Rightarrow> E | DigitsAfterPoints \<Rightarrow> E | _ \<Rightarrow> Invalid)
      else None)"

definition number_accepts :: "number_state \<Rightarrow> bool" where
  "number_accepts st = (st \<in> {ZeroFirst, Digits, DigitsAfterPoints, DigitsAfterE})"

function decode_number :: "number_state \<Rightarrow> string \<Rightarrow> (string \<times> string) option" where
  "decode_number st xs =
     (if st = Invalid then None
      else case xs of
        [] \<Rightarrow> if number_accepts st then Some ([], []) else None
      | c # cs \<Rightarrow>
          (case number_step st c of
             None \<Rightarrow> if number_accepts st then Some ([], c # cs) else None
           | Some st' \<Rightarrow>
               if is_digit19 c
               then map_option (\<lambda>(t, r). (c # takeWhile is_digit09 cs @ t, r))
                      (decode_number st' (dropWhile is_digit09 cs))
               else map_option (\<lambda>(t, r). (c # t, r)) (decode_number st' cs)))"
  by pat_completeness auto
termination
  by (relation "measure (\<lambda>(st, xs). length xs)") (auto simp: length_dropWhile_le le_imp_less_Suc)

declare decode_number.simps [simp del]

text \<open>The cases of \<open>decode_value\<close> that are not containers.\<close>

definition decode_scalar :: "string \<Rightarrow> (rvalue \<times> string) option" where
  "decode_scalar xs =
     (if peek xs = DQUOTE then
        map_option (\<lambda>(t, r). (RString t, r)) (decode_string xs)
      else if peek xs = CHR ''t'' then
        (if take 4 xs = ''true'' then Some (RTrue, drop 4 xs) else None)
      else if peek xs = CHR ''f'' then
        (if take 5 xs = ''false'' then Some (RFalse, drop 5 xs) else None)
      else if peek xs = CHR ''n'' then
        (if take 4 xs = ''null'' then Some (RNull, drop 4 xs) else None)
      else map_option (\<lambda>(t, r). (RNumber t, r)) (decode_number Minus xs))"

text \<open>
  \<open>decode_value\<close>, and the loops of \<open>decode_list\<close> and \<open>decode_object\<close>. The recursion is on
  a fuel that \<open>load\<close> sets above the length of the text.
\<close>

fun decode_value :: "nat \<Rightarrow> string \<Rightarrow> (rvalue \<times> string) option"
and decode_list :: "nat \<Rightarrow> string \<Rightarrow> (rvalue list \<times> string) option"
and decode_object :: "nat \<Rightarrow> string \<Rightarrow> ((string \<times> rvalue) list \<times> string) option" where
  "decode_value 0 xs = None"
| "decode_value (Suc n) xs =
     (if peek xs = CHR ''['' then
        (let ys = ws_skip (tl xs) in
         if peek ys = CHR '']'' then Some (RList [], tl ys)
         else map_option (\<lambda>(vs, r). (RList vs, r)) (decode_list n ys))
      else if peek xs = CHR ''{'' then
        (let ys = ws_skip (tl xs) in
         if peek ys = CHR ''}'' then Some (RObject [], tl ys)
         else map_option (\<lambda>(kvs, r). (RObject kvs, r)) (decode_object n ys))
      else decode_scalar xs)"
| "decode_list 0 xs = None"
| "decode_list (Suc n) xs =
     (case decode_value n xs of
        None \<Rightarrow> None
      | Some (v, ys) \<Rightarrow>
          (let zs = ws_skip ys in
           if peek zs = CHR '']'' then Some ([v], tl zs)
           else if peek zs = CHR '','' then
             map_option (\<lambda>(vs, r). (v # vs, r)) (decode_list n (ws_skip (tl zs)))
           else None))"
| "decode_object 0 xs = None"
| "decode_object (Suc n) xs =
     (case decode_string xs of
        None \<Rightarrow> None
      | Some (raw, ys) \<Rightarrow>
          (let zs = ws_skip ys in
           if peek zs \<noteq> CHR '':'' then None
           else case decode_value n (ws_skip (tl zs)) of
             None \<Rightarrow> None
           | Some (v, us) \<Rightarrow>
               (let vs = ws_skip us in
                if peek vs = CHR ''}'' then Some ([(unescape raw, v)], tl vs)
                else if peek vs = CHR '','' then
                  map_option (\<lambda>(kvs, r). ((unescape raw, v) # kvs, r))
                    (decode_object n (ws_skip (tl vs)))
                else None)))"

definition parse :: "nat \<Rightarrow> string \<Rightarrow> rvalue option" where
  "parse fuel xs =
     (case decode_value fuel (ws_skip xs) of
        None \<Rightarrow> None
      | Some (v, ys) \<Rightarrow> if peek (ws_skip ys) \<noteq> NUL then None else Some v)"

definition load :: "string \<Rightarrow> rvalue option" where
  "load str = parse (Suc (length str)) str"

section \<open>Writable values\<close>

text \<open>An object is the association list of its members in insertion order.\<close>

datatype wvalue =
    WNull | WFalse | WTrue | WNumber double | WString string
  | WList "wvalue list" | WObject "(string \<times> wvalue) list"

text \<open>\<^verbatim>\<open>unordered_map::emplace\<close> keeps an existing entry.\<close>

definition um_emplace :: "string \<times> 'v \<Rightarrow> (string \<times> 'v) list \<Rightarrow> (string \<times> 'v) list" where
  "um_emplace kv m = (if fst kv \<in> fst ` set m then m else m @ [kv])"

fun wvalue_of_rvalue :: "lib \<Rightarrow> rvalue \<Rightarrow> wvalue res"
and wvalues_of_rvalues :: "lib \<Rightarrow> rvalue list \<Rightarrow> wvalue list res"
and wmembers_of_rmembers ::
    "lib \<Rightarrow> (string \<times> rvalue) list \<Rightarrow> (string \<times> wvalue) list \<Rightarrow> (string \<times> wvalue) list res" where
  "wvalue_of_rvalue L RNull = Inr WNull"
| "wvalue_of_rvalue L RFalse = Inr WFalse"
| "wvalue_of_rvalue L RTrue = Inr WTrue"
| "wvalue_of_rvalue L (RNumber t) = res_bind (r_d L (RNumber t)) (\<lambda>d. Inr (WNumber d))"
| "wvalue_of_rvalue L (RString t) = Inr (WString (unescape t))"
| "wvalue_of_rvalue L (RList vs) = res_bind (wvalues_of_rvalues L vs) (\<lambda>ws. Inr (WList ws))"
| "wvalue_of_rvalue L (RObject kvs) =
     res_bind (wmembers_of_rmembers L kvs []) (\<lambda>m. Inr (WObject m))"
| "wvalues_of_rvalues L [] = Inr []"
| "wvalues_of_rvalues L (v # vs) =
     res_bind (wvalue_of_rvalue L v) (\<lambda>w.
     res_bind (wvalues_of_rvalues L vs) (\<lambda>ws. Inr (w # ws)))"
| "wmembers_of_rmembers L [] m = Inr m"
| "wmembers_of_rmembers L ((k, v) # kvs) m =
     res_bind (wvalue_of_rvalue L v) (\<lambda>w. wmembers_of_rmembers L kvs (um_emplace (k, w) m))"

text \<open>The same for the result of \<open>load\<close>, where the error state throws.\<close>

definition wvalue_of :: "lib \<Rightarrow> rvalue option \<Rightarrow> wvalue res" where
  "wvalue_of L r = (case r of None \<Rightarrow> Inl RuntimeError | Some v \<Rightarrow> wvalue_of_rvalue L v)"

text \<open>\<open>operator[](const std::string&)\<close> as a target of an assignment, and as a value.\<close>

definition w_members :: "wvalue \<Rightarrow> (string \<times> wvalue) list" where
  "w_members w = (case w of WObject m \<Rightarrow> m | _ \<Rightarrow> [])"

definition w_set :: "wvalue \<Rightarrow> string \<Rightarrow> wvalue \<Rightarrow> wvalue" where
  "w_set w k v = WObject (AList.update k v (w_members w))"

definition w_get :: "wvalue \<Rightarrow> string \<Rightarrow> wvalue" where
  "w_get w k = (case map_of (w_members w) k of Some v \<Rightarrow> v | None \<Rightarrow> WNull)"

definition w_count :: "wvalue \<Rightarrow> string \<Rightarrow> bool" where
  "w_count w k = (k \<in> fst ` set (w_members w))"

definition w_keys :: "lib \<Rightarrow> wvalue \<Rightarrow> string list" where
  "w_keys L w = um_order L (map fst (w_members w))"

definition to_hex :: "nat \<Rightarrow> char" where
  "to_hex n = (if n < 10 then char_of (48 + n) else char_of (97 + n - 10))"

definition escape_char :: "char \<Rightarrow> string" where
  "escape_char c =
     (if c = DQUOTE then [BSLASH, DQUOTE] else if c = BSLASH then [BSLASH, BSLASH]
      else if c = CHR 0x0A then [BSLASH, CHR ''n''] else if c = CHR 0x08 then [BSLASH, CHR ''b'']
      else if c = CHR 0x0C then [BSLASH, CHR ''f''] else if c = CHR 0x0D then [BSLASH, CHR ''r'']
      else if c = CHR 0x09 then [BSLASH, CHR ''t'']
      else if of_char c < (0x20 :: nat) then
        [BSLASH, CHR ''u'', CHR ''0'', CHR ''0'', to_hex (of_char c div 16), to_hex (of_char c mod 16)]
      else [c])"

definition escape :: "string \<Rightarrow> string" where
  "escape s = concat (map escape_char s)"

definition dump_string :: "string \<Rightarrow> string" where
  "dump_string s = [DQUOTE] @ escape s @ [DQUOTE]"

fun comma_join :: "string list \<Rightarrow> string" where
  "comma_join [] = []"
| "comma_join [s] = s"
| "comma_join (s # ss) = s @ '','' @ comma_join ss"

definition um_iter :: "lib \<Rightarrow> (string \<times> 'v) list \<Rightarrow> (string \<times> 'v) list" where
  "um_iter L m = in_order (um_order L) m"

fun dump_internal :: "lib \<Rightarrow> wvalue \<Rightarrow> string" where
  "dump_internal L WNull = ''null''"
| "dump_internal L WFalse = ''false''"
| "dump_internal L WTrue = ''true''"
| "dump_internal L (WNumber d) = format_g10 d"
| "dump_internal L (WString s) = dump_string s"
| "dump_internal L (WList ws) = ''['' @ comma_join (map (dump_internal L) ws) @ '']''"
| "dump_internal L (WObject m) =
     ''{'' @ comma_join (map (\<lambda>(k, t). dump_string k @ '':'' @ t)
                          (um_iter L (map (\<lambda>(k, w). (k, dump_internal L w)) m))) @ ''}''"

definition dump_json :: "lib \<Rightarrow> wvalue \<Rightarrow> string" where
  "dump_json L w = dump_internal L w"

end
