(* ===== verification/Crow_Json_Laws.thy ===== *)
theory Crow_Json_Laws
  imports Crow_Json
begin

text \<open>
  Laws of the JSON layer: the parser consumes its input and its fuel never runs out on a text
  some fuel can parse; escaping is inverted by the scanner and by \<open>unescape\<close>; a printed
  value without numbers loads back to the same value, up to the order of object members.
\<close>

section \<open>Enough fuel\<close>

lemma length_ws_skip: "length (ws_skip xs) \<le> length xs"
  by (simp add: ws_skip_def length_dropWhile_le)

lemma peek_length: "peek xs = c \<Longrightarrow> c \<noteq> NUL \<Longrightarrow> length xs = Suc (length (tl xs))"
  by (cases xs) (simp_all add: peek_def)

lemma scan_string_length: "scan_string xs = Some (t, r) \<Longrightarrow> length r < length xs"
proof (induction xs arbitrary: t r rule: scan_string.induct)
  case (2 c cs)
  then show ?case
    by (auto split: if_splits list.splits simp: less_Suc_eq intro: less_trans) (metis less_SucI)+
qed simp

lemma decode_string_length: "decode_string xs = Some (t, r) \<Longrightarrow> length r < length xs"
  by (auto simp: decode_string_def dest!: scan_string_length split: if_splits)

lemmas decode_number_Nil = decode_number.simps [of st "[]" for st]
lemmas decode_number_Cons = decode_number.simps [of st "c # cs" for st c cs]

lemma decode_number_length:
  "decode_number st xs = Some (t, r) \<Longrightarrow>
     length r \<le> length xs \<and> (\<not> number_accepts st \<longrightarrow> length r < length xs)"
proof (induction st xs arbitrary: t r rule: decode_number.induct)
  case (1 st xs)
  show ?case
  proof (cases xs)
    case Nil
    with "1.prems" show ?thesis by (simp add: decode_number_Nil split: if_splits)
  next
    case (Cons c cs)
    have st: "st \<noteq> Invalid" using "1.prems" Cons by (auto simp: decode_number_Cons)
    show ?thesis
    proof (cases "number_step st c")
      case None
      with "1.prems" Cons st show ?thesis by (auto simp: decode_number_Cons split: if_splits)
    next
      case (Some st')
      show ?thesis
      proof (cases "is_digit19 c")
        case True
        then obtain t' where "decode_number st' (dropWhile is_digit09 cs) = Some (t', r)"
          using "1.prems" Cons Some st by (auto simp: decode_number_Cons)
        then have "length r \<le> length (dropWhile is_digit09 cs)"
          using "1.IH"(1) [OF st Cons Some True] by blast
        then show ?thesis using length_dropWhile_le [of is_digit09 cs] Cons by simp
      next
        case False
        then obtain t' where "decode_number st' cs = Some (t', r)"
          using "1.prems" Cons Some st by (auto simp: decode_number_Cons)
        then have "length r \<le> length cs"
          using "1.IH"(2) [OF st Cons Some False] by blast
        then show ?thesis using Cons by simp
      qed
    qed
  qed
qed

lemma length_tl_ws: "length (tl (ws_skip xs)) \<le> length xs"
  using length_ws_skip [of xs] by simp

lemma decode_scalar_length: "decode_scalar xs = Some (v, r) \<Longrightarrow> length r < length xs"
  using peek_length [of xs] decode_string_length [of xs] decode_number_length [of Minus xs]
  unfolding decode_scalar_def
  by (auto simp: number_accepts_def split: if_splits)

lemma decode_value_length_step:
  assumes "\<And>xs vs r. decode_list n xs = Some (vs, r) \<Longrightarrow> length r < length xs"
    and "\<And>xs kvs r. decode_object n xs = Some (kvs, r) \<Longrightarrow> length r < length xs"
    and "decode_value (Suc n) xs = Some (v, r)"
  shows "length r < length xs"
proof -
  have tl: "length (ws_skip (tl xs)) < length xs \<and> length (tl (ws_skip (tl xs))) < length xs"
    if "peek xs = c" "c \<noteq> NUL" for c
    using peek_length [OF that] length_ws_skip [of "tl xs"] by simp
  show ?thesis
    using assms(3) tl [of "CHR ''[''"] tl [of "CHR ''{''"]
      assms(1) [of "ws_skip (tl xs)"] assms(2) [of "ws_skip (tl xs)"] decode_scalar_length
    by (auto simp: Let_def split: if_splits)
qed

lemma decode_list_SucE:
  assumes "decode_list (Suc n) xs = Some (vs, r)"
  obtains v ys where "decode_value n xs = Some (v, ys)"
    and "peek (ws_skip ys) = CHR '']'' \<and> vs = [v] \<and> r = tl (ws_skip ys) \<or>
      (\<exists>vs'. peek (ws_skip ys) = CHR '','' \<and> vs = v # vs' \<and>
             decode_list n (ws_skip (tl (ws_skip ys))) = Some (vs', r))"
  using assms by (auto simp: Let_def split: option.splits if_splits)

lemma decode_object_SucE:
  assumes "decode_object (Suc n) xs = Some (kvs, r)"
  obtains raw ys v us where "decode_string xs = Some (raw, ys)" and "peek (ws_skip ys) = CHR '':''"
    and "decode_value n (ws_skip (tl (ws_skip ys))) = Some (v, us)"
    and "peek (ws_skip us) = CHR ''}'' \<and> kvs = [(unescape raw, v)] \<and> r = tl (ws_skip us) \<or>
      (\<exists>kvs'. peek (ws_skip us) = CHR '','' \<and> kvs = (unescape raw, v) # kvs' \<and>
              decode_object n (ws_skip (tl (ws_skip us))) = Some (kvs', r))"
  using assms by (auto simp: Let_def split: option.splits if_splits)

lemma decode_length_all:
  "(\<forall>xs v r. decode_value n xs = Some (v, r) \<longrightarrow> length r < length xs) \<and>
   (\<forall>xs vs r. decode_list n xs = Some (vs, r) \<longrightarrow> length r < length xs) \<and>
   (\<forall>xs kvs r. decode_object n xs = Some (kvs, r) \<longrightarrow> length r < length xs)"
proof (induction n)
  case (Suc n)
  have val: "length r < length xs" if "decode_value n xs = Some (v, r)" for xs v r
    using Suc that by blast
  have sep: "length (tl (ws_skip ys)) \<le> length ys \<and> length (ws_skip (tl (ws_skip ys))) \<le> length ys"
    for ys :: string
    using length_tl_ws [of ys] length_ws_skip [of "tl (ws_skip ys)"] by simp
  show ?case
  proof (intro conjI allI impI)
    fix xs v r assume "decode_value (Suc n) xs = Some (v, r)"
    then show "length r < length xs" using Suc decode_value_length_step by blast
  next
    fix xs vs r assume "decode_list (Suc n) xs = Some (vs, r)"
    then obtain v ys where "length ys < length xs"
      and "r = tl (ws_skip ys) \<or> (\<exists>vs'. decode_list n (ws_skip (tl (ws_skip ys))) = Some (vs', r))"
      by (elim decode_list_SucE) (use val in blast)
    then show "length r < length xs" using Suc sep [of ys] by (fastforce dest: less_le_trans)
  next
    fix xs kvs r assume "decode_object (Suc n) xs = Some (kvs, r)"
    then obtain raw ys v us where "length ys < length xs"
      and "length us < length (ws_skip (tl (ws_skip ys)))"
      and "r = tl (ws_skip us) \<or> (\<exists>kvs'. decode_object n (ws_skip (tl (ws_skip us))) = Some (kvs', r))"
      by (elim decode_object_SucE) (use val decode_string_length in blast)
    then show "length r < length xs"
      using Suc sep [of ys] sep [of us] by (fastforce dest: less_le_trans)
  qed
qed simp

lemmas decode_length = decode_length_all [THEN conjunct1, rule_format]
  decode_length_all [THEN conjunct2, THEN conjunct1, rule_format]
  decode_length_all [THEN conjunct2, THEN conjunct2, rule_format]

text \<open>
  If some fuel parses a value, then as much fuel as the value has characters does, with the
  same result.
\<close>

lemma decode_fuel_all:
  "(\<forall>xs v r k. decode_value n xs = Some (v, r) \<and> length xs \<le> k + length r
       \<longrightarrow> decode_value k xs = Some (v, r)) \<and>
   (\<forall>xs vs r k. decode_list n xs = Some (vs, r) \<and> length xs \<le> k + length r
       \<longrightarrow> decode_list k xs = Some (vs, r)) \<and>
   (\<forall>xs kvs r k. decode_object n xs = Some (kvs, r) \<and> length xs \<le> k + length r
       \<longrightarrow> decode_object k xs = Some (kvs, r))"
proof (induction n)
  case (Suc n)
  note IHv = Suc [THEN conjunct1, rule_format, OF conjI]
    and IHl = Suc [THEN conjunct2, THEN conjunct1, rule_format, OF conjI]
    and IHo = Suc [THEN conjunct2, THEN conjunct2, rule_format, OF conjI]
  have sep: "Suc (length (tl (ws_skip ys))) \<le> length ys \<and>
      Suc (length (ws_skip (tl (ws_skip ys)))) \<le> length ys"
    if "peek (ws_skip ys) = c" "c \<noteq> NUL" for ys :: string and c
    using peek_length [OF that] length_ws_skip [of ys] length_ws_skip [of "tl (ws_skip ys)"] by simp
  show ?case
  proof (intro conjI allI impI; elim conjE)
    fix xs v r k
    assume v: "decode_value (Suc n) xs = Some (v, r)" and k: "length xs \<le> k + length r"
    from decode_length(1) [OF v] k obtain k' where [simp]: "k = Suc k'" by (cases k) auto
    have inner: "length (ws_skip (tl xs)) \<le> k' + length r" if "peek xs = c" "c \<noteq> NUL" for c
      using peek_length [OF that] length_ws_skip [of "tl xs"] k by simp
    show "decode_value k xs = Some (v, r)"
      using v IHl [of "ws_skip (tl xs)" _ r k'] IHo [of "ws_skip (tl xs)" _ r k']
        inner [of "CHR ''[''"] inner [of "CHR ''{''"]
      by (auto simp: Let_def split: if_splits)
  next
    fix xs vs r k
    assume l: "decode_list (Suc n) xs = Some (vs, r)" and k: "length xs \<le> k + length r"
    from decode_length(2) [OF l] k obtain k' where [simp]: "k = Suc k'" by (cases k) auto
    from l obtain v ys where v: "decode_value n xs = Some (v, ys)"
      and rest: "peek (ws_skip ys) = CHR '']'' \<and> vs = [v] \<and> r = tl (ws_skip ys) \<or>
        (\<exists>vs'. peek (ws_skip ys) = CHR '','' \<and> vs = v # vs' \<and>
               decode_list n (ws_skip (tl (ws_skip ys))) = Some (vs', r))"
      by (rule decode_list_SucE)
    have y: "length ys < length xs" using decode_length(1) [OF v] .
    from rest show "decode_list k xs = Some (vs, r)"
    proof (elim disjE exE conjE)
      assume "peek (ws_skip ys) = CHR '']''" "vs = [v]" "r = tl (ws_skip ys)"
      then show ?thesis using IHv [OF v, of k'] sep [of ys] k by simp
    next
      fix vs' assume p: "peek (ws_skip ys) = CHR '',''" and [simp]: "vs = v # vs'"
        and l': "decode_list n (ws_skip (tl (ws_skip ys))) = Some (vs', r)"
      show ?thesis
        using IHv [OF v, of k'] IHl [OF l', of k'] sep [OF p] p k y
          decode_length(2) [OF l'] by simp
    qed
  next
    fix xs kvs r k
    assume o: "decode_object (Suc n) xs = Some (kvs, r)" and k: "length xs \<le> k + length r"
    from decode_length(3) [OF o] k obtain k' where [simp]: "k = Suc k'" by (cases k) auto
    from o obtain raw ys v us where s: "decode_string xs = Some (raw, ys)"
      and c: "peek (ws_skip ys) = CHR '':''"
      and v: "decode_value n (ws_skip (tl (ws_skip ys))) = Some (v, us)"
      and rest: "peek (ws_skip us) = CHR ''}'' \<and> kvs = [(unescape raw, v)] \<and> r = tl (ws_skip us) \<or>
        (\<exists>kvs'. peek (ws_skip us) = CHR '','' \<and> kvs = (unescape raw, v) # kvs' \<and>
                decode_object n (ws_skip (tl (ws_skip us))) = Some (kvs', r))"
      by (rule decode_object_SucE)
    note lens = decode_string_length [OF s] sep [OF c] decode_length(1) [OF v]
    from rest show "decode_object k xs = Some (kvs, r)"
    proof (elim disjE exE conjE)
      assume "peek (ws_skip us) = CHR ''}''" "kvs = [(unescape raw, v)]" "r = tl (ws_skip us)"
      then show ?thesis using IHv [OF v, of k'] s c sep [of us] lens k by simp
    next
      fix kvs' assume p: "peek (ws_skip us) = CHR '',''" and [simp]: "kvs = (unescape raw, v) # kvs'"
        and o': "decode_object n (ws_skip (tl (ws_skip us))) = Some (kvs', r)"
      show ?thesis
        using IHv [OF v, of k'] IHo [OF o', of k'] s c p sep [OF p] lens k
          decode_length(3) [OF o'] by simp
    qed
  qed
qed simp

lemmas decode_value_fuel = decode_fuel_all [THEN conjunct1, rule_format, OF conjI]

lemma parse_fuel_enough: "parse n s = Some v \<Longrightarrow> length s < k \<Longrightarrow> parse k s = Some v"
proof -
  assume p: "parse n s = Some v" and k: "length s < k"
  then obtain ys where d: "decode_value n (ws_skip s) = Some (v, ys)" and e: "peek (ws_skip ys) = NUL"
    by (auto simp: parse_def split: option.splits if_splits)
  have "length (ws_skip s) \<le> k + length ys" using length_ws_skip [of s] k by simp
  from decode_value_fuel [OF d this] e show ?thesis by (simp add: parse_def)
qed

lemma load_iff_parse: "length s < k \<Longrightarrow> parse k s = load s"
  unfolding load_def
  by (cases "parse k s"; cases "parse (Suc (length s)) s")
     (auto dest: parse_fuel_enough [where k = k] parse_fuel_enough [where k = "Suc (length s)"])

section \<open>Escaping\<close>

lemma hex_of_nibble: "k < 16 \<Longrightarrow> is_hex (to_hex k) \<and> from_hex (to_hex k) = k"
  by (cases "k < 10") (simp_all add: is_hex_def to_hex_def from_hex_def)

lemma utf8_of_ascii: "n < 128 \<Longrightarrow> utf8_of_code n = [char_of n]"
  by (simp add: utf8_of_code_def)

lemma hex_zero: "is_hex (CHR ''0'')" "from_hex (CHR ''0'') = 0"
  by (simp_all add: is_hex_def from_hex_def)

text \<open>One escaped character is scanned as a unit and unescapes to the character.\<close>

lemma control_escape:
  assumes "of_char c < (32 :: nat)"
  defines "h \<equiv> to_hex (of_char c div 16)" and "l \<equiv> to_hex (of_char c mod 16)"
  shows "is_hex h \<and> is_hex l \<and> from_hex h * 16 + from_hex l = of_char c"
proof -
  have "(of_char c :: nat) div 16 < 16" "(of_char c :: nat) mod 16 < 16" using assms(1) by simp_all
  then show ?thesis by (simp add: hex_of_nibble h_def l_def)
qed

lemma scan_escape_char:
  "scan_string (escape_char c @ t) = map_option (\<lambda>(u, r). (escape_char c @ u, r)) (scan_string t)"
proof -
  have "of_char c < (32 :: nat)" if "c = NUL" using that by simp
  with control_escape [of c] show ?thesis
    by (auto simp: escape_char_def simple_unescape_def hex_zero)
qed

lemma unescape_escape_char: "unescape (escape_char c @ t) = c # unescape t"
proof -
  have "utf8_of_code (from_hex (to_hex (of_char c div 16)) * 16 + from_hex (to_hex (of_char c mod 16))) = [c]"
    if "of_char c < (32 :: nat)"
    using control_escape [OF that] that by (simp add: utf8_of_ascii)
  then show ?thesis
    by (auto simp: escape_char_def simple_unescape_def hex_zero)
qed

lemma scan_escape: "scan_string (escape s @ DQUOTE # r) = Some (escape s, r)"
  by (induction s) (simp_all add: escape_def scan_escape_char)

lemma unescape_escape: "unescape (escape s) = s"
  by (induction s) (simp_all add: escape_def unescape_escape_char)

lemma decode_dump_string: "decode_string (dump_string s @ r) = Some (escape s, r)"
  by (simp add: decode_string_def dump_string_def peek_def scan_escape)

section \<open>Printing and loading back\<close>

text \<open>Well-formed values: no object has a key twice. \<open>number_free\<close> excludes numbers.\<close>

fun json_wf :: "wvalue \<Rightarrow> bool" where
  "json_wf (WList ws) = list_all json_wf ws"
| "json_wf (WObject m) = (distinct (map fst m) \<and> list_all (\<lambda>(k, w). json_wf w) m)"
| "json_wf _ = True"

fun number_free :: "wvalue \<Rightarrow> bool" where
  "number_free (WNumber d) = False"
| "number_free (WList ws) = list_all number_free ws"
| "number_free (WObject m) = list_all (\<lambda>(k, w). number_free w) m"
| "number_free _ = True"

text \<open>The value the printer walks through, as the parser will see it, and as a \<open>wvalue\<close>.\<close>

fun printed :: "lib \<Rightarrow> wvalue \<Rightarrow> rvalue" where
  "printed L WNull = RNull"
| "printed L WFalse = RFalse"
| "printed L WTrue = RTrue"
| "printed L (WNumber d) = RNumber (format_g10 d)"
| "printed L (WString s) = RString (escape s)"
| "printed L (WList ws) = RList (map (printed L) ws)"
| "printed L (WObject m) = RObject (um_iter L (map (\<lambda>(k, w). (k, printed L w)) m))"

fun reordered :: "lib \<Rightarrow> wvalue \<Rightarrow> wvalue" where
  "reordered L (WList ws) = WList (map (reordered L) ws)"
| "reordered L (WObject m) = WObject (um_iter L (map (\<lambda>(k, w). (k, reordered L w)) m))"
| "reordered L w = w"

lemma um_iter_map:
  "um_iter L (map (\<lambda>(k, w). (k, f w)) m) = map (\<lambda>(k, w). (k, f w)) (um_iter L m)"
  unfolding um_iter_def by (rule in_order_map)

lemma set_um_iter: "set (um_iter L m) \<subseteq> set m"
  unfolding um_iter_def by (rule set_in_order)

lemma map_fst_um_iter: "um_order_ok L \<Longrightarrow> map fst (um_iter L m) = um_order L (map fst m)"
  unfolding um_iter_def um_order_ok_def by (rule map_fst_in_order)

lemma distinct_um_iter: "um_order_ok L \<Longrightarrow> distinct (map fst m) \<Longrightarrow> distinct (map fst (um_iter L m))"
  unfolding um_iter_def um_order_ok_def by (rule distinct_in_order)

lemma map_of_um_iter: "um_order_ok L \<Longrightarrow> map_of (um_iter L m) k = map_of m k"
  unfolding um_iter_def um_order_ok_def by (rule map_of_in_order)

text \<open>How a printed value begins: never with a blank or a closing bracket.\<close>

definition fresh_start :: "string \<Rightarrow> bool" where
  "fresh_start t = (t \<noteq> [] \<and> \<not> is_ws (hd t) \<and> hd t \<noteq> CHR '']'' \<and> hd t \<noteq> CHR ''}'')"

lemma fresh_start_dump: "number_free w \<Longrightarrow> fresh_start (dump_internal L w)"
  by (cases w) (simp_all add: fresh_start_def dump_string_def is_ws_def)

lemma fresh_start_ws_skip: "fresh_start t \<Longrightarrow> ws_skip (t @ r) = t @ r"
  by (cases t) (simp_all add: fresh_start_def ws_skip_def)

lemma fresh_start_peek: "fresh_start t \<Longrightarrow> peek (t @ r) \<noteq> CHR '']'' \<and> peek (t @ r) \<noteq> CHR ''}''"
  by (cases t) (simp_all add: fresh_start_def peek_def)

lemma fresh_start_join:
  "ts \<noteq> [] \<Longrightarrow> list_all fresh_start ts \<Longrightarrow> fresh_start (comma_join ts)"
  by (cases ts rule: comma_join.cases) (auto simp: fresh_start_def)

lemma ws_skip_bracket [simp]:
  "ws_skip (CHR '']'' # r) = CHR '']'' # r" "ws_skip (CHR ''}'' # r) = CHR ''}'' # r"
  "ws_skip (CHR '','' # r) = CHR '','' # r" "ws_skip (CHR '':'' # r) = CHR '':'' # r"
  by (simp_all add: ws_skip_def is_ws_def)

lemma peek_Cons [simp]: "peek (c # r) = c"
  by (simp add: peek_def)

text \<open>\<open>reads t v\<close>: with as much fuel as \<open>t\<close> is long, the parser reads \<open>v\<close> from it.\<close>

definition reads :: "string \<Rightarrow> rvalue \<Rightarrow> bool" where
  "reads t v = (fresh_start t \<and> (\<forall>n r. length t \<le> n \<longrightarrow> decode_value n (t @ r) = Some (v, r)))"

lemma readsD: "reads t v \<Longrightarrow> length t \<le> n \<Longrightarrow> decode_value n (t @ r) = Some (v, r)"
  by (simp add: reads_def)

lemma decode_list_join:
  assumes "list_all (\<lambda>(t, v). reads t v) its" and "its \<noteq> []"
    and "length (comma_join (map fst its)) < n"
  shows "decode_list n (comma_join (map fst its) @ CHR '']'' # r) = Some (map snd its, r)"
  using assms
proof (induction its arbitrary: n)
  case (Cons it its)
  obtain t v where it: "it = (t, v)" by (cases it)
  obtain n' where n: "n = Suc n'" using Cons.prems(3) by (cases n) auto
  have tv: "reads t v" using Cons.prems it by simp
  show ?case
  proof (cases its)
    case Nil
    then show ?thesis using readsD [OF tv, of n'] Cons.prems(3) by (simp add: it n)
  next
    case (Cons it' its')
    let ?rest = "comma_join (map fst its)"
    have joined: "comma_join (map fst (it # its)) = t @ CHR '','' # ?rest"
      using Cons it by simp
    have "list_all fresh_start (map fst its)"
      using \<open>list_all _ (it # its)\<close> by (auto simp: list_all_iff reads_def)
    then have skip: "ws_skip (?rest @ CHR '']'' # r) = ?rest @ CHR '']'' # r"
      using Cons by (simp add: fresh_start_ws_skip fresh_start_join)
    have "decode_list n' (?rest @ CHR '']'' # r) = Some (map snd its, r)"
      using Cons.IH Cons.prems Cons joined n by simp
    then show ?thesis
      using readsD [OF tv, of n' "CHR '','' # ?rest @ CHR '']'' # r"] Cons.prems(3) skip
      unfolding joined by (simp add: it n)
  qed
qed simp

lemma decode_object_join:
  assumes "list_all (\<lambda>(k, t, v). reads t v) its" and "its \<noteq> []"
  defines "txt \<equiv> map (\<lambda>(k, t, v). dump_string k @ '':'' @ t)"
  assumes "length (comma_join (txt its)) < n"
  shows "decode_object n (comma_join (txt its) @ CHR ''}'' # r) =
    Some (map (\<lambda>(k, t, v). (k, v)) its, r)"
  using assms(1,2,4)
proof (induction its arbitrary: n)
  case (Cons it its)
  obtain k t v where it: "it = (k, t, v)" by (cases it)
  obtain n' where n: "n = Suc n'" using Cons.prems(3) by (cases n) auto
  have tv: "reads t v" using Cons.prems it by simp
  then have skip: "ws_skip (t @ u) = t @ u" for u
    by (simp add: reads_def fresh_start_ws_skip)
  show ?case
  proof (cases its)
    case Nil
    then show ?thesis using readsD [OF tv, of n'] Cons.prems(3) skip
      by (simp add: it n txt_def decode_dump_string unescape_escape)
  next
    case its: (Cons it' its')
    let ?rest = "comma_join (txt its)"
    have joined: "comma_join (txt (it # its)) = dump_string k @ CHR '':'' # t @ CHR '','' # ?rest"
      using its it by (simp add: txt_def split: prod.split)
    have "list_all fresh_start (txt its)"
      by (auto simp: txt_def list_all_iff fresh_start_def dump_string_def is_ws_def)
    then have skip': "ws_skip (?rest @ CHR ''}'' # r) = ?rest @ CHR ''}'' # r"
      using its by (simp add: fresh_start_ws_skip fresh_start_join txt_def)
    have "decode_object n' (?rest @ CHR ''}'' # r) = Some (map (\<lambda>(k, t, v). (k, v)) its, r)"
      using Cons.IH [of n'] Cons.prems its joined n by simp
    then show ?thesis
      using readsD [OF tv, of n' "CHR '','' # ?rest @ CHR ''}'' # r"] Cons.prems(3) skip skip'
      unfolding joined by (simp add: it n decode_dump_string unescape_escape)
  qed
qed simp

lemma reads_container:
  assumes "fresh_start j" and "b = CHR ''['' \<and> e = CHR '']'' \<or> b = CHR ''{'' \<and> e = CHR ''}''"
    and "\<And>n r. length j < n \<Longrightarrow>
      decode_value (Suc n) (b # j @ e # r) = Some (v, r)"
  shows "reads (b # j @ [e]) v"
  unfolding reads_def
proof (intro conjI allI impI)
  show "fresh_start (b # j @ [e])" using assms(2) by (auto simp: fresh_start_def is_ws_def)
next
  fix n r assume n: "length (b # j @ [e]) \<le> n"
  then obtain n' where "n = Suc n'" "length j < n'" by (cases n) auto
  then show "decode_value n ((b # j @ [e]) @ r) = Some (v, r)" using assms(3) [of n' r] by simp
qed

lemma reads_empty: "reads ''[]'' (RList [])" "reads ''{}'' (RObject [])"
proof -
  have "decode_value n (''[]'' @ r) = Some (RList [], r)" if "2 \<le> n" for n r
    using that by (cases n) simp_all
  then show "reads ''[]'' (RList [])" by (simp add: reads_def fresh_start_def is_ws_def)
  have "decode_value n (''{}'' @ r) = Some (RObject [], r)" if "2 \<le> n" for n r
    using that by (cases n) simp_all
  then show "reads ''{}'' (RObject [])" by (simp add: reads_def fresh_start_def is_ws_def)
qed

lemma reads_scalar:
  assumes "fresh_start t" and "hd t \<noteq> CHR ''[''" and "hd t \<noteq> CHR ''{''"
    and "\<And>r. decode_scalar (t @ r) = Some (v, r)"
  shows "reads t v"
proof -
  have p: "peek (t @ r) = hd t" for r using assms(1) by (cases t) (simp_all add: fresh_start_def)
  have "decode_value n (t @ r) = Some (v, r)" if "length t \<le> n" for n r
    using that assms p by (cases n) (auto simp: fresh_start_def)
  then show ?thesis using assms(1) by (simp add: reads_def)
qed

lemma reads_dump: "number_free w \<Longrightarrow> reads (dump_internal L w) (printed L w)"
proof (induction w)
  case (WList ws)
  let ?its = "map (\<lambda>w. (dump_internal L w, printed L w)) ws"
  have its: "list_all (\<lambda>(t, v). reads t v) ?its"
    using WList by (auto simp: list_all_iff)
  have fst: "map fst ?its = map (dump_internal L) ws" and snd: "map snd ?its = map (printed L) ws"
    by (simp_all add: comp_def)
  show ?case
  proof (cases "ws = []")
    case True
    then show ?thesis by (simp add: reads_empty)
  next
    case False
    let ?j = "comma_join (map (dump_internal L) ws)"
    have j: "fresh_start ?j"
      using False WList by (intro fresh_start_join) (auto simp: list_all_iff fresh_start_dump)
    have "decode_value (Suc n) (CHR ''['' # ?j @ CHR '']'' # r) = Some (printed L (WList ws), r)"
      if "length ?j < n" for n r
      using decode_list_join [OF its, of n r] that False
      by (simp add: comp_def fresh_start_ws_skip [OF j] fresh_start_peek [OF j])
    from reads_container [OF j _ this] show ?thesis by simp
  qed
next
  case (WObject m)
  define es where "es = um_iter L m"
  let ?its = "map (\<lambda>(k, w). (k, dump_internal L w, printed L w)) es"
  have nf: "number_free w \<and> reads (dump_internal L w) (printed L w)" if "(k, w) \<in> set es" for k w
    using that WObject set_um_iter [of L m] by (fastforce simp: list_all_iff es_def)
  have its: "list_all (\<lambda>(k, t, v). reads t v) ?its"
    using nf by (auto simp: list_all_iff)
  let ?txt = "map (\<lambda>(k, t, v). dump_string k @ '':'' @ t) ?its"
  have dtx: "dump_internal L (WObject m) = CHR ''{'' # comma_join ?txt @ ''}''"
    unfolding dump_internal.simps um_iter_map es_def by (simp add: comp_def split_def)
  have prt: "printed L (WObject m) = RObject (map (\<lambda>(k, t, v). (k, v)) ?its)"
    unfolding printed.simps um_iter_map es_def by (simp add: comp_def split_def)
  show ?case
  proof (cases "es = []")
    case True
    then show ?thesis unfolding dtx prt by (simp add: reads_empty)
  next
    case False
    define J where "J = comma_join ?txt"
    have j: "fresh_start J"
      unfolding J_def using False by (intro fresh_start_join)
        (auto simp: list_all_iff fresh_start_def dump_string_def is_ws_def)
    have "decode_value (Suc n) (CHR ''{'' # J @ CHR ''}'' # r) = Some (printed L (WObject m), r)"
      if "length J < n" for n r
    proof -
      have "decode_object n (J @ CHR ''}'' # r) = Some (map (\<lambda>(k, t, v). (k, v)) ?its, r)"
        using decode_object_join [OF its, of n r] that False unfolding J_def by blast
      then show ?thesis
        unfolding prt using fresh_start_ws_skip [OF j, of "CHR ''}'' # r"]
          fresh_start_peek [OF j, of "CHR ''}'' # r"] by simp
    qed
    from reads_container [OF j _ this] show ?thesis unfolding dtx J_def [symmetric] by simp
  qed
next
  case (WString s)
  show ?case
    by (rule reads_scalar)
       (simp_all add: fresh_start_def dump_string_def is_ws_def decode_scalar_def
          decode_dump_string [unfolded dump_string_def, simplified])
qed (auto intro!: reads_scalar simp: fresh_start_def is_ws_def decode_scalar_def)

lemma wvalue_of_printed:
  assumes "um_order_ok L"
  shows "json_wf w \<Longrightarrow> number_free w \<Longrightarrow> wvalue_of_rvalue L (printed L w) = Inr (reordered L w)"
proof (induction w)
  case (WList ws)
  have "wvalues_of_rvalues L (map (printed L) us) = Inr (map (reordered L) us)"
    if "set us \<subseteq> set ws" for us
    using that
  proof (induction us)
    case (Cons u us)
    then show ?case using WList by (auto simp: list_all_iff)
  qed simp
  then show ?case by simp
next
  case (WObject m)
  have step: "wmembers_of_rmembers L (map (\<lambda>(k, w). (k, printed L w)) es) acc =
      Inr (acc @ map (\<lambda>(k, w). (k, reordered L w)) es)"
    if "set es \<subseteq> set m" and "distinct (map fst (acc @ es))" for es acc
    using that
  proof (induction es arbitrary: acc)
    case (Cons e es)
    obtain k w where e: "e = (k, w)" by (cases e)
    have "wvalue_of_rvalue L (printed L w) = Inr (reordered L w)"
      using WObject Cons.prems(1) e by (fastforce simp: list_all_iff)
    moreover have "um_emplace (k, reordered L w) acc = acc @ [(k, reordered L w)]"
      using Cons.prems(2) e by (auto simp: um_emplace_def)
    ultimately show ?case
      using Cons.IH [of "acc @ [(k, reordered L w)]"] Cons.prems e by simp
  qed simp
  have "distinct (map fst (um_iter L m))"
    using WObject.prems(1) assms by (simp add: distinct_um_iter)
  with step [of "um_iter L m" "[]"] set_um_iter [of L m] show ?case
    by (simp add: um_iter_map)
qed (simp_all add: unescape_escape)

text \<open>Equality of values up to the order of object members.\<close>

inductive same_json :: "wvalue \<Rightarrow> wvalue \<Rightarrow> bool" where
  same_refl: "same_json w w"
| same_list: "list_all2 same_json us ws \<Longrightarrow> same_json (WList us) (WList ws)"
| same_object: "(\<And>k. rel_option same_json (map_of m k) (map_of m' k)) \<Longrightarrow>
    same_json (WObject m) (WObject m')"
monos list.rel_mono_strong option.rel_mono_strong

lemma same_json_reordered:
  assumes "um_order_ok L"
  shows "same_json w (reordered L w)"
proof (induction w)
  case (WList ws)
  then have "list_all2 same_json ws (map (reordered L) ws)"
    by (simp add: list_all2_map2 list.rel_refl_strong)
  then show ?case by (simp add: same_list)
next
  case (WObject m)
  have "rel_option same_json (map_of m k) (map_option (reordered L) (map_of m k))" for k
  proof (cases "map_of m k")
    case (Some w)
    then have "same_json w (reordered L w)"
      using WObject [of "(k, w)" w] by (auto dest: map_of_SomeD)
    then show ?thesis by (simp add: Some)
  qed simp
  moreover have "map_of (map (\<lambda>(k, w). (k, reordered L w)) (um_iter L m)) k =
      map_option (reordered L) (map_of m k)" for k
    using map_of_um_iter [OF assms, of m k]
    by (simp add: map_of_map [of "reordered L" "um_iter L m", unfolded comp_def])
  ultimately show ?case by (auto simp: um_iter_map intro!: same_object)
qed (simp_all add: same_refl)

lemma load_dump:
  assumes "number_free w"
  shows "load (dump_json L w) = Some (printed L w)"
proof -
  let ?t = "dump_internal L w"
  have r: "reads ?t (printed L w)" by (rule reads_dump [OF assms])
  then have "ws_skip ?t = ?t" using fresh_start_ws_skip [of ?t "[]"] by (simp add: reads_def)
  moreover have "decode_value (Suc (length ?t)) ?t = Some (printed L w, [])"
    using readsD [OF r, of "Suc (length ?t)" "[]"] by simp
  ultimately show ?thesis
    by (simp add: load_def parse_def dump_json_def peek_def ws_skip_def del: decode_value.simps)
qed

text \<open>C11: a JSON value without numbers that is printed with \<open>dump\<close> and loaded again is the same
  value up to the order of object members, whatever bytes its strings and keys hold and
  whatever order the hash map iterates in.\<close>

theorem load_dump_roundtrip:
  assumes "um_order_ok L" and "json_wf w" and "number_free w"
  shows "\<exists>w'. wvalue_of L (load (dump_json L w)) = Inr w' \<and> same_json w w'"
  using load_dump [OF assms(3)] wvalue_of_printed [OF assms] same_json_reordered [OF assms(1)]
  by (auto simp: wvalue_of_def)

theorem load_dump_roundtrip_witness:
  "\<exists>w'. wvalue_of \<lparr>lexcast_int64 = (\<lambda>_. None), lexcast_double = (\<lambda>_. None), um_order = rev\<rparr>
     (load (dump_json \<lparr>lexcast_int64 = (\<lambda>_. None), lexcast_double = (\<lambda>_. None), um_order = rev\<rparr>
        (WObject [(''a'', WList [WTrue, WString [DQUOTE]]), (''b'', WNull)]))) = Inr w' \<and>
     same_json (WObject [(''a'', WList [WTrue, WString [DQUOTE]]), (''b'', WNull)]) w'"
  by (rule load_dump_roundtrip) (simp_all add: um_order_ok_def)

text \<open>A printed value has no NUL byte, so it survives being passed as a C string.\<close>

lemma NUL_to_hex: "k < 16 \<Longrightarrow> to_hex k \<noteq> NUL"
  using hex_of_nibble [of k] by (auto simp: is_hex_def Let_def)

lemma NUL_escape_char: "NUL \<notin> set (escape_char c)"
proof (cases "of_char c < (32 :: nat)")
  case True
  then have "NUL \<noteq> to_hex (of_char c div 16)" "NUL \<noteq> to_hex (of_char c mod 16)"
    using NUL_to_hex [of "of_char c div 16"] NUL_to_hex [of "of_char c mod 16"]
    by (simp_all add: less_mult_imp_div_less not_sym)
  then show ?thesis using True by (simp add: escape_char_def)
next
  case False
  moreover from this have "c \<noteq> NUL" by auto
  ultimately show ?thesis by (auto simp: escape_char_def)
qed

lemma NUL_escape: "NUL \<notin> set (escape s)"
  using NUL_escape_char by (auto simp: escape_def)

lemma set_comma_join: "set (comma_join ts) \<subseteq> insert (CHR '','') (\<Union> (set ` set ts))"
  by (induction ts rule: comma_join.induct) auto

lemma dump_no_NUL: "number_free w \<Longrightarrow> NUL \<notin> set (dump_internal L w)"
proof (induction w)
  case (WList ws)
  then have "\<forall>t \<in> set (map (dump_internal L) ws). NUL \<notin> set t" by (auto simp: list_all_iff)
  then have "NUL \<notin> set (comma_join (map (dump_internal L) ws))"
    using set_comma_join [of "map (dump_internal L) ws"] by auto
  then show ?case by simp
next
  case (WObject m)
  let ?ts = "map (\<lambda>(k, t). dump_string k @ '':'' @ t)
    (map (\<lambda>(k, w). (k, dump_internal L w)) (um_iter L m))"
  have "NUL \<notin> set (dump_internal L w)" if "(k, w) \<in> set m" for k w
    using WObject that by (fastforce simp: list_all_iff)
  then have "\<forall>t \<in> set ?ts. NUL \<notin> set t"
    using set_um_iter [of L m] by (auto simp: dump_string_def NUL_escape)
  then have "NUL \<notin> set (comma_join ?ts)"
    using set_comma_join [of ?ts] by fastforce
  then show ?case by (simp add: um_iter_map)
qed (auto simp: dump_string_def NUL_escape)

text \<open>The parser's recursion always ends within its fuel: with any fuel above the length of
  the text it returns the same result as \<open>load\<close>, in particular it never fails for lack of it.\<close>

theorem load_fuel_enough:
  assumes "length s < k"
  shows "parse k s = load s"
  by (rule load_iff_parse [OF assms])

theorem load_fuel_enough_witness: "parse 100 ''[true, {}]'' = load ''[true, {}]''"
  by (rule load_fuel_enough) simp

text \<open>Escaping is inverted by unescaping for every byte string, and the escaped text in
  quotes is read by the scanner up to its closing quote, whatever follows.\<close>

theorem escape_roundtrip:
  "unescape (escape s) = s \<and> decode_string (dump_string s @ rest) = Some (escape s, rest)"
  by (simp add: unescape_escape decode_dump_string)

end
