(* ===== verification/Store.thy ===== *)
theory Store
  imports Rocks Crow_Json_Laws
begin

text \<open>
  The key-value core of the server, \<^verbatim>\<open>class Core\<close> of \<^verbatim>\<open>src/quarks.cpp\<close>: the globals it works
  on (database handle and status, the optional cache, the roles of the node) as a record, and
  the operations on single keys and on batches of them. An operation returns a result, or the
  exception that leaves it, together with the new state; what the code sends to the outside
  (messages of a writer node, requests to a logger) is collected in the state in order. Out
  parameters are part of the result.
\<close>

section \<open>State\<close>

datatype http_request = HttpPost string string | HttpGet string

record 'db core =
  db :: 'db
  dbOk :: bool
  cacheEnabled :: bool
  cacheMap :: "string smap"
  isWriter :: bool
  hasLogger :: bool
  loggerUrl :: string
  published :: "string list"
  httpLog :: "http_request list"

type_synonym ('db, 'a) op = "'db core \<Rightarrow> 'a res \<times> 'db core"

section \<open>Cache\<close>

text \<open>\<open>_GetCached\<close> reads with \<open>operator[]\<close>, which creates an absent entry.\<close>

definition GetCached :: "string \<Rightarrow> 'db core \<Rightarrow> (bool \<times> string) \<times> 'db core" where
  "GetCached key s =
     (case sm_find (cacheMap s) key of
        Some v \<Rightarrow> ((True, v), s)
      | None \<Rightarrow> ((True, []), s\<lparr>cacheMap := sm_set key [] (cacheMap s)\<rparr>))"

definition PutCached :: "string \<Rightarrow> string \<Rightarrow> 'db core \<Rightarrow> 'db core" where
  "PutCached key val s = s\<lparr>cacheMap := sm_set key val (cacheMap s)\<rparr>"

text \<open>\<open>openDB\<close>: the status of opening the database, and the cache filled from it.\<close>

definition openDB :: "'db rocks \<Rightarrow> 'db \<Rightarrow> bool \<Rightarrow> 'db core \<Rightarrow> 'db core" where
  "openDB R d ok s =
     (let s1 = s\<lparr>db := d, dbOk := ok\<rparr> in
      if cacheEnabled s1
      then fold (\<lambda>(k, v). PutCached k v) (snd (rocks_SeekToFirst R d)) s1
      else s1)"

section \<open>Requests to other nodes\<close>

definition action_message :: "lib \<Rightarrow> string \<Rightarrow> string \<Rightarrow> string \<Rightarrow> string" where
  "action_message L key val action =
     dump_json L (w_set (w_set (w_set WNull ''value'' (WString val)) ''key'' (WString key))
       ''action'' (WString action))"

definition log_body :: "string \<Rightarrow> string \<Rightarrow> string" where
  "log_body key val = ''{\"key\":\"'' @ key @ ''\", \"value\":'' @ val @ ''}''"

definition putRequest :: "lib \<Rightarrow> string \<Rightarrow> string \<Rightarrow> 'db core \<Rightarrow> 'db core" where
  "putRequest L key val s =
     (let s1 = (if cacheEnabled s then PutCached key val s else s);
          s2 = (if isWriter s1
                then s1\<lparr>published := published s1 @ [action_message L key val ''put'']\<rparr> else s1)
      in if hasLogger s2
         then s2\<lparr>httpLog := httpLog s2 @ [HttpPost (loggerUrl s2 @ ''/putjson'') (log_body key val)]\<rparr>
         else s2)"

definition removeRequest :: "lib \<Rightarrow> string \<Rightarrow> 'db core \<Rightarrow> 'db core" where
  "removeRequest L key s =
     (let s1 = (if isWriter s
                then s\<lparr>published := published s @ [action_message L key [] ''remove'']\<rparr> else s)
      in if hasLogger s1
         then s1\<lparr>httpLog := httpLog s1 @ [HttpGet (loggerUrl s1 @ ''/remove?key='' @ key)]\<rparr>
         else s1)"

section \<open>Reading\<close>

definition getKeyValuePair :: "'db rocks \<Rightarrow> string \<Rightarrow> 'db core \<Rightarrow> bool \<times> string \<times> string" where
  "getKeyValuePair R key s =
     (if dbOk s then
        (case rocks_Get R (db s) key of
           Some v \<Rightarrow> (True, v, ''{\"result\":true}'')
         | None \<Rightarrow> (False, [], ''{\"result\":false}''))
      else (False, [], ''{\"error\":\"db status error\"}''))"

definition exists_key :: "'db rocks \<Rightarrow> string \<Rightarrow> 'db core \<Rightarrow> bool \<times> string" where
  "exists_key R key s = (let (ret, v, out) = getKeyValuePair R key s in (ret, out))"

definition get :: "'db rocks \<Rightarrow> string \<Rightarrow> 'db core \<Rightarrow> (bool \<times> string) \<times> 'db core" where
  "get R key s =
     (if cacheEnabled s then GetCached key s
      else if dbOk s then
        (case rocks_Get R (db s) key of Some v \<Rightarrow> ((True, v), s) | None \<Rightarrow> ((False, []), s))
      else ((False, []), s))"

definition getJson :: "'db rocks \<Rightarrow> lib \<Rightarrow> string \<Rightarrow> ('db, wvalue option) op" where
  "getJson R L key s =
     (if cacheEnabled s then
        (let ((ret, v), s1) = GetCached key s
         in (res_bind (wvalue_of L (load v)) (\<lambda>w. Inr (Some w)), s1))
      else if dbOk s then
        (case rocks_Get R (db s) key of
           Some v \<Rightarrow> (res_bind (wvalue_of L (load v)) (\<lambda>w. Inr (Some w)), s)
         | None \<Rightarrow> (Inr None, s))
      else (Inr None, s))"

section \<open>Writing\<close>

text \<open>\<open>Core::dump\<close>: the value goes to the database as it is.\<close>

definition dump :: "'db rocks \<Rightarrow> lib \<Rightarrow> string \<Rightarrow> string \<Rightarrow> 'db core \<Rightarrow> (bool \<times> string) \<times> 'db core" where
  "dump R L key val s =
     (if dbOk s then
        (let (ok, d) = rocks_Put R (db s) key val; s1 = s\<lparr>db := d\<rparr> in
         if ok then ((True, ''{\"result\":true}''), putRequest L key val s1)
         else ((False, ''{\"result\":false}''), s1))
      else ((False, ''{\"result\":false}''), s))"

text \<open>The fields of an existing object, overwritten by those of the new one.\<close>

definition merge_fields :: "lib \<Rightarrow> wvalue \<Rightarrow> wvalue \<Rightarrow> wvalue" where
  "merge_fields L existing new =
     fold (\<lambda>p w. w_set w p (w_get new p)) (w_keys L new)
       (fold (\<lambda>e w. w_set w e (w_get existing e)) (w_keys L existing) WNull)"

definition write_value :: "lib \<Rightarrow> bool \<Rightarrow> string \<Rightarrow> rvalue \<Rightarrow> wvalue res" where
  "write_value L foundKey readValue val =
     res_bind (wvalue_of_rvalue L val) (\<lambda>new.
       if foundKey then
         res_bind (wvalue_of L (load readValue)) (\<lambda>existing.
           Inr (if w_keys L new \<noteq> [] then merge_fields L existing new else new))
       else Inr new)"

definition insertKeyValuePair ::
    "'db rocks \<Rightarrow> lib \<Rightarrow> bool \<Rightarrow> rvalue \<Rightarrow> ('db, bool \<times> string) op" where
  "insertKeyValuePair R L failIfExists x s =
     (case res_bind (r_get x ''key'') r_s of
        Inl e \<Rightarrow> (Inl e, s)
      | Inr key \<Rightarrow>
          (let (foundKey, readValue, out) = getKeyValuePair R key s in
           if failIfExists \<and> foundKey
           then (Inr (False, ''{\"result\":false,\"error\":\"key already exists\"}''), s)
           else case res_bind (r_get x ''value'') (write_value L foundKey readValue) of
             Inl e \<Rightarrow> (Inl e, s)
           | Inr w \<Rightarrow>
               (let writeValue = dump_json L w in
                if dbOk s then
                  (let (ok, d) = rocks_Put R (db s) key writeValue; s1 = s\<lparr>db := d\<rparr> in
                   if ok then (Inr (True, ''{\"result\":true}''), putRequest L key writeValue s1)
                   else (Inr (False, ''{\"result\":false,\"error\":\"data failed to save\"}''), s1))
                else (Inr (False, ''{\"result\":false,\"error\":\"db status error\"}''), s))))"

definition insert_body :: "'db rocks \<Rightarrow> lib \<Rightarrow> bool \<Rightarrow> string \<Rightarrow> ('db, bool \<times> string) op" where
  "insert_body R L failIfExists body s =
     (case load body of
        None \<Rightarrow> (Inr (False, ''{\"error\": \"Invalid put body\"}''), s)
      | Some x \<Rightarrow> insertKeyValuePair R L failIfExists x s)"

definition post :: "'db rocks \<Rightarrow> lib \<Rightarrow> string \<Rightarrow> ('db, bool \<times> string) op" where
  "post R L body s = insert_body R L True body s"

definition put :: "'db rocks \<Rightarrow> lib \<Rightarrow> string \<Rightarrow> ('db, bool \<times> string) op" where
  "put R L body s = insert_body R L False body s"

definition putPair :: "'db rocks \<Rightarrow> lib \<Rightarrow> rvalue \<Rightarrow> ('db, bool \<times> string) op" where
  "putPair R L pair s = insertKeyValuePair R L False pair s"

text \<open>The loop of \<open>putAtom\<close>: how many pairs were stored, or the exception that ended it.\<close>

fun putAtom_loop :: "'db rocks \<Rightarrow> lib \<Rightarrow> (string \<times> rvalue) list \<Rightarrow> int \<Rightarrow> ('db, int) op" where
  "putAtom_loop R L [] i s = (Inr i, s)"
| "putAtom_loop R L ((k, v) # kvs) i s =
     (case insertKeyValuePair R L False v s of
        (Inl e, s1) \<Rightarrow> (Inl e, s1)
      | (Inr (ret, out), s1) \<Rightarrow> putAtom_loop R L kvs (if ret then i + 1 else i) s1)"

definition putAtom :: "'db rocks \<Rightarrow> lib \<Rightarrow> rvalue \<Rightarrow> ('db, bool \<times> string) op" where
  "putAtom R L x s =
     (case (case r_members x of Inl e \<Rightarrow> (Inl e, s) | Inr kvs \<Rightarrow> putAtom_loop R L kvs 0 s) of
        (Inl e, s1) \<Rightarrow>
          (if e = RuntimeError
           then (Inr (False, ''{\"result\":false, \"error\":\"invalid putatom body\"}''), s1)
           else (Inl e, s1))
      | (Inr i, s1) \<Rightarrow> (Inr (True, ''{\"put\":'' @ to_string i @ '',\"result\":true}''), s1))"

definition putAtom_body :: "'db rocks \<Rightarrow> lib \<Rightarrow> string \<Rightarrow> ('db, bool \<times> string) op" where
  "putAtom_body R L body s =
     (case load body of
        None \<Rightarrow> (Inr (False, ''{\"result\":false, \"error\": \"invalid put body\"}''), s)
      | Some x \<Rightarrow> putAtom R L x s)"

section \<open>Removing\<close>

definition remove_key :: "'db rocks \<Rightarrow> lib \<Rightarrow> string \<Rightarrow> 'db core \<Rightarrow> (bool \<times> string) \<times> 'db core" where
  "remove_key R L key s =
     (if dbOk s then
        (case rocks_Get R (db s) key of
           Some v \<Rightarrow>
             (let (ok, d) = rocks_Delete R (db s) key; s1 = s\<lparr>db := d\<rparr> in
              if ok then ((True, ''{\"result\":1}''), removeRequest L key s1)
              else ((False, ''{\"result\":0}''), s1))
         | None \<Rightarrow> ((False, ''{\"result\":0}''), s))
      else ((False, ''{\"result\":-1}''), s))"

text \<open>\<open>removeIterating\<close> finds the key with an iterator instead of a point read.\<close>

definition removeIterating ::
    "'db rocks \<Rightarrow> lib \<Rightarrow> string \<Rightarrow> 'db core \<Rightarrow> (bool \<times> string) \<times> 'db core" where
  "removeIterating R L key s =
     (if dbOk s then
        (case snd (rocks_Seek R (db s) key) of
           (k, v) # _ \<Rightarrow>
             if key = k then
               (let (ok, d) = rocks_Delete R (db s) key; s1 = s\<lparr>db := d\<rparr> in
                if ok then ((True, ''{\"result\":1}''), removeRequest L key s1)
                else ((False, ''{\"result\":-1}''), s1))
             else ((True, ''{\"result\":0}''), s)
         | [] \<Rightarrow> ((True, ''{\"result\":0}''), s))
      else ((False, ''{\"result\":-1}''), s))"

fun removeAtom_loop :: "'db rocks \<Rightarrow> lib \<Rightarrow> (string \<times> rvalue) list \<Rightarrow> int \<Rightarrow> ('db, int) op" where
  "removeAtom_loop R L [] i s = (Inr i, s)"
| "removeAtom_loop R L ((k, v) # kvs) i s =
     (case r_s v of
        Inl e \<Rightarrow> (Inl e, s)
      | Inr key \<Rightarrow>
          (let ((ret, out), s1) = remove_key R L key s
           in removeAtom_loop R L kvs (if ret then i + 1 else i) s1))"

definition removeAtom :: "'db rocks \<Rightarrow> lib \<Rightarrow> rvalue \<Rightarrow> ('db, bool \<times> string) op" where
  "removeAtom R L x s =
     (case (case r_members x of Inl e \<Rightarrow> (Inl e, s) | Inr kvs \<Rightarrow> removeAtom_loop R L kvs 0 s) of
        (Inl e, s1) \<Rightarrow>
          (if e = RuntimeError
           then (Inr (False, ''{\"result\":false, \"error\":\"invalid removeatom body\"}''), s1)
           else (Inl e, s1))
      | (Inr i, s1) \<Rightarrow> (Inr (True, ''{\"removed\":'' @ to_string i @ '',\"result\":true}''), s1))"

definition removeAtom_body :: "'db rocks \<Rightarrow> lib \<Rightarrow> string \<Rightarrow> ('db, bool \<times> string) op" where
  "removeAtom_body R L body s =
     (case load body of
        None \<Rightarrow> (Inr (False, ''{\"result\":false, \"error\": \"invalid remove body\"}''), s)
      | Some x \<Rightarrow> removeAtom R L x s)"

section \<open>Counters\<close>

text \<open>\<^verbatim>\<open>std::stoi\<close>: white space, an optional sign, decimal digits; what follows is ignored.\<close>

definition is_space :: "char \<Rightarrow> bool" where
  "is_space c = (c \<in> {CHR '' '', CHR 0x09, CHR 0x0A, CHR 0x0B, CHR 0x0C, CHR 0x0D})"

definition digits_value :: "string \<Rightarrow> int" where
  "digits_value ds = foldl (\<lambda>n c. n * 10 + (of_char c - 48)) 0 ds"

definition stoi :: "string \<Rightarrow> int res" where
  "stoi str =
     (let t = dropWhile is_space str;
          (neg, u) = (case t of c # r \<Rightarrow> if c = CHR ''-'' then (True, r)
                                       else if c = CHR ''+'' then (False, r) else (False, t)
                              | [] \<Rightarrow> (False, t));
          ds = takeWhile is_digit09 u;
          n = (if neg then - digits_value ds else digits_value ds)
      in if ds = [] then Inl InvalidArgument
         else if INT_MIN \<le> n \<and> n \<le> INT_MAX then Inr n else Inl OutOfRange)"

definition increment ::
    "'db rocks \<Rightarrow> lib \<Rightarrow> string \<Rightarrow> int \<Rightarrow> 'db core \<Rightarrow> (bool \<times> string) \<times> 'db core" where
  "increment R L key stepBy s =
     (let ((ret, val), s1) = get R key s in
      if ret then
        (case stoi val of
           Inr v \<Rightarrow>
             (let ((ok, out), s2) = dump R L key (to_string (wrap32 (v + stepBy))) s1
              in ((ret, out), s2))
         | Inl InvalidArgument \<Rightarrow>
             ((ret, ''{\"result\":false, \"error:\"Value to increment is not an integer\"}''), s1)
         | Inl OutOfRange \<Rightarrow> ((ret, ''{\"result\":false, \"error\":\"Out of range\"}''), s1)
         | Inl _ \<Rightarrow> ((ret, ''{\"result\":false, \"error:\"Unknown\"}''), s1))
      else ((ret, ''{\"result\":false}''), s1))"

text \<open>
  The loop of \<open>incrementValue\<close> over the fields of the stored object: those the request names
  are added, the others are kept. The counter is the number of fields added to.
\<close>

fun increment_fields ::
    "lib \<Rightarrow> rvalue \<Rightarrow> rvalue \<Rightarrow> wvalue \<Rightarrow> string list \<Rightarrow> wvalue \<times> int \<Rightarrow> (wvalue \<times> int) res" where
  "increment_fields L xvalue read existing [] (w, affected) = Inr (w, affected)"
| "increment_fields L xvalue read existing (e # es) (w, affected) =
     res_bind (r_has xvalue e) (\<lambda>has.
       if has then
         res_bind (res_bind (r_get read e) (r_i L)) (\<lambda>i.
         res_bind (res_bind (r_get xvalue e) (r_i L)) (\<lambda>j.
           increment_fields L xvalue read existing es
             (w_set w e (WNumber (double_of_int (wrap32 (wrap32 i + j)))), affected + 1)))
       else increment_fields L xvalue read existing es
              (w_set w e (w_get existing e), affected))"

definition incrementValue :: "'db rocks \<Rightarrow> lib \<Rightarrow> string \<Rightarrow> ('db, bool \<times> string) op" where
  "incrementValue R L body s =
     (case load body of
        None \<Rightarrow> (Inr (False, ''{\"error\": \"Invalid put body\"}''), s)
      | Some x \<Rightarrow>
          (case res_bind (r_get x ''key'') r_s of
             Inl e \<Rightarrow> (Inl e, s)
           | Inr key \<Rightarrow>
               (let (foundKey, readValue, out) = getKeyValuePair R key s in
                if \<not> foundKey
                then (Inr (False, ''{\"result\":false,\"error\":\"key does not exist\"}''), s)
                else case r_get x ''value'' of
                  Inl e \<Rightarrow> (Inl e, s)
                | Inr xvalue \<Rightarrow>
                    (case (wvalue_of_rvalue L xvalue, wvalue_of L (load readValue), load readValue) of
                       (Inl e, _) \<Rightarrow> (Inl e, s)
                     | (Inr _, Inl e, _) \<Rightarrow> (Inl e, s)
                     | (Inr putValue, Inr existing, None) \<Rightarrow> (Inl RuntimeError, s)
                     | (Inr putValue, Inr existing, Some read) \<Rightarrow>
                         if w_keys L putValue = [] then (Inr (True, out), s)
                         else case increment_fields L xvalue read existing (w_keys L existing)
                                     (WNull, 0) of
                             Inl e \<Rightarrow> (Inl e, s)
                           | Inr (w, affected) \<Rightarrow>
                               (let ((ret, out'), s1) = dump R L key (dump_json L w) s in
                                (Inr (True, if ret then ''{\"result\":'' @ to_string affected @ ''}''
                                            else out'), s1))))))"

section \<open>Generated pairs\<close>

definition r_member_or :: "rvalue \<Rightarrow> string \<Rightarrow> (rvalue \<Rightarrow> 'a res) \<Rightarrow> 'a \<Rightarrow> 'a res" where
  "r_member_or x k f dflt =
     res_bind (r_has x k) (\<lambda>has. if has then res_bind (r_get x k) f else Inr dflt)"

text \<open>\<open>makePair\<close>: \<open>uuid\<close> is the text of the random identifier drawn when no key is given.\<close>

definition make_parts :: "string \<Rightarrow> rvalue \<Rightarrow> (string \<times> string \<times> bool) res" where
  "make_parts uuid x =
     res_bind (r_member_or x ''key'' r_s uuid) (\<lambda>tmpkey.
     res_bind (r_member_or x ''prefix'' r_s []) (\<lambda>prefix.
     res_bind (r_member_or x ''value'' r_s []) (\<lambda>writeValue.
     res_bind (r_member_or x ''save'' r_b False) (\<lambda>save.
       Inr (prefix @ tmpkey, writeValue, save)))))"

definition makePair ::
    "'db rocks \<Rightarrow> lib \<Rightarrow> string \<Rightarrow> string \<Rightarrow> wvalue \<Rightarrow> ('db, bool \<times> wvalue) op" where
  "makePair R L uuid body out s =
     (case load body of
        None \<Rightarrow> (Inr (False, WString ''{\"error\": \"Invalid make body\"}''), s)
      | Some x \<Rightarrow>
          (case make_parts uuid x of
             Inl e \<Rightarrow> (Inl e, s)
           | Inr (key, writeValue, save) \<Rightarrow>
               (let out1 = w_set (w_set out ''value'' (WString writeValue)) ''key'' (WString key) in
                if \<not> save then (Inr (True, out1), s)
                else if dbOk s then
                  (let (ok, d) = rocks_Put R (db s) key writeValue; s1 = s\<lparr>db := d\<rparr> in
                   if ok then (Inr (True, out1), putRequest L key writeValue s1)
                   else (Inr (False, w_set out1 ''error'' (WString ''data failed to save'')), s1))
                else (Inr (False, w_set out1 ''error'' (WString ''db status error'')), s))))"

section \<open>Replication\<close>

text \<open>
  \<open>qcSave\<close>: what a node does with a message another node published. The message arrives as
  a NUL-terminated buffer. The cache of the receiving node is not touched.
\<close>

definition qcSave :: "'db rocks \<Rightarrow> string \<Rightarrow> ('db, unit) op" where
  "qcSave R data s =
     (case load (c_str data) of
        None \<Rightarrow> (Inr (), s)
      | Some x \<Rightarrow>
          (case res_bind (res_bind (r_get x ''key'') r_s) (\<lambda>key.
                res_bind (res_bind (r_get x ''value'') r_s) (\<lambda>val.
                res_bind (res_bind (r_get x ''action'') r_s) (\<lambda>action.
                  Inr (key, val, action)))) of
             Inl e \<Rightarrow> (Inl e, s)
           | Inr (key, val, action) \<Rightarrow>
               if dbOk s then
                 (if action = ''put'' then (Inr (), s\<lparr>db := snd (rocks_Put R (db s) key val)\<rparr>)
                  else if action = ''remove'' then (Inr (), s\<lparr>db := snd (rocks_Delete R (db s) key)\<rparr>)
                  else (Inr (), s))
               else (Inr (), s)))"

text \<open>Messages delivered in order; an exception ends the receiving loop.\<close>

fun qcSave_all :: "'db rocks \<Rightarrow> string list \<Rightarrow> ('db, unit) op" where
  "qcSave_all R [] s = (Inr (), s)"
| "qcSave_all R (m # ms) s =
     (case qcSave R m s of (Inl e, s1) \<Rightarrow> (Inl e, s1) | (Inr _, s1) \<Rightarrow> qcSave_all R ms s1)"

section \<open>A concrete node\<close>

text \<open>A library and a node over the in-memory database, for concrete runs.\<close>

definition mem_lib :: lib where
  "mem_lib = \<lparr>lexcast_int64 = (\<lambda>t. case stoi t of Inr i \<Rightarrow> Some i | Inl _ \<Rightarrow> None),
     lexcast_double = (\<lambda>t. case stoi t of Inr i \<Rightarrow> Some (double_of_int i) | Inl _ \<Rightarrow> None),
     um_order = (\<lambda>ks. ks)\<rparr>"

definition mem_node :: "(string \<times> string) list \<Rightarrow> memdb core" where
  "mem_node kvs = \<lparr>db = mem_of kvs, dbOk = True, cacheEnabled = False, cacheMap = [],
     isWriter = False, hasLogger = False, loggerUrl = [], published = [], httpLog = []\<rparr>"

lemma mem_lib_order: "um_order_ok mem_lib"
  by (simp add: um_order_ok_def mem_lib_def)

end
