(* ===== verification/Store_Laws.thy ===== *)
theory Store_Laws
  imports Store
begin

text \<open>
  Correctness of the key-value core. The abstract view of a node is the finite map a point
  read of its database gives, and an abstract history is a list of writes on such a map. Every
  operation of \<open>Store\<close> is shown to refine a list of writes (relation \<open>logged\<close>): it changes
  the map by these writes, a writer node publishes exactly these writes as messages, a node
  with a logger sends exactly these writes to it, and a cache that held every entry of the
  database still does. From that one relation follow replication (a reader that applies the
  messages reaches the writer's contents) and the coherence of cached reads.
\<close>

section \<open>Writes and histories\<close>

datatype dbwrite = Stored string string | Removed string

fun apply_write :: "dbwrite \<Rightarrow> (string \<rightharpoonup> string) \<Rightarrow> (string \<rightharpoonup> string)" where
  "apply_write (Stored k v) m = m(k \<mapsto> v)"
| "apply_write (Removed k) m = m(k := None)"

definition apply_writes :: "dbwrite list \<Rightarrow> (string \<rightharpoonup> string) \<Rightarrow> (string \<rightharpoonup> string)" where
  "apply_writes ws m = fold apply_write ws m"

lemma apply_writes_simps [simp]:
  "apply_writes [] m = m"
  "apply_writes (w # ws) m = apply_writes ws (apply_write w m)"
  "apply_writes (us @ ws) m = apply_writes ws (apply_writes us m)"
  by (simp_all add: apply_writes_def)

lemma apply_writes_Removed: "apply_writes (map Removed ks) m = remove_keys ks m"
  by (induction ks arbitrary: m) (auto simp: remove_keys_def fun_eq_iff)

fun write_message :: "lib \<Rightarrow> dbwrite \<Rightarrow> string" where
  "write_message L (Stored k v) = action_message L k v ''put''"
| "write_message L (Removed k) = action_message L k [] ''remove''"

fun write_request :: "string \<Rightarrow> dbwrite \<Rightarrow> http_request" where
  "write_request url (Stored k v) = HttpPost (url @ ''/putjson'') (log_body k v)"
| "write_request url (Removed k) = HttpGet (url @ ''/remove?key='' @ k)"

abbreviation contents :: "'db rocks \<Rightarrow> 'db core \<Rightarrow> (string \<rightharpoonup> string)" where
  "contents R s \<equiv> rocks_Get R (db s)"

text \<open>Every entry of the database is in the cache with its value.\<close>

definition coherent :: "'db rocks \<Rightarrow> 'db core \<Rightarrow> bool" where
  "coherent R s \<longleftrightarrow> contents R s \<subseteq>\<^sub>m sm_find (cacheMap s)"

definition same_role :: "'db core \<Rightarrow> 'db core \<Rightarrow> bool" where
  "same_role s s' \<longleftrightarrow> dbOk s' = dbOk s \<and> cacheEnabled s' = cacheEnabled s \<and>
     isWriter s' = isWriter s \<and> hasLogger s' = hasLogger s \<and> loggerUrl s' = loggerUrl s"

definition logged :: "'db rocks \<Rightarrow> lib \<Rightarrow> dbwrite list \<Rightarrow> 'db core \<Rightarrow> 'db core \<Rightarrow> bool" where
  "logged R L ws s s' \<longleftrightarrow>
     contents R s' = apply_writes ws (contents R s) \<and> same_role s s' \<and>
     published s' = published s @ (if isWriter s then map (write_message L) ws else []) \<and>
     httpLog s' = httpLog s @ (if hasLogger s then map (write_request (loggerUrl s)) ws else []) \<and>
     (cacheEnabled s \<longrightarrow> coherent R s \<longrightarrow> coherent R s')"

lemma logged_refl [simp, intro]: "logged R L [] s s"
  by (simp add: logged_def same_role_def)

lemma logged_trans: "logged R L us s s1 \<Longrightarrow> logged R L ws s1 s2 \<Longrightarrow> logged R L (us @ ws) s s2"
  by (auto simp: logged_def same_role_def)

definition refines :: "'db rocks \<Rightarrow> lib \<Rightarrow> 'db core \<Rightarrow> 'db core \<Rightarrow> bool" where
  "refines R L s s' \<longleftrightarrow> (\<exists>ws. logged R L ws s s')"

lemma refines_refl [simp]: "refines R L s s"
  unfolding refines_def by blast

lemma refines_trans: "refines R L s s1 \<Longrightarrow> refines R L s1 s2 \<Longrightarrow> refines R L s s2"
  unfolding refines_def by (blast intro: logged_trans)

lemma loggedI: "logged R L ws s s' \<Longrightarrow> refines R L s s'"
  unfolding refines_def by blast

lemma logged_GetCached: "logged R L [] s (snd (GetCached key s))"
  by (auto simp: GetCached_def logged_def same_role_def coherent_def sm_find_set map_le_def dom_def
      split: option.splits)

lemma logged_get: "logged R L [] s (snd (get R key s))"
  using logged_GetCached [of R L s key] by (simp add: get_def split: option.split)

lemma putRequest_fields [simp]:
  "db (putRequest L k v s) = db s" "dbOk (putRequest L k v s) = dbOk s"
  "cacheEnabled (putRequest L k v s) = cacheEnabled s"
  "isWriter (putRequest L k v s) = isWriter s" "hasLogger (putRequest L k v s) = hasLogger s"
  "loggerUrl (putRequest L k v s) = loggerUrl s"
  "cacheMap (putRequest L k v s) = (if cacheEnabled s then sm_set k v (cacheMap s) else cacheMap s)"
  "published (putRequest L k v s) =
     published s @ (if isWriter s then [write_message L (Stored k v)] else [])"
  "httpLog (putRequest L k v s) =
     httpLog s @ (if hasLogger s then [write_request (loggerUrl s) (Stored k v)] else [])"
  by (simp_all add: putRequest_def PutCached_def Let_def)

lemma removeRequest_fields [simp]:
  "db (removeRequest L k s) = db s" "dbOk (removeRequest L k s) = dbOk s"
  "cacheEnabled (removeRequest L k s) = cacheEnabled s"
  "isWriter (removeRequest L k s) = isWriter s" "hasLogger (removeRequest L k s) = hasLogger s"
  "loggerUrl (removeRequest L k s) = loggerUrl s"
  "cacheMap (removeRequest L k s) = cacheMap s"
  "published (removeRequest L k s) =
     published s @ (if isWriter s then [write_message L (Removed k)] else [])"
  "httpLog (removeRequest L k s) =
     httpLog s @ (if hasLogger s then [write_request (loggerUrl s) (Removed k)] else [])"
  by (simp_all add: removeRequest_def Let_def)

section \<open>The messages of a writer\<close>

lemma action_message_object:
  "action_message L k v a = dump_json L (WObject [(''value'', WString v), (''key'', WString k),
     (''action'', WString a)])"
  by (simp add: action_message_def w_set_def w_members_def)

lemma c_str_action_message: "c_str (action_message L k v a) = action_message L k v a"
  unfolding action_message_object dump_json_def by (rule c_str_id, rule dump_no_NUL) simp

text \<open>Whatever bytes key and value hold, the receiver reads back what was sent.\<close>

lemma load_action_message:
  assumes "um_order_ok L"
  shows "\<exists>x. load (action_message L k v a) = Some x \<and> res_bind (r_get x ''key'') r_s = Inr k \<and>
    res_bind (r_get x ''value'') r_s = Inr v \<and> res_bind (r_get x ''action'') r_s = Inr a"
  using load_dump [of "WObject [(''value'', WString v), (''key'', WString k),
     (''action'', WString a)]" L]
  by (simp add: action_message_object map_of_um_iter [OF assms] unescape_escape)

section \<open>Every operation refines a list of writes\<close>

context rocksdb
begin

lemma logged_same: "rocks_Get R d = contents R s \<Longrightarrow> logged R L [] s (s\<lparr>db := d\<rparr>)"
  by (simp add: logged_def same_role_def coherent_def)

lemma logged_stored:
  "rocks_Get R d = (contents R s)(k \<mapsto> v) \<Longrightarrow>
   logged R L [Stored k v] s (putRequest L k v (s\<lparr>db := d\<rparr>))"
  by (auto simp: logged_def same_role_def coherent_def sm_find_set map_le_def)

lemma logged_removed:
  "rocks_Get R d = (contents R s)(k := None) \<Longrightarrow>
   logged R L [Removed k] s (removeRequest L k (s\<lparr>db := d\<rparr>))"
  by (auto simp: logged_def same_role_def coherent_def map_le_def)

lemma logged_dump:
  "logged R L (if fst (fst (dump R L k v s)) then [Stored k v] else []) s (snd (dump R L k v s))"
  by (cases "rocks_Put R (db s) k v")
    (auto simp: dump_def Let_def intro!: logged_same logged_stored dest: put_ok put_fail)

lemma logged_remove:
  "logged R L (if fst (fst (remove_key R L k s)) then [Removed k] else []) s
     (snd (remove_key R L k s))"
  by (cases "rocks_Delete R (db s) k")
    (auto simp: remove_key_def Let_def split: option.split
      intro!: logged_same logged_removed dest: delete_ok delete_fail)

lemma qcSave_message:
  assumes "um_order_ok L" and "rocks_reliable R" and "dbOk s"
  shows "\<exists>d. qcSave R (write_message L w) s = (Inr (), s\<lparr>db := d\<rparr>) \<and>
    rocks_Get R d = apply_write w (contents R s)"
proof (cases w)
  case (Stored k v)
  obtain d where d: "rocks_Put R (db s) k v = (True, d)"
    using assms(2) unfolding rocks_reliable_def by (metis prod.collapse)
  show ?thesis using load_action_message [OF assms(1), of k v "''put''"] put_ok [OF d] d assms(3)
    by (auto simp: Stored qcSave_def c_str_action_message)
next
  case (Removed k)
  obtain d where d: "rocks_Delete R (db s) k = (True, d)"
    using assms(2) unfolding rocks_reliable_def by (metis prod.collapse)
  show ?thesis
    using load_action_message [OF assms(1), of k "[]" "''remove''"] delete_ok [OF d] d assms(3)
    by (auto simp: Removed qcSave_def c_str_action_message)
qed

lemma qcSave_all_messages:
  assumes "um_order_ok L" and "rocks_reliable R" and "dbOk s"
  shows "\<exists>d. qcSave_all R (map (write_message L) ws) s = (Inr (), s\<lparr>db := d\<rparr>) \<and>
    rocks_Get R d = apply_writes ws (contents R s)"
  using assms(3)
proof (induction ws arbitrary: s)
  case Nil
  show ?case by (auto intro: exI [of _ "db s"])
next
  case (Cons w ws)
  obtain d where d: "qcSave R (write_message L w) s = (Inr (), s\<lparr>db := d\<rparr>)"
    "rocks_Get R d = apply_write w (contents R s)"
    using qcSave_message [OF assms(1,2) Cons.prems, of w] by blast
  show ?case using Cons.IH [of "s\<lparr>db := d\<rparr>"] Cons.prems d by auto
qed

text \<open>A reader that starts from the writer's contents and applies its messages follows it.\<close>

lemma refines_replicate:
  assumes "um_order_ok L" and "rocks_reliable R" and "refines R L s s'" and "isWriter s"
    and "dbOk r" and "contents R r = contents R s"
  shows "\<exists>msgs d. published s' = published s @ msgs \<and>
    qcSave_all R msgs r = (Inr (), r\<lparr>db := d\<rparr>) \<and> rocks_Get R d = contents R s'"
proof -
  obtain ws where "logged R L ws s s'" using assms(3) by (auto simp: refines_def)
  then show ?thesis using qcSave_all_messages [OF assms(1,2,5), of ws] assms(4,6)
    by (auto simp: logged_def)
qed

text \<open>An iterator positioned at a key stands on it exactly when a point read finds it.\<close>

lemma seek_exact:
  "(\<exists>v rest. snd (rocks_Seek R d k) = (k, v) # rest) \<longleftrightarrow> rocks_Get R d k \<noteq> None"
proof -
  have "sorted_wrt (<) (map fst es) \<Longrightarrow>
      (\<exists>v rest. dropWhile (\<lambda>e. fst e < k) es = (k, v) # rest) \<longleftrightarrow> map_of es k \<noteq> None"
    for es :: "(string \<times> string) list"
    by (induction es) (auto, (force dest: map_of_SomeD)+)
  then show ?thesis
    using entries_ascending [of d] lookup_entries [of d] by (simp add: seek)
qed

lemma removeIterating_remove:
  assumes "contents R s k \<noteq> None"
  shows "snd (removeIterating R L k s) = snd (remove_key R L k s) \<and>
    fst (fst (removeIterating R L k s)) = fst (fst (remove_key R L k s))"
proof -
  obtain v rest where "snd (rocks_Seek R (db s) k) = (k, v) # rest"
    using seek_exact [of "db s" k] assms by blast
  then show ?thesis using assms
    by (auto simp: removeIterating_def remove_key_def Let_def split: prod.split)
qed

lemma removeIterating_absent:
  assumes "contents R s k = None" and "dbOk s"
  shows "removeIterating R L k s = ((True, ''{\"result\":0}''), s)"
proof -
  have "\<nexists>v rest. snd (rocks_Seek R (db s) k) = (k, v) # rest"
    using seek_exact [of "db s" k] assms by simp
  then show ?thesis using assms
    by (auto simp: removeIterating_def split: list.split)
qed

lemma refines_stored: "rocks_Put R (db s) k v = (True, d) \<Longrightarrow> refines R L s (putRequest L k v (s\<lparr>db := d\<rparr>))"
  by (rule loggedI, rule logged_stored, rule put_ok)

lemma refines_failed: "rocks_Put R (db s) k v = (False, d) \<Longrightarrow> refines R L s (s\<lparr>db := d\<rparr>)"
  by (rule loggedI, rule logged_same, rule put_fail)

lemmas refines_dump = loggedI [OF logged_dump]
lemmas refines_remove = loggedI [OF logged_remove]
lemmas refines_rules = refines_stored refines_failed refines_refl

lemma refines_insert: "refines R L s (snd (insertKeyValuePair R L fe x s))"
  by (auto simp: insertKeyValuePair_def Let_def split: sum.split prod.split intro: refines_rules)

lemma refines_putAtom_loop: "refines R L s (snd (putAtom_loop R L kvs i s))"
proof (induction kvs arbitrary: i s)
  case (Cons kv kvs)
  obtain k v where kv: "kv = (k, v)" by (cases kv)
  obtain r s1 where ins: "insertKeyValuePair R L False v s = (r, s1)" by fastforce
  have s1: "refines R L s s1" using refines_insert [of L s False v] by (simp add: ins)
  have "refines R L s (snd (putAtom_loop R L kvs j s1))" for j
    using refines_trans [OF s1 Cons.IH] .
  then show ?case using s1 ins by (auto simp: kv split: sum.split)
qed simp

lemma refines_putAtom: "refines R L s (snd (putAtom R L x s))"
proof (cases "r_members x")
  case (Inr kvs)
  then show ?thesis using refines_putAtom_loop [of L s kvs 0]
    by (auto simp: putAtom_def split: sum.split prod.split)
qed (simp add: putAtom_def)

lemma refines_removeAtom_loop: "refines R L s (snd (removeAtom_loop R L kvs i s))"
proof (induction kvs arbitrary: i s)
  case (Cons kv kvs)
  obtain k v where kv: "kv = (k, v)" by (cases kv)
  have "refines R L s (snd (removeAtom_loop R L kvs j s1))"
    if "remove_key R L key s = (r, s1)" for key r s1 j
    using refines_trans [OF refines_remove [of L s key]] Cons.IH that by simp
  then show ?case by (auto simp: kv split: sum.split prod.split)
qed simp

lemma refines_removeAtom: "refines R L s (snd (removeAtom R L x s))"
proof (cases "r_members x")
  case (Inr kvs)
  then show ?thesis using refines_removeAtom_loop [of L s kvs 0]
    by (auto simp: removeAtom_def split: sum.split prod.split)
qed (simp add: removeAtom_def)

lemma refines_increment: "refines R L s (snd (increment R L key n s))"
proof -
  obtain ret val s1 where g: "get R key s = ((ret, val), s1)" by (metis prod.exhaust)
  then have s1: "refines R L s s1" using loggedI [OF logged_get [of R L s key]] by simp
  moreover have "refines R L s s2" if "dump R L key v s1 = (r, s2)" for v r s2
    using refines_trans [OF s1 refines_dump [of L s1 key v]] that by simp
  ultimately show ?thesis using g
    by (auto simp: increment_def split: sum.splits exc.splits prod.splits)
qed

lemma refines_incrementValue: "refines R L s (snd (incrementValue R L body s))"
proof -
  have dump: "refines R L s s'" if "dump R L k v s = (r, s')" for k v r s'
    using refines_dump [of L s k v] that by simp
  show ?thesis
    unfolding incrementValue_def Let_def
    by (auto split: option.split sum.split prod.split intro: dump)
qed

lemma refines_makePair: "refines R L s (snd (makePair R L uuid body out s))"
  by (auto simp: makePair_def Let_def split: option.split sum.split prod.split intro: refines_rules)

end

end
