(* ===== verification/Scan.thy ===== *)
theory Scan
  imports Wildcmp Store_Laws
begin

text \<open>
  The listing operations of \<^verbatim>\<open>src/quarks.cpp\<close>: queries by wildcard, forwards and backwards,
  counting, listing everything, removing by wildcard, reading lists of keys. Each of them
  inlines the same loop over an iterator with a skip/limit window; the loop is \<open>scan_loop\<close>,
  an instance of the locale \<open>windowed_scan\<close>, and each operation supplies the iterator's run,
  the loop condition, the match test and what it does with a selected entry. Results are
  appended to the vector the caller passes.
\<close>

section \<open>The loop\<close>

fun scan_loop ::
    "('e \<Rightarrow> bool) \<Rightarrow> ('e \<Rightarrow> bool) \<Rightarrow> ('e \<Rightarrow> 'a \<Rightarrow> 'a res) \<Rightarrow> int \<Rightarrow> int \<Rightarrow>
     'e list \<Rightarrow> int \<Rightarrow> 'a \<Rightarrow> (int \<times> 'a) res" where
  "scan_loop cont hit emit skip limit [] i a = Inr (i, a)"
| "scan_loop cont hit emit skip limit (e # es) i a =
     (if \<not> cont e then Inr (i, a)
      else if hit e then
        (case (if selected skip limit (i + 1) then emit e a else Inr a) of
           Inl x \<Rightarrow> Inl x
         | Inr a' \<Rightarrow> if finished skip limit (i + 1) then Inr (i + 1, a')
                    else scan_loop cont hit emit skip limit es (i + 1) a')
      else scan_loop cont hit emit skip limit es i a)"

definition scan_from ::
    "('e \<Rightarrow> bool) \<Rightarrow> ('e \<Rightarrow> bool) \<Rightarrow> ('e \<Rightarrow> 'a \<Rightarrow> 'a res) \<Rightarrow> int \<Rightarrow> int \<Rightarrow>
     'e list \<Rightarrow> int \<Rightarrow> 'a \<Rightarrow> 'a res" where
  "scan_from cont hit emit skip limit es i a =
     res_bind (scan_loop cont hit emit skip limit es i a) (\<lambda>(j, b). Inr b)"

interpretation scan: windowed_scan "scan_from cont hit emit skip limit" cont hit emit skip limit
  for cont :: "'e \<Rightarrow> bool" and hit :: "'e \<Rightarrow> bool" and emit :: "'e \<Rightarrow> 'a \<Rightarrow> 'a res" and skip limit
  by unfold_locales (auto simp: scan_from_def split: sum.split)

text \<open>The loop condition and the match test of a wildcard query.\<close>

abbreviation in_prefix :: "string \<Rightarrow> string \<times> string \<Rightarrow> bool" where
  "in_prefix p e \<equiv> starts_with (fst e) p"

abbreviation key_hit :: "string \<Rightarrow> string \<times> string \<Rightarrow> bool" where
  "key_hit wild e \<equiv> wildcmp wild (fst e)"

section \<open>What is done with a selected entry\<close>

text \<open>A value that is not JSON is wrapped as \<open>["value"]\<close>, which may not be JSON either.\<close>

definition value_json :: "lib \<Rightarrow> string \<Rightarrow> wvalue res" where
  "value_json L v =
     (case load v of
        None \<Rightarrow> wvalue_of L (load (''[\"'' @ v @ ''\"]''))
      | Some x \<Rightarrow> wvalue_of_rvalue L x)"

definition error_entry :: "string \<Rightarrow> wvalue" where
  "error_entry v = w_set WNull ''error'' (WString v)"

type_synonym results = "bool \<times> wvalue list"

definition push_value :: "lib \<Rightarrow> string \<times> string \<Rightarrow> results \<Rightarrow> results res" where
  "push_value L e acc =
     (case value_json L (snd e) of
        Inr w \<Rightarrow> Inr (fst acc, snd acc @ [w])
      | Inl x \<Rightarrow> if x = RuntimeError then Inr (False, snd acc @ [error_entry (snd e)]) else Inl x)"

definition key_value :: "string \<Rightarrow> wvalue \<Rightarrow> wvalue" where
  "key_value k w = w_set (w_set WNull ''value'' w) ''key'' (WString k)"

text \<open>
  In the pair form the entry is pushed after the handler too: the error entry was moved out
  of \<open>w\<close>, which then has the key alone.
\<close>

definition push_pair :: "lib \<Rightarrow> string \<times> string \<Rightarrow> results \<Rightarrow> results res" where
  "push_pair L e acc =
     (case value_json L (snd e) of
        Inr w \<Rightarrow> Inr (fst acc, snd acc @ [key_value (fst e) w])
      | Inl x \<Rightarrow> if x = RuntimeError
          then Inr (False, snd acc @ [error_entry (snd e), w_set WNull ''key'' (WString (fst e))])
          else Inl x)"

definition text_item :: "string \<times> string \<Rightarrow> string" where
  "text_item e = ''{\"key\":\"'' @ fst e @ ''\",\"value\":'' @ snd e @ ''},''"

definition push_text :: "string \<times> string \<Rightarrow> int \<times> string \<Rightarrow> (int \<times> string) res" where
  "push_text e acc = Inr (fst acc + 1, snd acc @ text_item e)"

definition close_text :: "int \<times> string \<Rightarrow> string" where
  "close_text acc = (if fst acc > 0 then butlast (snd acc) @ '']'' @ ''}'' else ''{\"result\":[]}'')"

section \<open>Keys of the cache\<close>

text \<open>\<open>firstAfterPrefix\<close>: the last byte incremented; on an empty prefix the access is out of
  range.\<close>

definition first_after :: "string \<Rightarrow> string res" where
  "first_after p = (if p = [] then Inl Undefined
     else Inr (butlast p @ [char_of ((of_char (last p) + 1) mod 256 :: nat)]))"

fun sm_prev :: "'v position \<Rightarrow> 'v position res" where
  "sm_prev ([], after) = Inl Undefined"
| "sm_prev (b # before, after) = Inr (before, b # after)"

text \<open>
  The loop over the entries from \<open>itBegin\<close> in the direction of travel; \<open>n\<close> is the distance
  to \<open>itEnd\<close>. Travelling forwards it ends at \<open>end()\<close>; travelling backwards it would decrement
  \<open>begin()\<close>.
\<close>

fun cached_loop ::
    "bool \<Rightarrow> (string \<times> string \<Rightarrow> bool) \<Rightarrow> (string \<times> string \<Rightarrow> 'a \<Rightarrow> 'a res) \<Rightarrow> int \<Rightarrow> int \<Rightarrow>
     (string \<times> string) list \<Rightarrow> int \<Rightarrow> int \<Rightarrow> 'a \<Rightarrow> 'a res" where
  "cached_loop rvs hit emit skip limit [] n i a = (if rvs then Inl Undefined else Inr a)"
| "cached_loop rvs hit emit skip limit (e # es) n i a =
     (if hit e then
        (case (if selected skip limit (i + 1) then emit e a else Inr a) of
           Inl x \<Rightarrow> Inl x
         | Inr a' \<Rightarrow> if finished skip limit (i + 1) \<or> n = 0 then Inr a'
                    else cached_loop rvs hit emit skip limit es (n - 1) (i + 1) a')
      else cached_loop rvs hit emit skip limit es (n - 1) i a)"

definition cached_scan ::
    "bool \<Rightarrow> string \<Rightarrow> (string \<times> string \<Rightarrow> 'a \<Rightarrow> 'a res) \<Rightarrow> int \<Rightarrow> int \<Rightarrow> string smap \<Rightarrow> 'a \<Rightarrow> 'a res" where
  "cached_scan rvs wild emit skip limit m a =
     (if star_first wild then Inr a
      else res_bind (first_after (before_star wild)) (\<lambda>firstAfterPrefix.
        let prefixedBeginIt = sm_lower_bound m (before_star wild);
            prefixedEndIt = sm_lower_bound m firstAfterPrefix
        in res_bind (sm_prev prefixedEndIt) (\<lambda>prev.
          let entries = (if rvs then it_backwards prev else snd prefixedBeginIt);
              n = int (length (fst prev)) - int (length (fst prefixedBeginIt))
          in if entries = [] then Inr a
             else if \<not> key_hit wild (hd entries) then Inr a
             else cached_loop rvs (key_hit wild) emit skip limit entries n (-1) a)))"

text \<open>\<open>_GetCachedKeys\<close>, filling a vector of pairs, and the form that builds the reply text.\<close>

definition push_cached ::
    "lib \<Rightarrow> bool \<Rightarrow> string \<times> string \<Rightarrow> int \<times> wvalue list \<Rightarrow> (int \<times> wvalue list) res" where
  "push_cached L countOnly e acc =
     (if countOnly then Inr (fst acc + 1, snd acc)
      else res_bind (push_pair L e (True, snd acc)) (\<lambda>r. Inr (fst acc + 1, snd r)))"

definition GetCachedKeys ::
    "lib \<Rightarrow> bool \<Rightarrow> bool \<Rightarrow> string \<Rightarrow> wvalue list \<Rightarrow> int \<Rightarrow> int \<Rightarrow> 'db core \<Rightarrow> (int \<times> wvalue list) res" where
  "GetCachedKeys L countOnly rvs wild rs skip limit s =
     cached_scan rvs wild (push_cached L countOnly) skip limit (cacheMap s) (0, rs)"

definition push_cached_text ::
    "bool \<Rightarrow> string \<times> string \<Rightarrow> int \<times> string \<Rightarrow> (int \<times> string) res" where
  "push_cached_text countOnly e acc =
     (if countOnly then Inr (fst acc + 1, snd acc) else push_text e acc)"

definition GetCachedKeys_text ::
    "bool \<Rightarrow> bool \<Rightarrow> string \<Rightarrow> string \<Rightarrow> int \<Rightarrow> int \<Rightarrow> 'db core \<Rightarrow> (int \<times> string) res" where
  "GetCachedKeys_text countOnly rvs wild out skip limit s =
     (if star_first wild then Inr (0, out)
      else res_bind (cached_scan rvs wild (push_cached_text countOnly) skip limit (cacheMap s)
             (0, ''{\"result\":['')) (\<lambda>acc. Inr (fst acc, close_text acc)))"

section \<open>Queries by wildcard\<close>

text \<open>The entries an iterator visits from the text before the first star on.\<close>

abbreviation seek_entries :: "'db rocks \<Rightarrow> 'db core \<Rightarrow> string \<Rightarrow> (string \<times> string) list" where
  "seek_entries R s wild \<equiv> snd (rocks_Seek R (db s) (before_star wild))"

definition getAll ::
    "'db rocks \<Rightarrow> lib \<Rightarrow> string \<Rightarrow> wvalue list \<Rightarrow> int \<Rightarrow> int \<Rightarrow> 'db core \<Rightarrow> results res" where
  "getAll R L wild rs skip limit s =
     (if \<not> dbOk s then Inr (False, rs)
      else if star_first wild then Inr (False, rs)
      else scan_from (in_prefix (before_star wild)) (key_hit wild) (push_value L) skip limit
             (seek_entries R s wild) (-1) (True, rs))"

text \<open>
  The form with several patterns and a filter. The counter runs on over the patterns, and the
  first pattern that begins with a star disables the ones after it as well. The filter gets
  the loaded value (in error state when the text is not JSON) and may change \<open>w\<close>.
\<close>

definition push_filtered ::
    "lib \<Rightarrow> (rvalue option \<Rightarrow> wvalue \<Rightarrow> (bool \<times> wvalue) res) \<Rightarrow> string \<times> string \<Rightarrow> results \<Rightarrow> results res" where
  "push_filtered L passFilter e acc =
     (case res_bind (value_json L (snd e)) (\<lambda>w. passFilter (load (snd e)) w) of
        Inr (pass, w) \<Rightarrow> Inr (fst acc, if pass then snd acc @ [w] else snd acc)
      | Inl x \<Rightarrow> if x = RuntimeError then Inr (False, snd acc @ [error_entry (snd e)]) else Inl x)"

fun getAll_wilds ::
    "'db rocks \<Rightarrow> (string \<times> string \<Rightarrow> results \<Rightarrow> results res) \<Rightarrow> int \<Rightarrow> int \<Rightarrow> 'db core \<Rightarrow>
     string list \<Rightarrow> bool \<Rightarrow> int \<Rightarrow> results \<Rightarrow> results res" where
  "getAll_wilds R emit skip limit s [] process i acc = Inr acc"
| "getAll_wilds R emit skip limit s (wild # wilds) process i acc =
     (let process' = (process \<and> \<not> star_first wild) in
      if process' then
        res_bind (scan_loop (in_prefix (before_star wild)) (key_hit wild) emit skip limit
                    (seek_entries R s wild) i acc)
          (\<lambda>(j, acc'). getAll_wilds R emit skip limit s wilds process' j acc')
      else getAll_wilds R emit skip limit s wilds process' i acc)"

definition getAll_filtered ::
    "'db rocks \<Rightarrow> lib \<Rightarrow> string list \<Rightarrow> wvalue list \<Rightarrow> (rvalue option \<Rightarrow> wvalue \<Rightarrow> (bool \<times> wvalue) res) \<Rightarrow>
     int \<Rightarrow> int \<Rightarrow> 'db core \<Rightarrow> results res" where
  "getAll_filtered R L wilds rs passFilter skip limit s =
     (if \<not> dbOk s then Inr (False, rs)
      else getAll_wilds R (push_filtered L passFilter) skip limit s wilds True (-1) (True, rs))"

definition getKeys ::
    "'db rocks \<Rightarrow> lib \<Rightarrow> string \<Rightarrow> wvalue list \<Rightarrow> int \<Rightarrow> int \<Rightarrow> 'db core \<Rightarrow> results res" where
  "getKeys R L wild rs skip limit s =
     (if cacheEnabled s then
        res_bind (GetCachedKeys L False False wild rs skip limit s) (\<lambda>(n, rs'). Inr (True, rs'))
      else if \<not> dbOk s then Inr (False, rs)
      else if star_first wild then Inr (False, rs)
      else scan_from (in_prefix (before_star wild)) (key_hit wild) (push_pair L) skip limit
             (seek_entries R s wild) (-1) (True, rs))"

definition getKeys_text ::
    "'db rocks \<Rightarrow> string \<Rightarrow> string \<Rightarrow> int \<Rightarrow> int \<Rightarrow> 'db core \<Rightarrow> (bool \<times> string) res" where
  "getKeys_text R wild out skip limit s =
     (if cacheEnabled s then
        res_bind (GetCachedKeys_text False False wild out skip limit s) (\<lambda>(n, out'). Inr (True, out'))
      else if \<not> dbOk s then Inr (False, out)
      else if star_first wild then Inr (False, out)
      else res_bind (scan_from (in_prefix (before_star wild)) (key_hit wild) push_text skip limit
             (seek_entries R s wild) (-1) (0, ''{\"result\":['')) (\<lambda>acc. Inr (True, close_text acc)))"

text \<open>
  Backwards: \<open>Seek\<close> to the first key after the prefix, then \<open>Prev()\<close>, which needs a valid
  iterator.
\<close>

definition reverse_entries :: "'db rocks \<Rightarrow> 'db core \<Rightarrow> string \<Rightarrow> (string \<times> string) list res" where
  "reverse_entries R s wild =
     res_bind (first_after (before_star wild)) (\<lambda>firstAfterPrefix.
     res_bind (it_prev (rocks_Seek R (db s) firstAfterPrefix)) (\<lambda>it. Inr (it_backwards it)))"

definition getKeysReversed ::
    "'db rocks \<Rightarrow> lib \<Rightarrow> string \<Rightarrow> wvalue list \<Rightarrow> int \<Rightarrow> int \<Rightarrow> 'db core \<Rightarrow> results res" where
  "getKeysReversed R L wild rs skip limit s =
     (if cacheEnabled s then
        res_bind (GetCachedKeys L False True wild rs skip limit s) (\<lambda>(n, rs'). Inr (True, rs'))
      else if \<not> dbOk s then Inr (False, rs)
      else if star_first wild then Inr (False, rs)
      else res_bind (reverse_entries R s wild) (\<lambda>es.
             scan_from (in_prefix (before_star wild)) (key_hit wild) (push_pair L) skip limit
               es (-1) (True, rs)))"

definition getKeysReversed_text ::
    "'db rocks \<Rightarrow> string \<Rightarrow> string \<Rightarrow> int \<Rightarrow> int \<Rightarrow> 'db core \<Rightarrow> (bool \<times> string) res" where
  "getKeysReversed_text R wild out skip limit s =
     (if cacheEnabled s then
        res_bind (GetCachedKeys_text False True wild out skip limit s) (\<lambda>(n, out'). Inr (True, out'))
      else if \<not> dbOk s then Inr (False, out)
      else if star_first wild then Inr (False, out)
      else res_bind (reverse_entries R s wild) (\<lambda>es.
             res_bind (scan_from (in_prefix (before_star wild)) (key_hit wild) push_text skip limit
                         es (-1) (0, ''{\"result\":[''))
               (\<lambda>acc. Inr (True, close_text acc))))"

definition getCount ::
    "'db rocks \<Rightarrow> lib \<Rightarrow> string \<Rightarrow> int \<Rightarrow> int \<Rightarrow> int \<Rightarrow> 'db core \<Rightarrow> (bool \<times> int) res" where
  "getCount R L wild out skip limit s =
     (if cacheEnabled s then
        res_bind (GetCachedKeys L True False wild [] skip limit s) (\<lambda>(n, rs). Inr (True, n))
      else if \<not> dbOk s then Inr (False, out)
      else if star_first wild then Inr (False, 0)
      else res_bind (scan_from (in_prefix (before_star wild)) (key_hit wild) (\<lambda>e n. Inr (n + 1))
             skip limit (seek_entries R s wild) (-1) 0) (\<lambda>n. Inr (True, n)))"

section \<open>Listing everything\<close>

definition iter ::
    "'db rocks \<Rightarrow> lib \<Rightarrow> wvalue list \<Rightarrow> int \<Rightarrow> int \<Rightarrow> 'db core \<Rightarrow> results res" where
  "iter R L rs skip limit s =
     (if \<not> dbOk s then Inr (False, rs)
      else scan_from (\<lambda>e. True) (\<lambda>e. True) (push_pair L) skip limit
             (snd (rocks_SeekToFirst R (db s))) (-1) (True, rs))"

definition iterReversed ::
    "'db rocks \<Rightarrow> lib \<Rightarrow> wvalue list \<Rightarrow> int \<Rightarrow> int \<Rightarrow> 'db core \<Rightarrow> results res" where
  "iterReversed R L rs skip limit s =
     (if \<not> dbOk s then Inr (False, rs)
      else scan_from (\<lambda>e. True) (\<lambda>e. True) (push_pair L) skip limit
             (it_backwards (rocks_SeekToLast R (db s))) (-1) (True, rs))"

section \<open>Removing by wildcard\<close>

text \<open>Removal is announced entry by entry, before the batch is written.\<close>

definition batch_delete ::
    "lib \<Rightarrow> string \<times> string \<Rightarrow> string list \<times> int \<times> 'db core \<Rightarrow> (string list \<times> int \<times> 'db core) res" where
  "batch_delete L e acc =
     (case acc of (batch, out, s) \<Rightarrow> Inr (batch @ [fst e], out + 1, removeRequest L (fst e) s))"

definition removeAll :: "'db rocks \<Rightarrow> lib \<Rightarrow> string \<Rightarrow> int \<Rightarrow> int \<Rightarrow> ('db, int) op" where
  "removeAll R L wild skip limit s =
     (if \<not> dbOk s \<or> star_first wild then (Inr 0, s)
      else case scan_from (in_prefix (before_star wild)) (key_hit wild) (batch_delete L) skip limit
                  (seek_entries R s wild) (-1) ([], 0, s) of
          Inl e \<Rightarrow> (Inl e, s)
        | Inr (batch, out, s1) \<Rightarrow> (Inr out, s1\<lparr>db := snd (rocks_Write R (db s1) batch)\<rparr>))"

section \<open>Reading given keys\<close>

text \<open>
  \<open>getList\<close>: the keys of a JSON list, read one by one; the window counts every key of the
  request, found or not, and there is no early exit. The pair under construction survives a
  key that is not selected. An exception keeps what was found before it.
\<close>

fun getList_loop ::
    "'db rocks \<Rightarrow> lib \<Rightarrow> int \<Rightarrow> int \<Rightarrow> (string \<times> rvalue) list \<Rightarrow> int \<Rightarrow> wvalue \<Rightarrow> wvalue list \<Rightarrow>
     'db core \<Rightarrow> (exc option \<times> wvalue list) \<times> 'db core" where
  "getList_loop R L skip limit [] i w rs s = ((None, rs), s)"
| "getList_loop R L skip limit ((u, key) # keys) i w rs s =
     (case r_s key of
        Inl e \<Rightarrow> ((Some e, rs), s)
      | Inr k \<Rightarrow>
          (case getJson R L k s of
             (Inl e, s1) \<Rightarrow> ((Some e, rs), s1)
           | (Inr None, s1) \<Rightarrow> getList_loop R L skip limit keys (i + 1) w rs s1
           | (Inr (Some out), s1) \<Rightarrow>
               (let w1 = w_set (w_set w ''value'' out) ''key'' (WString k) in
                if selected skip limit (i + 1)
                then getList_loop R L skip limit keys (i + 1) WNull (rs @ [w1]) s1
                else getList_loop R L skip limit keys (i + 1) w1 rs s1)))"

definition getList ::
    "'db rocks \<Rightarrow> lib \<Rightarrow> rvalue \<Rightarrow> wvalue list \<Rightarrow> int \<Rightarrow> int \<Rightarrow> ('db, results) op" where
  "getList R L args rs skip limit s =
     (if \<not> dbOk s then (Inr (True, rs), s)
      else case r_members args of
          Inl e \<Rightarrow> (if e = RuntimeError then Inr (False, rs) else Inl e, s)
        | Inr keys \<Rightarrow>
            (case getList_loop R L skip limit keys (-1) WNull rs s of
               ((None, rs'), s1) \<Rightarrow> (Inr (True, rs'), s1)
             | ((Some e, rs'), s1) \<Rightarrow>
                 (if e = RuntimeError then Inr (False, rs') else Inl e, s1)))"

text \<open>The form that builds the reply text.\<close>

fun getList_text_loop ::
    "'db rocks \<Rightarrow> int \<Rightarrow> int \<Rightarrow> (string \<times> rvalue) list \<Rightarrow> int \<Rightarrow> int \<times> string \<Rightarrow>
     'db core \<Rightarrow> (exc option \<times> int \<times> string) \<times> 'db core" where
  "getList_text_loop R skip limit [] i acc s = ((None, acc), s)"
| "getList_text_loop R skip limit ((u, key) # keys) i acc s =
     (case r_s key of
        Inl e \<Rightarrow> ((Some e, acc), s)
      | Inr k \<Rightarrow>
          (let ((valid, v), s1) = get R k s in
           getList_text_loop R skip limit keys (i + 1)
             (if selected skip limit (i + 1) \<and> valid
              then (fst acc + 1, snd acc @ text_item (k, v)) else acc) s1))"

definition text_error :: "string \<Rightarrow> string" where
  "text_error out = butlast out @ '','' @ ''\"error\":\"runtime error\"}''"

definition getList_text ::
    "'db rocks \<Rightarrow> rvalue \<Rightarrow> string \<Rightarrow> int \<Rightarrow> int \<Rightarrow> ('db, bool \<times> string) op" where
  "getList_text R args out skip limit s =
     (if \<not> dbOk s then (Inr (True, out), s)
      else case (case r_members args of
                   Inl e \<Rightarrow> ((Some e, 0, ''{\"result\":[''), s)
                 | Inr keys \<Rightarrow> getList_text_loop R skip limit keys (-1) (0, ''{\"result\":['') s) of
          ((None, acc), s1) \<Rightarrow> (Inr (True, close_text acc), s1)
        | ((Some e, acc), s1) \<Rightarrow>
            (if e = RuntimeError then Inr (False, text_error (close_text acc)) else Inl e, s1))"

text \<open>\<open>getItems\<close>: an object from key to value, read from the database and not the cache.\<close>

fun getItems_loop ::
    "'db rocks \<Rightarrow> lib \<Rightarrow> int \<Rightarrow> int \<Rightarrow> 'db core \<Rightarrow> (string \<times> rvalue) list \<Rightarrow> int \<Rightarrow> bool \<Rightarrow> wvalue \<Rightarrow>
     exc option \<times> bool \<times> wvalue" where
  "getItems_loop R L skip limit s [] i ret w = (None, ret, w)"
| "getItems_loop R L skip limit s ((u, key) # keys) i ret w =
     (case r_s key of
        Inl e \<Rightarrow> (Some e, ret, w)
      | Inr k \<Rightarrow>
          if selected skip limit (i + 1) then
            (case rocks_Get R (db s) k of
               None \<Rightarrow> getItems_loop R L skip limit s keys (i + 1) False w
             | Some v \<Rightarrow>
                 (case wvalue_of L (load v) of
                    Inl e \<Rightarrow> (Some e, ret, w)
                  | Inr x \<Rightarrow> getItems_loop R L skip limit s keys (i + 1) ret (w_set w k x)))
          else getItems_loop R L skip limit s keys (i + 1) ret w)"

definition getItems ::
    "'db rocks \<Rightarrow> lib \<Rightarrow> rvalue \<Rightarrow> wvalue \<Rightarrow> int \<Rightarrow> int \<Rightarrow> 'db core \<Rightarrow> (bool \<times> wvalue) res" where
  "getItems R L args jsonResult skip limit s =
     (if \<not> dbOk s then Inr (True, jsonResult)
      else case (case r_members args of
                   Inl e \<Rightarrow> (Some e, True, jsonResult)
                 | Inr keys \<Rightarrow> getItems_loop R L skip limit s keys (-1) True jsonResult) of
          (None, ret, w) \<Rightarrow> Inr (ret, w)
        | (Some e, ret, w) \<Rightarrow> if e = RuntimeError then Inr (False, w) else Inl e)"

end
