(* ===== verification/Numbers.thy ===== *)
theory Numbers
  imports Store
begin

text \<open>
  Integers as text: \<^verbatim>\<open>std::to_string\<close>, \<^verbatim>\<open>std::stoi\<close> and the \<^verbatim>\<open>%0.10g\<close> of the JSON printer. Every
  32-bit integer survives printing and \<open>stoi\<close>, and the JSON printer writes every integer of at
  most ten digits exactly.
\<close>

section \<open>Decimal digits\<close>

text \<open>Printing an integer and reading it back with \<open>stoi\<close>.\<close>

lemma is_digit09_char: "0 \<le> d \<Longrightarrow> d < 10 \<Longrightarrow>
    is_digit09 (char_of (48 + d :: int)) \<and> (of_char (char_of (48 + d :: int)) :: int) = 48 + d"
proof -
  assume d: "0 \<le> d" "d < 10"
  then have i: "(of_char (char_of (48 + d :: int)) :: int) = 48 + d" by (simp add: of_char_of)
  then have "int (of_char (char_of (48 + d :: int))) = 48 + d" by (simp add: of_nat_of_char)
  then show ?thesis using i d by (simp add: is_digit09_def)
qed

lemma digits_value_snoc: "digits_value (ds @ [c]) = digits_value ds * 10 + (of_char c - 48)"
  by (simp add: digits_value_def)

lemma int_digits_value:
  "0 \<le> i \<Longrightarrow> digits_value (int_digits i) = i \<and> list_all is_digit09 (int_digits i) \<and> int_digits i \<noteq> []"
proof (induction i rule: int_digits.induct)
  case (1 i)
  show ?case
  proof (cases "i < 10")
    case True
    then show ?thesis using 1(2) is_digit09_char [of i]
      by (simp add: int_digits.simps [of i] digits_value_def)
  next
    case False
    then show ?thesis using 1 is_digit09_char [of "i mod 10"]
      by (simp add: int_digits.simps [of i] digits_value_snoc)
  qed
qed

lemma takeWhile_list_all: "list_all P xs \<Longrightarrow> takeWhile P xs = xs"
  by (simp add: list_all_iff)

lemma stoi_to_string:
  assumes "INT_MIN \<le> n" and "n \<le> INT_MAX"
  shows "stoi (to_string n) = Inr n"
proof (cases "n < 0")
  case True
  then have "digits_value (int_digits (- n)) = - n" "int_digits (- n) \<noteq> []"
    "takeWhile is_digit09 (int_digits (- n)) = int_digits (- n)"
    using int_digits_value [of "- n"] by (simp_all add: takeWhile_list_all)
  then show ?thesis using True assms
    by (simp add: stoi_def to_string_def is_space_def del: takeWhile_eq_all_conv)
next
  case False
  then have v: "digits_value (int_digits n) = n" "list_all is_digit09 (int_digits n)"
    using int_digits_value [of n] by simp_all
  obtain c r where c: "int_digits n = c # r" "is_digit09 c"
    using int_digits_value [of n] False by (cases "int_digits n") auto
  then have "\<not> is_space c" "c \<noteq> CHR ''-''" "c \<noteq> CHR ''+''"
    by (auto simp: is_digit09_def is_space_def)
  then show ?thesis using v c False assms
    by (simp add: stoi_def to_string_def takeWhile_list_all)
qed

lemma int_digits_times10: "0 < n \<Longrightarrow> int_digits (n * 10) = int_digits n @ ''0''"
  by (subst int_digits.simps) (simp add: char_of_def)

lemma int_digits_times_pow: "0 < n \<Longrightarrow> int_digits (n * 10 ^ k) = int_digits n @ replicate k (CHR ''0'')"
proof (induction k)
  case (Suc k)
  have "int_digits (n * 10 ^ Suc k) = int_digits ((n * 10 ^ k) * 10)" by (simp add: mult.commute mult.left_commute)
  also have "\<dots> = int_digits (n * 10 ^ k) @ ''0''" using Suc.prems by (intro int_digits_times10) simp
  finally show ?case using Suc by (simp add: replicate_append_same)
qed simp

lemma int_digits_length:
  "0 < n \<Longrightarrow> 10 ^ (length (int_digits n) - 1) \<le> n \<and> n < 10 ^ length (int_digits n) \<and> 0 < length (int_digits n)"
proof (induction n rule: int_digits.induct)
  case (1 n)
  show ?case
  proof (cases "n < 10")
    case True
    then show ?thesis using 1(2) by (simp add: int_digits.simps [of n])
  next
    case False
    let ?l = "length (int_digits (n div 10))"
    have IH: "10 ^ (?l - 1) \<le> n div 10" "n div 10 < 10 ^ ?l" "0 < ?l" using 1 False by auto
    have "(10 :: int) ^ ?l = 10 * 10 ^ (?l - 1)" using IH(3) by (cases ?l) simp_all
    with IH have "(10 :: int) ^ ?l \<le> n" "n < 10 * 10 ^ ?l" by linarith+
    with False show ?thesis by (simp add: int_digits.simps [of n])
  qed
qed

section \<open>Ten significant digits\<close>

lemma round_half_even_int [simp]: "round_half_even (of_int m) = m"
  by (simp add: round_half_even_def)

lemma quotient_of_of_int: "quotient_of (of_int n) = (n, 1)"
  by (simp add: quotient_of_int)

lemma int_digits_1: "int_digits 1 = ''1''"
  by (subst int_digits.simps) (simp add: char_of_def)

lemma strip_zeros_replicate: "strip_zeros (replicate k (CHR ''0'')) = []"
  by (simp add: strip_zeros_def)

lemma format_g10_pos_int:
  assumes "0 < n" and "n < 10000000000"
  shows "format_g10_pos (of_int n) = int_digits n"
proof -
  let ?l = "length (int_digits n)"
  define k where "k = ?l - 1"
  note L = int_digits_length [OF assms(1)]
  have l: "?l = Suc k" using L by (simp add: k_def)
  have "(10 :: int) ^ k < 10 ^ 10" using L assms(2) by (simp add: k_def)
  then have "k < 10" by (rule power_less_imp_less_exp [rotated]) simp
  then have k: "k \<le> 9" by simp
  have "(10 :: rat) ^ k \<le> of_int n"
    using L unfolding k_def by (metis of_int_le_iff of_int_numeral of_int_power)
  then have x: "dec_exponent (of_int n) = int k"
    by (simp add: dec_exponent_def quotient_of_of_int int_digits_1 l pow10_def)
  have "of_int n * pow10 (9 - int k) = (of_int (n * 10 ^ (9 - k)) :: rat)"
    using k by (simp add: pow10_def nat_diff_distrib)
  then have m: "round_half_even (of_int n * pow10 (9 - int k)) = n * 10 ^ (9 - k)"
    by (simp only: round_half_even_int)
  have "n < 10 ^ Suc k" using L l by simp
  then have "n * 10 ^ (9 - k) < 10 ^ Suc k * 10 ^ (9 - k)" by (rule mult_strict_right_mono) simp
  also have "\<dots> = 10 ^ 10" using k by (simp flip: power_add)
  finally have ne: "n * 10 ^ (9 - k) \<noteq> 10000000000" by simp
  have ds: "int_digits (n * 10 ^ (9 - k)) = int_digits n @ replicate (9 - k) (CHR ''0'')"
    by (rule int_digits_times_pow [OF assms(1)])
  show ?thesis
    using k ne unfolding format_g10_pos_def Let_def x m
    by (simp add: ds l with_fraction_def strip_zeros_replicate nat_add_distrib)
qed

lemma format_g10_int: "0 \<le> n \<Longrightarrow> n < 10000000000 \<Longrightarrow> format_g10 (double_of_int n) = to_string n"
  by (cases "n = 0")
    (simp_all add: double_of_int_def format_g10_pos_int to_string_def int_digits.simps [of 0] char_of_def)

lemma stoi_dump_int:
  assumes "0 \<le> n" and "n \<le> INT_MAX"
  shows "stoi (dump_json L (WNumber (double_of_int n))) = Inr n"
  using assms format_g10_int [of n] stoi_to_string [of n]
  by (simp add: dump_json_def INT_MAX_def INT_MIN_def)

end
