(* ===== verification/Store_Props.thy ===== *)
theory Store_Props
  imports Store_Laws Numbers
begin

text \<open>
  What single operations of the key-value core promise to a client: a stored value is read
  back, \<open>post\<close> never overwrites, \<open>put\<close> merges objects field by field, a removed key is gone
  from the database, the two removal routines agree, counters add up; and where the cache
  answers differently from the database.
\<close>

section \<open>Lemmas on the pieces\<close>

lemma fill_cache:
  "cacheMap (fold (\<lambda>(k, v). PutCached k v) es t) = fold (\<lambda>(k, v). sm_set k v) es (cacheMap t)"
  by (induction es arbitrary: t) (auto simp: PutCached_def)

lemma sm_find_fold_set:
  "distinct (map fst es) \<Longrightarrow> sm_find (fold (\<lambda>(k, v). sm_set k v) es m) = sm_find m ++ map_of es"
proof (induction es arbitrary: m)
  case (Cons e es)
  obtain k v where e: "e = (k, v)" by (cases e)
  have "k \<notin> dom (map_of es)" using Cons.prems by (simp add: e dom_map_of_conv_image_fst)
  then show ?case using Cons
    by (simp add: e sm_find_set map_add_upd_left) (simp add: fun_eq_iff map_add_def)
qed simp

text \<open>The merge of two objects: the members of the new one win.\<close>

lemma set_w_keys: "um_order_ok L \<Longrightarrow> set (w_keys L w) = fst ` set (w_members w)"
  by (simp add: um_order_ok_def w_keys_def order_ok_set)

lemma map_of_w_set: "map_of (w_members (w_set w k v)) = (map_of (w_members w))(k \<mapsto> v)"
  by (simp add: w_set_def w_members_def update_conv')

lemma w_members_WNull: "w_members WNull = []"
  by (simp add: w_members_def)

lemma map_of_fold_w_set:
  "map_of (w_members (fold (\<lambda>p w. w_set w p (w_get x p)) ks w)) k =
     (if k \<in> set ks then Some (w_get x k) else map_of (w_members w) k)"
  by (induction ks arbitrary: w) (auto simp: map_of_w_set)

lemma map_of_merge_fields:
  assumes "um_order_ok L"
  shows "map_of (w_members (merge_fields L existing new)) =
    map_of (w_members existing) ++ map_of (w_members new)"
proof
  fix k
  have member: "k \<in> fst ` set (w_members w) \<longleftrightarrow> map_of (w_members w) k \<noteq> None" for w
    by (simp add: map_of_eq_None_iff)
  have "map_of (w_members w) k = Some v \<Longrightarrow> w_get w k = v" for w v
    by (simp add: w_get_def)
  then show "map_of (w_members (merge_fields L existing new)) k =
      (map_of (w_members existing) ++ map_of (w_members new)) k"
    unfolding merge_fields_def map_of_fold_w_set set_w_keys [OF assms] member w_members_WNull
    by (auto simp: map_add_def split: option.split)
qed

lemma increment_stored:
  assumes "get R k s = ((True, val), s1)" and "stoi val = Inr n"
    and "dump R L k (to_string (wrap32 (n + i))) s1 = ((True, out), s2)"
  shows "increment R L k i s = ((True, out), s2)"
  by (simp add: increment_def assms)

context rocksdb
begin

lemma openDB_cache:
  assumes "cacheMap s = []" and "cacheEnabled s"
  shows "sm_find (cacheMap (openDB R d ok s)) = rocks_Get R d"
  using assms entries_distinct [of d] lookup_entries [of d]
  by (simp add: openDB_def seek_first fill_cache sm_find_fold_set) (simp add: sm_find_def fun_eq_iff map_add_def split: option.split)

lemma get_of_dump:
  assumes "dump R L k v s = ((True, out), s')"
  shows "get R k s' = ((True, v), s') \<and> contents R s' = (contents R s)(k \<mapsto> v) \<and> dbOk s'"
proof -
  obtain d where d: "rocks_Put R (db s) k v = (True, d)" and ok: "dbOk s"
    and s': "s' = putRequest L k v (s\<lparr>db := d\<rparr>)"
    using assms by (auto simp: dump_def Let_def split: if_splits prod.splits)
  then show ?thesis using put_ok [OF d] by (simp add: get_def GetCached_def sm_find_set)
qed

lemma dump_reliable:
  assumes "rocks_reliable R" and "dbOk s"
  shows "\<exists>s'. dump R L k v s = ((True, ''{\"result\":true}''), s')"
  using assms by (auto simp: rocks_reliable_def dump_def Let_def split: prod.split) (metis fst_conv)

lemma dump_again: "contents R s1 = (contents R s)(k \<mapsto> u) \<Longrightarrow>
    dump R L k v s1 = ((True, out), s2) \<Longrightarrow> contents R s2 = (contents R s)(k \<mapsto> v)"
  using get_of_dump by fastforce

text \<open>\<open>post\<close> on a key that exists is refused; on another key it changes only that key.\<close>

lemma insert_key_only:
  assumes "insertKeyValuePair R L fe x s = (r, s')" and "contents R s' k \<noteq> contents R s k"
  shows "res_bind (r_get x ''key'') r_s = Inr k \<and> (fe \<longrightarrow> contents R s k = None)"
proof -
  obtain key where key: "res_bind (r_get x ''key'') r_s = Inr key"
    using assms by (auto simp: insertKeyValuePair_def split: sum.splits)
  obtain w d where "s' = putRequest L key w (s\<lparr>db := d\<rparr>) \<and> rocks_Put R (db s) key w = (True, d) \<or>
      s' = s\<lparr>db := d\<rparr> \<and> rocks_Put R (db s) key w = (False, d)" and fe: "dbOk s"
      "fe \<longrightarrow> contents R s key = None"
    using assms key
    by (auto simp: insertKeyValuePair_def getKeyValuePair_def Let_def
        split: sum.splits prod.splits if_splits option.splits)
  then have "contents R s' = (contents R s)(key \<mapsto> w) \<or> contents R s' = contents R s"
    using put_ok put_fail by auto
  then show ?thesis using assms(2) key fe by (auto split: if_splits)
qed

end

section \<open>Reading back\<close>

text \<open>After a successful \<open>dump\<close> of a value under a key, \<open>get\<close> returns that value, with
  and without the cache, and no other key has changed.\<close>

theorem dump_then_get:
  assumes "rocksdb R entries" and "dump R L k v s = ((True, out), s')"
  shows "get R k s' = ((True, v), s') \<and> contents R s' = (contents R s)(k \<mapsto> v)"
  using rocksdb.get_of_dump [OF assms] by simp

theorem dump_then_get_witness:
  "\<exists>s'. get mem_rocks ''k'' s' = ((True, ''v''), s') \<and>
     contents mem_rocks s' = (contents mem_rocks (mem_node [(''a'', ''1'')]))(''k'' \<mapsto> ''v'')"
proof -
  obtain s' where "dump mem_rocks mem_lib ''k'' ''v'' (mem_node [(''a'', ''1'')]) =
      ((True, ''{\"result\":true}''), s')"
    using mem.dump_reliable [OF mem_reliable, of "mem_node [(''a'', ''1'')]" mem_lib "''k''" "''v''"]
    by (auto simp: mem_node_def)
  from dump_then_get [OF mem.rocksdb_axioms this] show ?thesis by blast
qed

text \<open>With the cache enabled, \<open>openDB\<close> fills an empty cache so that looking a key up in
  the cache agrees with reading it from the database.\<close>

theorem openDB_fills_cache:
  assumes "rocksdb R entries" and "cacheMap s = []" and "cacheEnabled s"
  shows "sm_find (cacheMap (openDB R d ok s)) = rocks_Get R d"
  by (rule rocksdb.openDB_cache [OF assms])

theorem openDB_fills_cache_witness:
  "sm_find (cacheMap (openDB mem_rocks (mem_of [(''a'', ''1'')]) True
     ((mem_node [])\<lparr>cacheEnabled := True\<rparr>))) = rocks_Get mem_rocks (mem_of [(''a'', ''1'')])"
  by (rule openDB_fills_cache [OF mem.rocksdb_axioms]) (simp_all add: mem_node_def)

section \<open>Inserting\<close>

text \<open>\<open>post\<close> never changes a key that has a value, whatever the request and whether or
  not it ends in an exception.\<close>

theorem post_never_overwrites:
  assumes "rocksdb R entries" and "contents R s k = Some v"
  shows "contents R (snd (post R L body s)) k = Some v"
proof (cases "load body")
  case (Some x)
  obtain r s' where ins: "insertKeyValuePair R L True x s = (r, s')" by fastforce
  then have "contents R s' k = contents R s k"
    using rocksdb.insert_key_only [OF assms(1) ins, of k] assms(2) by auto
  then show ?thesis using assms(2) Some ins by (simp add: post_def insert_body_def)
qed (simp add: post_def insert_body_def assms(2))

theorem post_never_overwrites_witness:
  "contents mem_rocks (snd (post mem_rocks mem_lib ''{\"key\":\"a\",\"value\":true}''
     (mem_node [(''a'', ''1'')]))) ''a'' = Some ''1''"
  by (rule post_never_overwrites [OF mem.rocksdb_axioms]) code_simp

text \<open>C8: \<open>put\<close> of an object with at least one field on a key that holds a JSON value stores an
  object with the fields of both, where a field of the request replaces the stored one; the
  other keys of the database keep their values.\<close>

theorem put_merges:
  assumes "rocksdb R entries" and "rocks_reliable R" and "um_order_ok L" and "dbOk s"
    and "load body = Some x" and "res_bind (r_get x ''key'') r_s = Inr k"
    and "res_bind (r_get x ''value'') (wvalue_of_rvalue L) = Inr new" and "w_members new \<noteq> []"
    and "contents R s k = Some t" and "wvalue_of L (load t) = Inr existing"
  shows "\<exists>w s'. put R L body s = (Inr (True, ''{\"result\":true}''), s') \<and>
    contents R s' = (contents R s)(k \<mapsto> dump_json L w) \<and>
    map_of (w_members w) = map_of (w_members existing) ++ map_of (w_members new)"
proof -
  let ?w = "merge_fields L existing new"
  have "w_keys L new \<noteq> []"
    using set_w_keys [OF assms(3), of new] assms(8) by (metis image_is_empty set_empty)
  then have wv: "res_bind (r_get x ''value'') (write_value L True t) = Inr ?w"
    using assms(7,10) by (auto simp: write_value_def res_bind_Inr_iff)
  obtain d where d: "rocks_Put R (db s) k (dump_json L ?w) = (True, d)"
    using assms(2) unfolding rocks_reliable_def by (metis prod.collapse)
  have "put R L body s =
      (Inr (True, ''{\"result\":true}''), putRequest L k (dump_json L ?w) (s\<lparr>db := d\<rparr>))"
    using assms(4-6,9) wv d
    by (simp add: put_def insert_body_def insertKeyValuePair_def getKeyValuePair_def)
  moreover have "rocks_Get R d = (contents R s)(k \<mapsto> dump_json L ?w)"
    by (rule rocksdb.put_ok [OF assms(1) d])
  ultimately show ?thesis using map_of_merge_fields [OF assms(3), of existing new] by force
qed

theorem put_merges_witness:
  "\<exists>w s'. put mem_rocks mem_lib ''{\"key\":\"a\",\"value\":{\"y\":true}}''
       (mem_node [(''a'', ''{\"x\":null,\"y\":false}'')]) = (Inr (True, ''{\"result\":true}''), s') \<and>
    contents mem_rocks s' = (contents mem_rocks (mem_node [(''a'', ''{\"x\":null,\"y\":false}'')]))
      (''a'' \<mapsto> dump_json mem_lib w) \<and>
    map_of (w_members w) = map_of [(''x'', WNull), (''y'', WFalse)] ++ map_of [(''y'', WTrue)]"
proof -
  have x: "load ''{\"key\":\"a\",\"value\":{\"y\":true}}'' =
      Some (RObject [(''key'', RString ''a''), (''value'', RObject [(''y'', RTrue)])])"
    by code_simp
  have t: "wvalue_of mem_lib (load ''{\"x\":null,\"y\":false}'') =
      Inr (WObject [(''x'', WNull), (''y'', WFalse)])"
    by code_simp
  have c: "contents mem_rocks (mem_node [(''a'', ''{\"x\":null,\"y\":false}'')]) ''a'' =
      Some ''{\"x\":null,\"y\":false}''"
    by code_simp
  show ?thesis
    using put_merges [OF mem.rocksdb_axioms mem_reliable mem_lib_order _ x _ _ _ c t,
        of "WObject [(''y'', WTrue)]"]
    by (simp add: mem_node_def um_emplace_def w_members_def)
qed

section \<open>Removing\<close>

text \<open>After \<open>remove\<close> of any key on a database that accepts writes, the key does not
  exist and every other key keeps its value; the reply tells whether it had a value.\<close>

theorem remove_then_exists:
  assumes "rocksdb R entries" and "rocks_reliable R" and "dbOk s"
    and "remove_key R L k s = ((ret, out), s')"
  shows "exists_key R k s' = (False, ''{\"result\":false}'') \<and>
    contents R s' = (contents R s)(k := None) \<and> (ret \<longleftrightarrow> contents R s k \<noteq> None)"
proof (cases "contents R s k")
  case None
  then show ?thesis using assms(3,4)
    by (auto simp: remove_key_def exists_key_def getKeyValuePair_def fun_eq_iff)
next
  case (Some v)
  obtain d where d: "rocks_Delete R (db s) k = (True, d)"
    using assms(2) unfolding rocks_reliable_def by (metis prod.collapse)
  show ?thesis using rocksdb.delete_ok [OF assms(1) d] Some d assms(3,4)
    by (auto simp: remove_key_def exists_key_def getKeyValuePair_def)
qed

theorem remove_then_exists_witness:
  "\<exists>s'. exists_key mem_rocks ''a'' s' = (False, ''{\"result\":false}'') \<and>
     contents mem_rocks s' = (contents mem_rocks (mem_node [(''a'', ''1'')]))(''a'' := None)"
proof -
  obtain ret out s' where
    "remove_key mem_rocks mem_lib ''a'' (mem_node [(''a'', ''1'')]) = ((ret, out), s')"
    by (metis prod.exhaust)
  from remove_then_exists [OF mem.rocksdb_axioms mem_reliable _ this] show ?thesis
    by (auto simp: mem_node_def)
qed

text \<open>\<open>removeIterating\<close>, which looks the key up with an iterator, leaves the same state
  as \<open>remove\<close>, which looks it up with a point read.\<close>

theorem removeIterating_equiv:
  assumes "rocksdb R entries"
  shows "snd (removeIterating R L k s) = snd (remove_key R L k s)"
proof (cases "contents R s k = None \<or> \<not> dbOk s")
  case True
  then show ?thesis using rocksdb.removeIterating_absent [OF assms, of s k L]
    by (cases "dbOk s") (simp_all add: remove_key_def removeIterating_def)
qed (use rocksdb.removeIterating_remove [OF assms] in blast)

theorem removeIterating_equiv_witness:
  "snd (removeIterating mem_rocks mem_lib ''b'' (mem_node [(''a'', ''1''), (''b'', ''2'')])) =
   snd (remove_key mem_rocks mem_lib ''b'' (mem_node [(''a'', ''1''), (''b'', ''2'')]))"
  by (rule removeIterating_equiv [OF mem.rocksdb_axioms])

section \<open>Counting\<close>

text \<open>Two increments of a counter in a row store what one increment by the sum would
  store, when the counter holds an integer and both results are 32-bit integers: no update is
  lost, and a printed counter is read back exactly.\<close>

theorem increment_adds_up:
  assumes "rocksdb R entries" and "rocks_reliable R" and "dbOk s"
    and "get R k s = ((True, val), s)" and "stoi val = Inr n"
    and "INT_MIN \<le> n + i" and "n + i \<le> INT_MAX"
    and "INT_MIN \<le> n + i + j" and "n + i + j \<le> INT_MAX"
  shows "contents R (snd (increment R L k j (snd (increment R L k i s)))) =
    (contents R s)(k \<mapsto> to_string (n + i + j))"
proof -
  obtain s1 where s1: "dump R L k (to_string (n + i)) s = ((True, ''{\"result\":true}''), s1)"
    using rocksdb.dump_reliable [OF assms(1-3)] by blast
  then have g1: "get R k s1 = ((True, to_string (n + i)), s1)" "dbOk s1"
    "contents R s1 = (contents R s)(k \<mapsto> to_string (n + i))"
    using rocksdb.get_of_dump [OF assms(1) s1] by simp_all
  obtain s2 where s2: "dump R L k (to_string (n + i + j)) s1 = ((True, ''{\"result\":true}''), s2)"
    using rocksdb.dump_reliable [OF assms(1,2) g1(2)] by blast
  have "increment R L k i s = ((True, ''{\"result\":true}''), s1)"
    by (rule increment_stored [OF assms(4,5)]) (simp add: wrap32_id assms s1)
  moreover have "increment R L k j s1 = ((True, ''{\"result\":true}''), s2)"
    by (rule increment_stored [OF g1(1) stoi_to_string]) (simp_all add: wrap32_id assms s2)
  ultimately show ?thesis using rocksdb.dump_again [OF assms(1) g1(3) s2] by simp
qed

theorem increment_adds_up_witness:
  "contents mem_rocks (snd (increment mem_rocks mem_lib ''n'' 2
     (snd (increment mem_rocks mem_lib ''n'' 5 (mem_node [(''n'', ''37'')]))))) =
   (contents mem_rocks (mem_node [(''n'', ''37'')]))(''n'' \<mapsto> to_string 44)"
proof -
  have "rocks_Get mem_rocks (mem_of [(''n'', ''37'')]) ''n'' = Some ''37''" by code_simp
  then have g: "get mem_rocks ''n'' (mem_node [(''n'', ''37'')]) =
      ((True, ''37''), mem_node [(''n'', ''37'')])"
    by (simp add: get_def mem_node_def)
  have n: "stoi ''37'' = Inr 37" by code_simp
  show ?thesis
    using increment_adds_up [OF mem.rocksdb_axioms mem_reliable _ g n, of 5 2]
    by (simp add: mem_node_def INT_MIN_def INT_MAX_def)
qed

section \<open>The cache\<close>

text \<open>With the cache enabled a read never fails: a key that is in neither the cache nor the
  database is reported as found with an empty value, and the read leaves an entry for it.\<close>

theorem cached_get_absent:
  assumes "cacheEnabled s" and "sm_find (cacheMap s) k = None"
  shows "fst (get R k s) = (True, []) \<and> sm_find (cacheMap (snd (get R k s))) k = Some []"
  using assms by (simp add: get_def GetCached_def sm_find_set)

theorem cached_get_absent_witness:
  "fst (get mem_rocks ''k'' ((mem_node [])\<lparr>cacheEnabled := True\<rparr>)) = (True, [])"
  using cached_get_absent [of "(mem_node [])\<lparr>cacheEnabled := True\<rparr>" "''k''" mem_rocks]
  by (simp add: mem_node_def sm_find_def)

text \<open>A key removed while the cache is enabled no longer exists in the database, but a
  cached read still returns the value it had: removal does not reach the cache.\<close>

theorem cached_get_after_remove:
  assumes "rocksdb R entries" and "rocks_reliable R" and "dbOk s" and "cacheEnabled s"
    and "coherent R s" and "contents R s k = Some v"
    and "remove_key R L k s = ((ret, out), s')"
  shows "fst (get R k s') = (True, v) \<and> contents R s' k = None"
proof -
  obtain d where d: "rocks_Delete R (db s) k = (True, d)"
    using assms(2) unfolding rocks_reliable_def by (metis prod.collapse)
  have "sm_find (cacheMap s) k = Some v"
    using assms(5,6) unfolding coherent_def map_le_def by (metis domI)
  moreover have "s' = removeRequest L k (s\<lparr>db := d\<rparr>)"
    using assms(3,6,7) d by (simp add: remove_key_def)
  ultimately show ?thesis using rocksdb.delete_ok [OF assms(1) d] assms(4)
    by (simp add: get_def GetCached_def)
qed

theorem cached_get_after_remove_witness:
  "\<exists>s'. fst (get mem_rocks ''a'' s') = (True, ''1'') \<and> contents mem_rocks s' ''a'' = None"
proof -
  let ?s = "(mem_node [(''a'', ''1'')])\<lparr>cacheEnabled := True, cacheMap := [(''a'', ''1'')]\<rparr>"
  have "mem_entries (mem_of [(''a'', ''1'')]) = [(''a'', ''1'')]" by code_simp
  then have "contents mem_rocks ?s = map_of [(''a'', ''1'')]"
    using mem.lookup_entries by (simp add: mem_node_def)
  then have "coherent mem_rocks ?s" "contents mem_rocks ?s ''a'' = Some ''1''"
    by (simp_all add: coherent_def sm_find_def map_le_def)
  moreover obtain ret out s' where "remove_key mem_rocks mem_lib ''a'' ?s = ((ret, out), s')"
    by (metis prod.exhaust)
  ultimately have "fst (get mem_rocks ''a'' s') = (True, ''1'') \<and> contents mem_rocks s' ''a'' = None"
    by (intro cached_get_after_remove [OF mem.rocksdb_axioms mem_reliable]) (simp_all add: mem_node_def)
  then show ?thesis by blast
qed

end
