(* ===== verification/Scan_Laws.thy ===== *)
theory Scan_Laws
  imports Scan Store_Props
begin

text \<open>
  What the listing operations compute. \<open>matching\<close> is the specification of a wildcard query:
  the entries, in key order, that have the literal prefix and match the pattern. It says nothing of
  a pattern that begins with a star, which the operations refuse. Each
  operation returns the skip/limit window of it (of its reverse for the backward ones),
  counting counts it, and removal by wildcard deletes exactly the window.
\<close>

definition matching :: "(string \<times> string) list \<Rightarrow> string \<Rightarrow> (string \<times> string) list" where
  "matching es wild = filter (\<lambda>e. in_prefix (before_star wild) e \<and> key_hit wild e) es"

section \<open>Lemmas\<close>

text \<open>The bytes from a prefix up to the prefix with its last byte incremented.\<close>

lemma prefix_interval:
  assumes "p \<noteq> []" and "of_char (last p) < (255 :: nat)" and "first_after p = Inr q"
  shows "prefix p k \<longleftrightarrow> p \<le> k \<and> (k :: string) < q"
proof -
  obtain u c where p: "p = u @ [c]" using assms(1) by (metis rev_exhaust)
  define c' where "c' = (char_of (of_char c + 1 :: nat) :: char)"
  have c': "of_char c' = (of_char c + 1 :: nat)" using assms(2) p by (simp add: c'_def of_char_of)
  have q: "q = u @ [c']" using assms p by (simp add: first_after_def c'_def)
  have less: "x < c' \<longleftrightarrow> x \<le> c" for x
    using c' by (auto simp: less_char_def less_eq_char_def)
  have single: "prefix [c] k \<longleftrightarrow> [c] \<le> k \<and> k < [c']" for k
    by (cases k) (auto simp: less)
  show ?thesis unfolding p q
  proof (induction u arbitrary: k)
    case (Cons a u)
    show ?case
    proof (cases k)
      case (Cons b r)
      consider "b = a" | "a < b" | "b < a" by (rule linorder_cases)
      then show ?thesis using Cons.IH [of r] by cases (auto simp add: Cons less_not_sym)
    qed simp
  qed (simp add: single)
qed

lemma takeWhile_less_filter:
  "sorted (map fst es) \<Longrightarrow> takeWhile (\<lambda>e. fst e < q) es = filter (\<lambda>e. fst e < (q :: string)) es"
proof (induction es)
  case (Cons e es)
  have "filter (\<lambda>e. fst e < q) es = []" if "\<not> fst e < q"
    using Cons.prems that by (auto simp: filter_empty_conv)
  with Cons show ?case by simp
qed simp

lemma dropWhile_less_filter:
  "sorted (map fst es) \<Longrightarrow> dropWhile (\<lambda>e. fst e < q) es = filter (\<lambda>e. (q :: string) \<le> fst e) es"
proof (induction es)
  case (Cons e es)
  have "filter (\<lambda>e. q \<le> fst e) es = es" if "q \<le> fst e"
    using Cons.prems that by (auto simp: filter_id_conv)
  with Cons show ?case by (auto simp: not_less dest: leD)
qed simp

lemma takeWhile_rev_filter:
  "sorted (map fst es) \<Longrightarrow> takeWhile (\<lambda>e. (p :: string) \<le> fst e) (rev es) = rev (filter (\<lambda>e. p \<le> fst e) es)"
proof (induction es rule: rev_induct)
  case (snoc e es)
  have "filter (\<lambda>e. p \<le> fst e) es = []" if "\<not> p \<le> fst e"
    using snoc.prems that by (auto simp: filter_empty_conv sorted_append)
  with snoc show ?case by (simp add: sorted_append)
qed simp

lemma takeWhile_run_reversed:
  assumes "sorted (map fst es)" and "p \<noteq> []" and "of_char (last p) < (255 :: nat)"
    and "first_after p = Inr q"
  shows "takeWhile (in_prefix p) (rev (takeWhile (\<lambda>e. fst e < q) es)) = rev (filter (in_prefix p) es)"
proof -
  note iv = prefix_interval [OF assms(2-4)]
  let ?t = "filter (\<lambda>e. fst e < q) es"
  have "sorted (map fst ?t)" using assms(1) by (metis sorted_filter)
  moreover have "takeWhile (in_prefix p) (rev ?t) = takeWhile (\<lambda>e. p \<le> fst e) (rev ?t)"
    by (rule takeWhile_cong) (auto simp: starts_with_prefix iv)
  ultimately have "takeWhile (in_prefix p) (rev ?t) = rev (filter (\<lambda>e. p \<le> fst e) ?t)"
    by (simp add: takeWhile_rev_filter)
  also have "filter (\<lambda>e. p \<le> fst e) ?t = filter (in_prefix p) es"
    unfolding filter_filter by (rule filter_cong) (auto simp: starts_with_prefix iv)
  finally show ?thesis by (simp add: takeWhile_less_filter assms(1))
qed

text \<open>The counter after a scan: it stopped at the bound, or it counted every hit.\<close>

lemma scan_loop_counter:
  "scan_loop cont hit emit skip limit es i a = Inr (j, b) \<Longrightarrow>
     j = i + int (length (filter hit (takeWhile cont es))) \<or>
     limit \<noteq> -1 \<and> j = upperbound skip limit \<and> i < j \<and>
       j \<le> i + int (length (filter hit (takeWhile cont es)))"
proof (induction es arbitrary: i a)
  case (Cons e es)
  then show ?case
    by (fastforce simp: finished_def split: if_splits sum.splits)
qed simp

lemma picked_append:
  "picked skip limit i (xs @ ys) =
     picked skip limit i xs @ picked skip limit (i + int (length xs)) ys"
  by (induction xs arbitrary: i) (simp_all add: algebra_simps)

context rocksdb
begin

lemma query_run:
  "filter (key_hit wild) (takeWhile (in_prefix (before_star wild)) (seek_entries R s wild)) =
   matching (entries (db s)) wild"
  by (simp add: seek_run matching_def conj_commute)

lemma query_scan:
  assumes "window_ok skip limit"
  shows "scan_from (in_prefix (before_star wild)) (key_hit wild) emit skip limit
      (seek_entries R s wild) (-1) a =
    fold_res emit (window skip limit (matching (entries (db s)) wild)) a"
  by (simp add: scan.loop_window [OF assms] query_run)

text \<open>The run of a backward query, when there is a key after the prefix to start from.\<close>

lemma reverse_run:
  assumes "before_star wild \<noteq> []" and "of_char (last (before_star wild)) < (255 :: nat)"
    and "first_after (before_star wild) = Inr q" and "\<exists>k v. rocks_Get R (db s) k = Some v \<and> q \<le> k"
  shows "\<exists>es. reverse_entries R s wild = Inr es \<and>
    filter (key_hit wild) (takeWhile (in_prefix (before_star wild)) es) =
    rev (matching (entries (db s)) wild)"
proof -
  let ?before = "takeWhile (\<lambda>e. fst e < q) (entries (db s))"
  let ?after = "dropWhile (\<lambda>e. fst e < q) (entries (db s))"
  obtain k v where "(k, v) \<in> set (entries (db s))" "q \<le> k"
    using assms(4) entries_iff by blast
  then have "?after \<noteq> []" by (force simp: dropWhile_eq_Nil_conv not_less)
  then obtain e after where after: "?after = e # after" by (cases ?after) auto
  have "it_prev (rocks_Seek R (db s) q) = it_prev (rev ?before, e # after)"
    by (simp add: seek after)
  then have "\<exists>it. it_prev (rocks_Seek R (db s) q) = Inr it \<and> it_backwards it = rev ?before"
    by (cases "rev ?before") auto
  then have "reverse_entries R s wild = Inr (rev ?before)"
    using assms(3) by (auto simp: reverse_entries_def)
  moreover have "filter (key_hit wild) (rev (filter (in_prefix (before_star wild)) (entries (db s)))) =
      rev (matching (entries (db s)) wild)"
    by (simp add: matching_def rev_filter [symmetric] conj_commute)
  ultimately show ?thesis
    using takeWhile_run_reversed [OF entries_sorted assms(1-3), of "db s"] by simp
qed

lemma reverse_undefined:
  assumes "before_star wild \<noteq> []" and "first_after (before_star wild) = Inr q"
    and "\<forall>k v. rocks_Get R (db s) k = Some v \<longrightarrow> k < q"
  shows "reverse_entries R s wild = Inl Undefined"
proof -
  have "dropWhile (\<lambda>e. fst e < q) (entries (db s)) = []"
    using assms(3) entries_iff by (auto simp: dropWhile_eq_Nil_conv)
  then have "rocks_Seek R (db s) q = (rev (takeWhile (\<lambda>e. fst e < q) (entries (db s))), [])"
    unfolding seek by simp
  then show ?thesis by (simp add: reverse_entries_def assms(2))
qed

text \<open>Several patterns share one counter, so the window runs over the hits of all of them.\<close>

lemma getAll_wilds_picked:
  "\<forall>w \<in> set wilds. \<not> star_first w \<Longrightarrow>
   getAll_wilds R emit skip limit s wilds True i acc =
     fold_res emit (picked skip limit (i + 1) (concat (map (matching (entries (db s))) wilds))) acc"
proof (induction wilds arbitrary: i acc)
  case (Cons w wilds)
  let ?scan = "scan_loop (in_prefix (before_star w)) (key_hit w) emit skip limit
    (seek_entries R s w) i acc"
  let ?hits = "matching (entries (db s)) w"
  let ?more = "concat (map (matching (entries (db s))) wilds)"
  have run: "fold_res emit (picked skip limit (i + 1) ?hits) acc = res_bind ?scan (\<lambda>(j, b). Inr b)"
    using scan.loop_picked [of _ _ emit skip limit "seek_entries R s w" i acc]
    by (simp add: scan_from_def query_run [symmetric])
  have more: "picked skip limit (j + 1) ?more = picked skip limit (i + 1 + int (length ?hits)) ?more"
    if "?scan = Inr (j, b)" for j b
    using scan_loop_counter [OF that] picked_after_finish [of limit skip _ ?more]
    unfolding query_run by (auto simp: add_ac)
  show ?case
  proof (cases ?scan)
    case (Inl e)
    then show ?thesis using Cons.prems run by (simp add: picked_append fold_res_append)
  next
    case (Inr jb)
    then obtain j b where "?scan = Inr (j, b)" by (cases jb) simp
    then show ?thesis using Cons run more [of j b] by (simp add: picked_append fold_res_append)
  qed
qed simp

text \<open>The announcements of a removal by wildcard.\<close>

lemma batch_delete_all:
  "fold_res (batch_delete L) es (batch, n, s) =
     Inr (batch @ map fst es, n + int (length es), fold (removeRequest L) (map fst es) s)"
  by (induction es arbitrary: batch n s) (simp_all add: batch_delete_def)

end

lemma removeRequests_fields:
  "db (fold (removeRequest L) ks s) = db s" "cacheMap (fold (removeRequest L) ks s) = cacheMap s"
  "same_role s (fold (removeRequest L) ks s)"
  "published (fold (removeRequest L) ks s) =
     published s @ (if isWriter s then map (write_message L) (map Removed ks) else [])"
  "httpLog (fold (removeRequest L) ks s) =
     httpLog s @ (if hasLogger s then map (write_request (loggerUrl s)) (map Removed ks) else [])"
  by (induction ks arbitrary: s) (simp_all add: same_role_def)

context rocksdb
begin

lemma removeAll_run:
  assumes "dbOk s" and "\<not> star_first wild" and "window_ok skip limit"
  shows "\<exists>ks d. ks = map fst (window skip limit (matching (entries (db s)) wild)) \<and>
    removeAll R L wild skip limit s =
      (Inr (int (length ks)), (fold (removeRequest L) ks s)\<lparr>db := d\<rparr>) \<and>
    d = snd (rocks_Write R (db s) ks)"
  using assms by (simp add: removeAll_def query_scan batch_delete_all removeRequests_fields(1))

lemma logged_removeAll:
  assumes "rocks_reliable R" and "window_ok skip limit"
  shows "logged R L (if dbOk s \<and> \<not> star_first wild
      then map Removed (map fst (window skip limit (matching (entries (db s)) wild))) else [])
    s (snd (removeAll R L wild skip limit s))"
proof (cases "dbOk s \<and> \<not> star_first wild")
  case True
  then obtain ks d where ks: "ks = map fst (window skip limit (matching (entries (db s)) wild))"
    and run: "removeAll R L wild skip limit s =
      (Inr (int (length ks)), (fold (removeRequest L) ks s)\<lparr>db := d\<rparr>)"
    and d: "d = snd (rocks_Write R (db s) ks)"
    using removeAll_run [of s wild skip limit L] assms(2) by blast
  have "rocks_Write R (db s) ks = (True, d)"
    using assms(1) d by (simp add: rocks_reliable_def prod_eq_iff)
  then have "rocks_Get R d = remove_keys ks (contents R s)" by (rule write_ok)
  then have "logged R L (map Removed ks) s ((fold (removeRequest L) ks s)\<lparr>db := d\<rparr>)"
    using removeRequests_fields [where L = L and ks = ks and s = s]
    by (auto simp: logged_def apply_writes_Removed same_role_def coherent_def map_le_def
        remove_keys_def dom_def)
  then show ?thesis using True run ks by simp
qed (auto simp: removeAll_def)

end

end
