(* ===== verification/Requests.thy ===== *)
theory Requests
  imports Scan_Laws
begin

text \<open>
  \<open>Core::atom\<close>, the batch of removals and insertions, and the writing requests of a node as
  one transition function, so that properties of whole histories can be stated: replication
  and the coherence of the cache.
\<close>

section \<open>The batch operation\<close>

definition atom_remove :: "'db rocks \<Rightarrow> lib \<Rightarrow> rvalue \<Rightarrow> ('db, bool \<times> string) op" where
  "atom_remove R L x s =
     (case r_has x ''remove'' of
        Inl e \<Rightarrow> (Inl e, s)
      | Inr False \<Rightarrow> (Inr (True, ''{\"removed\":0,\"result\":true}''), s)
      | Inr True \<Rightarrow>
          (case res_bind (r_get x ''remove'') (wvalue_of_rvalue L) of
             Inl e \<Rightarrow> (Inl e, s)
           | Inr w \<Rightarrow> removeAtom_body R L (dump_json L w) s))"

definition atom_removeall :: "'db rocks \<Rightarrow> lib \<Rightarrow> rvalue \<Rightarrow> string \<Rightarrow> ('db, string) op" where
  "atom_removeall R L x removedResult s =
     (case r_has x ''removeall'' of
        Inl e \<Rightarrow> (Inl e, s)
      | Inr False \<Rightarrow> (Inr removedResult, s)
      | Inr True \<Rightarrow>
          (case res_bind (r_get x ''removeall'') r_s of
             Inl e \<Rightarrow> (Inl e, s)
           | Inr wild \<Rightarrow>
               (case removeAll R L wild 0 (-1) s of
                  (Inl e, s1) \<Rightarrow> (Inl e, s1)
                | (Inr removed, s1) \<Rightarrow> (Inr (''{\"removed\":'' @ to_string removed @ ''}''), s1))))"

definition atom_put :: "'db rocks \<Rightarrow> lib \<Rightarrow> rvalue \<Rightarrow> ('db, bool \<times> string) op" where
  "atom_put R L x s =
     (case r_has x ''put'' of
        Inl e \<Rightarrow> (Inl e, s)
      | Inr False \<Rightarrow> (Inr (True, ''{\"put\":0,\"result\":true}''), s)
      | Inr True \<Rightarrow>
          (case res_bind (r_get x ''put'') (wvalue_of_rvalue L) of
             Inl e \<Rightarrow> (Inl e, s)
           | Inr w \<Rightarrow> putAtom_body R L (dump_json L w) s))"

definition atom :: "'db rocks \<Rightarrow> lib \<Rightarrow> string \<Rightarrow> ('db, bool \<times> string) op" where
  "atom R L body s =
     (case load body of
        None \<Rightarrow> (Inr (False, ''{\"result\":false, \"error\": \"invalid atom body\"}''), s)
      | Some x \<Rightarrow>
          (case atom_remove R L x s of
             (Inl e, s1) \<Rightarrow> (Inl e, s1)
           | (Inr (ret, removedResult), s1) \<Rightarrow>
               (case atom_removeall R L x removedResult s1 of
                  (Inl e, s2) \<Rightarrow> (Inl e, s2)
                | (Inr removedResult', s2) \<Rightarrow>
                    if \<not> ret then (Inr (False, ''{\"result\":false}''), s2)
                    else (case atom_put R L x s2 of
                        (Inl e, s3) \<Rightarrow> (Inl e, s3)
                      | (Inr (ret', putResult), s3) \<Rightarrow>
                          (Inr (ret', if ret' then ''{\"result\":true,\"affected\":['' @ removedResult' @
                             '','' @ putResult @ '']}'' else ''{\"result\":false}''), s3)))))"

section \<open>Requests\<close>

datatype request =
    Dump string string
  | Put string
  | Post string
  | PutAtom string
  | Get string
  | Remove string
  | RemoveAll string int int
  | RemoveAtom string
  | Atom string
  | Increment string int
  | IncrementValue string
  | MakePair string string

fun serve :: "'db rocks \<Rightarrow> lib \<Rightarrow> request \<Rightarrow> 'db core \<Rightarrow> 'db core" where
  "serve R L (Dump k v) s = snd (dump R L k v s)"
| "serve R L (Put body) s = snd (put R L body s)"
| "serve R L (Post body) s = snd (post R L body s)"
| "serve R L (PutAtom body) s = snd (putAtom_body R L body s)"
| "serve R L (Get k) s = snd (get R k s)"
| "serve R L (Remove k) s = snd (remove_key R L k s)"
| "serve R L (RemoveAll wild skip limit) s = snd (removeAll R L wild skip limit s)"
| "serve R L (RemoveAtom body) s = snd (removeAtom_body R L body s)"
| "serve R L (Atom body) s = snd (atom R L body s)"
| "serve R L (Increment k n) s = snd (increment R L k n s)"
| "serve R L (IncrementValue body) s = snd (incrementValue R L body s)"
| "serve R L (MakePair uuid body) s = snd (makePair R L uuid body WNull s)"

definition serve_all :: "'db rocks \<Rightarrow> lib \<Rightarrow> request list \<Rightarrow> 'db core \<Rightarrow> 'db core" where
  "serve_all R L rqs s = fold (serve R L) rqs s"

text \<open>Windows of removals whose bounds are 32-bit integers.\<close>

fun request_ok :: "request \<Rightarrow> bool" where
  "request_ok (RemoveAll wild skip limit) = window_ok skip limit"
| "request_ok _ = True"

lemma window_ok_default: "window_ok 0 (-1)"
  by (simp add: window_ok_def INT_MAX_def INT_MIN_def)

context rocksdb
begin

lemma refines_insert_body: "refines R L s (snd (insert_body R L fe body s))"
  by (auto simp: insert_body_def refines_insert split: option.split)

lemma refines_putAtom_body: "refines R L s (snd (putAtom_body R L body s))"
  by (auto simp: putAtom_body_def refines_putAtom split: option.split)

lemma refines_removeAtom_body: "refines R L s (snd (removeAtom_body R L body s))"
  by (auto simp: removeAtom_body_def refines_removeAtom split: option.split)

lemma refines_removeAll:
  "rocks_reliable R \<Longrightarrow> window_ok skip limit \<Longrightarrow> refines R L s (snd (removeAll R L wild skip limit s))"
  by (rule loggedI, rule logged_removeAll)

lemma refines_atom_remove: "refines R L s (snd (atom_remove R L x s))"
  by (auto simp: atom_remove_def refines_removeAtom_body split: sum.split bool.split)

lemma refines_atom_put: "refines R L s (snd (atom_put R L x s))"
  by (auto simp: atom_put_def refines_putAtom_body split: sum.split bool.split)

lemma refines_atom_removeall:
  assumes "rocks_reliable R"
  shows "refines R L s (snd (atom_removeall R L x res s))"
proof -
  have "refines R L s s1" if "removeAll R L wild 0 (-1) s = (r, s1)" for wild r s1
    using refines_removeAll [OF assms window_ok_default, of L s wild] that by simp
  then show ?thesis
    by (auto simp: atom_removeall_def split: sum.split bool.split prod.split)
qed

lemma refines_atom:
  assumes "rocks_reliable R"
  shows "refines R L s (snd (atom R L body s))"
proof (cases "load body")
  case (Some x)
  obtain r1 s1 where 1: "atom_remove R L x s = (r1, s1)" by fastforce
  have s1: "refines R L s s1" using refines_atom_remove [of L s x] 1 by simp
  have 2: "refines R L s s2" if "atom_removeall R L x res s1 = (r2, s2)" for res r2 s2
    using refines_trans [OF s1] refines_atom_removeall [OF assms, of L s1 x res] that by simp
  have 3: "refines R L s s3" if "refines R L s s2" "atom_put R L x s2 = (r3, s3)" for s2 r3 s3
    using refines_trans [OF that(1)] refines_atom_put [of L s2 x] that(2) by simp
  show ?thesis using 1 s1
    by (auto simp: atom_def Some split: sum.split prod.split dest: 2 3)
qed (simp add: atom_def)

lemma refines_serve:
  assumes "rocks_reliable R" and "request_ok rq"
  shows "refines R L s (serve R L rq s)"
proof (cases rq)
  case (Get k)
  then show ?thesis using loggedI [OF logged_get [of R L s k]] by simp
next
  case (RemoveAll wild skip limit)
  then show ?thesis using assms refines_removeAll by simp
qed (simp_all add: refines_dump refines_insert_body refines_putAtom_body refines_remove put_def post_def
      refines_removeAtom_body refines_atom assms refines_increment refines_incrementValue refines_makePair)

lemma refines_serve_all:
  assumes "rocks_reliable R" and "list_all request_ok rqs"
  shows "refines R L s (serve_all R L rqs s)"
  using assms(2) unfolding serve_all_def
proof (induction rqs arbitrary: s)
  case (Cons rq rqs)
  then show ?case
    using refines_trans [OF refines_serve [OF assms(1), of rq L s]] by simp
qed simp

end

section \<open>Histories\<close>

text \<open>C1: a reader that starts with the contents of a writer node and applies, in order, the
  messages the writer published while it served any sequence of requests (batches, removals
  by wildcard, counters, requests that end in an exception) applies them all without an
  exception and ends with exactly the writer's contents.\<close>

theorem replication_converges:
  assumes "rocksdb R entries" and "rocks_reliable R" and "um_order_ok L"
    and "list_all request_ok rqs" and "isWriter s" and "dbOk r" and "contents R r = contents R s"
  shows "\<exists>msgs d. published (serve_all R L rqs s) = published s @ msgs \<and>
    qcSave_all R msgs r = (Inr (), r\<lparr>db := d\<rparr>) \<and> rocks_Get R d = contents R (serve_all R L rqs s)"
  using rocksdb.refines_replicate [OF assms(1,3,2) rocksdb.refines_serve_all [OF assms(1,2,4)]
      assms(5-7)] .

theorem replication_converges_witness:
  "\<exists>msgs d. published (serve_all mem_rocks mem_lib [Dump ''a'' ''1'', Remove ''a'', Increment ''n'' 2]
      ((mem_node [(''n'', ''5'')])\<lparr>isWriter := True\<rparr>)) =
      published ((mem_node [(''n'', ''5'')])\<lparr>isWriter := True\<rparr>) @ msgs \<and>
    qcSave_all mem_rocks msgs (mem_node [(''n'', ''5'')]) =
      (Inr (), (mem_node [(''n'', ''5'')])\<lparr>db := d\<rparr>) \<and>
    rocks_Get mem_rocks d = contents mem_rocks (serve_all mem_rocks mem_lib
      [Dump ''a'' ''1'', Remove ''a'', Increment ''n'' 2] ((mem_node [(''n'', ''5'')])\<lparr>isWriter := True\<rparr>))"
  by (rule replication_converges [OF mem.rocksdb_axioms mem_reliable mem_lib_order])
    (simp_all add: mem_node_def)

text \<open>C10: a node whose cache holds every entry of its database serves any sequence of requests
  and still has every entry of its database in the cache, so that a cached read of a key that
  is stored always gives the stored value.\<close>

theorem cache_stays_coherent:
  assumes "rocksdb R entries" and "rocks_reliable R" and "list_all request_ok rqs"
    and "cacheEnabled s" and "coherent R s" and "contents R (serve_all R L rqs s) k = Some v"
  shows "fst (get R k (serve_all R L rqs s)) = (True, v)"
proof -
  obtain ws where "logged R L ws s (serve_all R L rqs s)"
    using rocksdb.refines_serve_all [OF assms(1-3)] by (auto simp: refines_def)
  then have "coherent R (serve_all R L rqs s)" "cacheEnabled (serve_all R L rqs s)"
    using assms(4,5) by (auto simp: logged_def same_role_def)
  then show ?thesis using assms(6)
    by (auto simp: coherent_def map_le_def dom_def get_def GetCached_def)
qed

theorem cache_stays_coherent_witness:
  "fst (get mem_rocks ''a'' (serve_all mem_rocks mem_lib [Get ''b'', Dump ''a'' ''2'']
     ((mem_node [])\<lparr>cacheEnabled := True\<rparr>))) = (True, ''2'')"
proof (rule cache_stays_coherent [OF mem.rocksdb_axioms mem_reliable])
  have "mem_entries (mem_of []) = []" by code_simp
  then show "coherent mem_rocks ((mem_node [])\<lparr>cacheEnabled := True\<rparr>)"
    using mem.lookup_entries [of "mem_of []"] by (simp add: coherent_def mem_node_def)
  show "contents mem_rocks (serve_all mem_rocks mem_lib [Get ''b'', Dump ''a'' ''2'']
     ((mem_node [])\<lparr>cacheEnabled := True\<rparr>)) ''a'' = Some ''2''"
    by code_simp
qed (simp_all add: mem_node_def)

end
