(* ===== verification/Queries.thy ===== *)
theory Queries
  imports Scan
begin

text \<open>
  The composite queries of \<^verbatim>\<open>src/quarks.cpp\<close>: joins of keys with the values stored under keys
  derived from them (\<open>getJoinedMap\<close>), what follows a key (\<open>getAfter\<close>, \<open>getKeysAfter\<close>), the last
  key of a run (\<open>getLast\<close>, \<open>getKeysLast\<close>), the search with an included lookup (\<open>searchJson\<close>, the
  build without the script engine), and the older \<open>prefixIter\<close>. The status of an iterator is
  taken to be ok.
\<close>

section \<open>Splitting\<close>

text \<open>\<open>tokenize\<close>: \<^verbatim>\<open>std::getline\<close> until the stream is exhausted.\<close>

function tokenize :: "char \<Rightarrow> string \<Rightarrow> string list" where
  "tokenize delim xs =
     (if xs = [] then []
      else takeWhile (\<lambda>c. c \<noteq> delim) xs # tokenize delim (tl (dropWhile (\<lambda>c. c \<noteq> delim) xs)))"
  by pat_completeness auto
termination
proof (relation "measure (\<lambda>(d, xs). length xs)")
  fix delim and xs :: string
  assume "xs \<noteq> []"
  then have "length (tl (dropWhile (\<lambda>c. c \<noteq> delim) xs)) < length xs"
    using length_dropWhile_le [of "\<lambda>c. c \<noteq> delim" xs] by (cases xs) auto
  then show "((delim, tl (dropWhile (\<lambda>c. c \<noteq> delim) xs)), delim, xs) \<in> measure (\<lambda>(d, xs). length xs)"
    by simp
qed simp

declare tokenize.simps [simp del]

text \<open>\<^verbatim>\<open>splitby[0]\<close>, which is the terminator for an empty string.\<close>

definition first_char :: "string \<Rightarrow> char" where
  "first_char splitby = peek splitby"

text \<open>The selected part of a key, or the whole key when it has too few parts.\<close>

definition final_key :: "string option \<Rightarrow> int \<Rightarrow> string \<Rightarrow> string" where
  "final_key splitby selindex key =
     (let tokens = (case splitby of None \<Rightarrow> [] | Some sp \<Rightarrow> tokenize (first_char sp) key) in
      if selindex > -1 \<and> selindex < int (length tokens) then tokens ! nat selindex else key)"

section \<open>Joined maps\<close>

text \<open>Optional members of the request.\<close>

definition opt_member :: "rvalue \<Rightarrow> string \<Rightarrow> (rvalue \<Rightarrow> 'a res) \<Rightarrow> 'a option res" where
  "opt_member x k conv =
     res_bind (r_has x k) (\<lambda>has.
       if has then res_bind (res_bind (r_get x k) conv) (\<lambda>a. Inr (Some a)) else Inr None)"

text \<open>The keys collected by the scan, then those of the list; an exception in the list keeps
  the ones before it.\<close>

definition push_key :: "(string \<Rightarrow> string) \<Rightarrow> string \<times> string \<Rightarrow> string list \<Rightarrow> string list res" where
  "push_key fk e acc = Inr (acc @ [fk (fst e)])"

fun list_keys :: "(string \<Rightarrow> string) \<Rightarrow> (string \<times> rvalue) list \<Rightarrow> string list \<Rightarrow> exc option \<times> string list" where
  "list_keys fk [] acc = (None, acc)"
| "list_keys fk ((u, kl) # kls) acc =
     (case r_s kl of Inl e \<Rightarrow> (Some e, acc) | Inr key \<Rightarrow> list_keys fk kls (acc @ [fk key]))"

text \<open>The lookups of one prefix and suffix; the object filled so far survives an exception.\<close>

fun join_one ::
    "'db rocks \<Rightarrow> lib \<Rightarrow> 'db core \<Rightarrow> string \<Rightarrow> string \<Rightarrow> string list \<Rightarrow> wvalue \<Rightarrow> exc option \<times> wvalue" where
  "join_one R L s prefx suffx [] w = (None, w)"
| "join_one R L s prefx suffx (k # ks) w =
     (case rocks_Get R (db s) (prefx @ k @ suffx) of
        None \<Rightarrow> join_one R L s prefx suffx ks w
      | Some v \<Rightarrow>
          (case wvalue_of L (load v) of
             Inl e \<Rightarrow> (Some e, w)
           | Inr x \<Rightarrow> join_one R L s prefx suffx ks (w_set w (prefx @ k @ suffx) x)))"

text \<open>The loop over the joins: a failed one is skipped and clears the result flag.\<close>

fun join_all ::
    "'db rocks \<Rightarrow> lib \<Rightarrow> 'db core \<Rightarrow> string list \<Rightarrow> (string \<times> rvalue) list \<Rightarrow> bool \<times> wvalue \<Rightarrow> (bool \<times> wvalue) res" where
  "join_all R L s ks [] acc = Inr acc"
| "join_all R L s ks ((u, v) # vs) (ret, w) =
     (case (case (res_bind (r_get v ''prefix'') r_s, res_bind (r_get v ''suffix'') r_s) of
              (Inl e, _) \<Rightarrow> (Some e, w)
            | (Inr p, Inl e) \<Rightarrow> (Some e, w)
            | (Inr p, Inr sfx) \<Rightarrow> join_one R L s p sfx ks w) of
        (None, w') \<Rightarrow> join_all R L s ks vs (ret, w')
      | (Some e, w') \<Rightarrow> if e = RuntimeError then join_all R L s ks vs (False, w') else Inl e)"

definition getJoinedMap ::
    "'db rocks \<Rightarrow> lib \<Rightarrow> rvalue \<Rightarrow> wvalue list \<Rightarrow> int \<Rightarrow> int \<Rightarrow> 'db core \<Rightarrow> results res" where
  "getJoinedMap R L args rs skip limit s =
     (if \<not> dbOk s then Inr (False, rs)
      else
        res_bind (r_member_or args ''keys'' r_s []) (\<lambda>wild.
        res_bind (r_has args ''keylist'') (\<lambda>hasKeyList.
        res_bind (opt_member args ''splitby'' r_s) (\<lambda>splitby.
        res_bind (r_member_or args ''selindex'' (\<lambda>v. res_bind (r_i L v) (\<lambda>i. Inr (wrap32 i))) (-1)) (\<lambda>selindex.
        res_bind (r_get args ''join'') (\<lambda>join.
        if star_first wild \<and> \<not> hasKeyList then Inr (False, rs)
        else
          let fk = final_key splitby selindex in
          res_bind (if star_first wild then Inr []
                    else scan_from (in_prefix (before_star wild)) (key_hit wild) (push_key fk) skip limit
                           (seek_entries R s wild) (-1) []) (\<lambda>ks1.
          res_bind (if hasKeyList then
                      (case (case res_bind (r_get args ''keylist'') r_members of
                               Inl e \<Rightarrow> (Some e, ks1) | Inr kls \<Rightarrow> list_keys fk kls ks1) of
                         (None, ks) \<Rightarrow> Inr (True, ks)
                       | (Some e, ks) \<Rightarrow> if e = RuntimeError then Inr (False, ks) else Inl e)
                    else Inr (True, ks1)) (\<lambda>(ret, ks).
          res_bind (r_members join) (\<lambda>vs.
          res_bind (join_all R L s ks vs (ret, WNull)) (\<lambda>(ret', w).
            Inr (ret', rs @ [WList (map WString ks), w])))))))))))"

text \<open>
  The older form: prefixes and suffixes are collected first, and a join without a suffix leaves
  the two vectors shorter than the loop bound; reading past the end is undefined.
\<close>

fun join_parts :: "(string \<times> rvalue) list \<Rightarrow> bool \<times> string list \<times> string list \<Rightarrow> (bool \<times> string list \<times> string list) res" where
  "join_parts [] acc = Inr acc"
| "join_parts ((u, v) # vs) (ret, ps, ss) =
     (case res_bind (r_get v ''prefix'') r_s of
        Inl e \<Rightarrow> if e = RuntimeError then join_parts vs (False, ps, ss) else Inl e
      | Inr p \<Rightarrow>
          (case res_bind (r_get v ''suffix'') r_s of
             Inl e \<Rightarrow> if e = RuntimeError then join_parts vs (False, ps @ [p], ss) else Inl e
           | Inr sfx \<Rightarrow> join_parts vs (ret, ps @ [p], ss @ [sfx])))"

fun join_indexed ::
    "'db rocks \<Rightarrow> lib \<Rightarrow> 'db core \<Rightarrow> string \<Rightarrow> nat \<Rightarrow> string list \<Rightarrow> string list \<Rightarrow> wvalue \<Rightarrow> wvalue res" where
  "join_indexed R L s k 0 ps ss w = Inr w"
| "join_indexed R L s k (Suc n) (p # ps) (sfx # ss) w =
     (case rocks_Get R (db s) (p @ k @ sfx) of
        None \<Rightarrow> join_indexed R L s k n ps ss w
      | Some v \<Rightarrow> res_bind (wvalue_of L (load v)) (\<lambda>x.
          join_indexed R L s k n ps ss (w_set w (p @ k @ sfx) x)))"
| "join_indexed R L s k (Suc n) _ _ w = Inl Undefined"

definition push_joined ::
    "'db rocks \<Rightarrow> lib \<Rightarrow> 'db core \<Rightarrow> char \<Rightarrow> int \<Rightarrow> nat \<Rightarrow> string list \<Rightarrow> string list \<Rightarrow>
     string \<times> string \<Rightarrow> string list \<times> wvalue \<Rightarrow> (string list \<times> wvalue) res" where
  "push_joined R L s delim selindex joinSize ps ss e acc =
     (let tokens = tokenize delim (fst e) in
      if 0 \<le> selindex \<and> selindex < int (length tokens) then
        let k = tokens ! nat selindex in
        res_bind (join_indexed R L s k joinSize ps ss (snd acc)) (\<lambda>w. Inr (fst acc @ [k], w))
      else Inr acc)"

definition getJoinedMapWildcardOnly ::
    "'db rocks \<Rightarrow> lib \<Rightarrow> rvalue \<Rightarrow> wvalue list \<Rightarrow> int \<Rightarrow> int \<Rightarrow> 'db core \<Rightarrow> results res" where
  "getJoinedMapWildcardOnly R L args rs skip limit s =
     (if \<not> dbOk s then Inr (False, rs)
      else
        res_bind (res_bind (r_get args ''keys'') r_s) (\<lambda>wild.
        res_bind (res_bind (r_get args ''splitby'') r_s) (\<lambda>splitby.
        res_bind (res_bind (r_get args ''selindex'') (r_i L)) (\<lambda>selindex.
        res_bind (r_get args ''join'') (\<lambda>join.
        if star_first wild then Inr (False, rs)
        else
          res_bind (r_size join) (\<lambda>joinSize.
          res_bind (r_members join) (\<lambda>vs.
          res_bind (join_parts vs (True, [], [])) (\<lambda>(ret, ps, ss).
          res_bind (scan_from (in_prefix (before_star wild)) (key_hit wild)
                     (push_joined R L s (first_char splitby) selindex joinSize ps ss) skip limit
                     (seek_entries R s wild) (-1) ([], WNull)) (\<lambda>(ks, w).
            Inr (ret, rs @ [WList (map WString ks), w]))))))))))"

section \<open>What follows a key\<close>

text \<open>\<open>Seek\<close> to the key, then one \<open>Next()\<close> whatever the iterator stands on.\<close>

definition after_entries :: "'db rocks \<Rightarrow> 'db core \<Rightarrow> string \<Rightarrow> (string \<times> string) list" where
  "after_entries R s key = tl (snd (rocks_Seek R (db s) key))"

definition getAfter ::
    "'db rocks \<Rightarrow> lib \<Rightarrow> string \<Rightarrow> string \<Rightarrow> wvalue list \<Rightarrow> int \<Rightarrow> int \<Rightarrow> 'db core \<Rightarrow> results res" where
  "getAfter R L key pre rs skip limit s =
     (if \<not> dbOk s then Inr (False, rs)
      else scan_from (in_prefix pre) (\<lambda>e. True) (push_pair L) skip limit (after_entries R s key) (-1) (True, rs))"

text \<open>
  \<open>getKeysAfter\<close>: a list of prefix and key in turn. The vector \<open>out\<close> is moved from element by
  element but keeps its length, so the next listing is appended to empty objects.
\<close>

definition moved_from :: "wvalue list \<Rightarrow> wvalue list" where
  "moved_from ws = map (\<lambda>w. WObject []) ws"

fun pairs_loop ::
    "(string \<Rightarrow> string \<Rightarrow> wvalue list \<Rightarrow> results res) \<Rightarrow> string \<Rightarrow> (string \<times> rvalue) list \<Rightarrow> bool \<Rightarrow> string \<Rightarrow>
     wvalue list \<Rightarrow> wvalue list \<Rightarrow> exc option \<times> wvalue list" where
  "pairs_loop listing field [] isPrefix lastPrefix out rs = (None, rs)"
| "pairs_loop listing field ((u, v) # vs) isPrefix lastPrefix out rs =
     (case r_s v of
        Inl e \<Rightarrow> (Some e, rs)
      | Inr p \<Rightarrow>
          if \<not> isPrefix then pairs_loop listing field vs True p out rs
          else (case listing p lastPrefix out of
              Inl e \<Rightarrow> (Some e, rs)
            | Inr (ret, out') \<Rightarrow>
                if ret then pairs_loop listing field vs False lastPrefix (moved_from out')
                    (rs @ [w_set (w_set WNull field (WList out')) ''key'' (WString p)])
                else pairs_loop listing field vs False lastPrefix out' rs))"

definition pairs_query ::
    "(string \<Rightarrow> string \<Rightarrow> wvalue list \<Rightarrow> results res) \<Rightarrow> string \<Rightarrow> rvalue \<Rightarrow> wvalue list \<Rightarrow> 'db core \<Rightarrow> results res" where
  "pairs_query listing field args rs s =
     (if \<not> dbOk s then Inr (True, rs)
      else case (case r_members args of
                   Inl e \<Rightarrow> (Some e, rs)
                 | Inr vs \<Rightarrow> pairs_loop listing field vs False [] [] rs) of
          (None, rs') \<Rightarrow> Inr (True, rs')
        | (Some e, rs') \<Rightarrow> if e = RuntimeError then Inr (False, rs') else Inl e)"

definition getKeysAfter ::
    "'db rocks \<Rightarrow> lib \<Rightarrow> rvalue \<Rightarrow> wvalue list \<Rightarrow> int \<Rightarrow> int \<Rightarrow> 'db core \<Rightarrow> results res" where
  "getKeysAfter R L args rs skip limit s =
     pairs_query (\<lambda>p pre out. getAfter R L p pre out skip limit s) ''after'' args rs s"

section \<open>The last key of a run\<close>

text \<open>
  The loop counts the run; then \<open>Prev()\<close> steps back from where the loop stopped, which needs a
  valid iterator.
\<close>

definition last_entry :: "string \<Rightarrow> (string \<times> string) list \<Rightarrow> (int \<times> string \<times> string) option res" where
  "last_entry pre es =
     (let run = takeWhile (in_prefix pre) es in
      if run = [] then Inr None
      else if length run = length es then Inl Undefined
      else Inr (Some (int (length run), last run)))"

definition push_last :: "lib \<Rightarrow> int \<Rightarrow> string \<times> string \<Rightarrow> results \<Rightarrow> results res" where
  "push_last L cnt e acc =
     (let tail = (\<lambda>w. w_set (w_set w ''index'' (WNumber (double_of_int (cnt - 1)))) ''key'' (WString (fst e))) in
      case value_json L (snd e) of
        Inr w \<Rightarrow> Inr (fst acc, snd acc @ [tail (w_set WNull ''value'' w)])
      | Inl x \<Rightarrow> if x = RuntimeError then Inr (False, snd acc @ [error_entry (snd e), tail WNull]) else Inl x)"

definition getLast ::
    "'db rocks \<Rightarrow> lib \<Rightarrow> string \<Rightarrow> string \<Rightarrow> wvalue list \<Rightarrow> 'db core \<Rightarrow> results res" where
  "getLast R L key pre rs s =
     (if \<not> dbOk s then Inr (False, rs)
      else res_bind (last_entry pre (after_entries R s key)) (\<lambda>l.
        case l of None \<Rightarrow> Inr (True, rs) | Some (cnt, e) \<Rightarrow> push_last L cnt e (True, rs)))"

definition getKeysLast ::
    "'db rocks \<Rightarrow> lib \<Rightarrow> rvalue \<Rightarrow> wvalue list \<Rightarrow> 'db core \<Rightarrow> results res" where
  "getKeysLast R L args rs s = pairs_query (\<lambda>p pre out. getLast R L p pre out s) ''last'' args rs s"

section \<open>Search with an included lookup\<close>

text \<open>
  The parameters of the request: the wildcard, the field whose value is a key to look up, and
  the field its value is stored in. The sort order is read, and checked, but not used.
\<close>

definition search_params :: "lib \<Rightarrow> rvalue \<Rightarrow> (string \<times> string \<times> string) res" where
  "search_params L args =
     res_bind (wvalue_of_rvalue L args) (\<lambda>sArgs.
     res_bind (res_bind (r_get args ''keys'') r_s) (\<lambda>wild.
     res_bind (r_has args ''include'') (\<lambda>hasInclude.
     if \<not> hasInclude then Inr (wild, [], ''_includeid'')
     else
       res_bind (res_bind (r_get args ''include'') (wvalue_of_rvalue L)) (\<lambda>inc.
       case load (dump_json L inc) of
         None \<Rightarrow> Inl RuntimeError
       | Some flt \<Rightarrow>
           res_bind (r_has flt ''map'') (\<lambda>hasMap.
           res_bind (if hasMap then
                       res_bind (r_get flt ''map'') (\<lambda>m.
                       res_bind (res_bind (r_get m ''field'') r_s) (\<lambda>field.
                       res_bind (res_bind (r_get m ''as'') r_s) (\<lambda>as. Inr (field, as))))
                     else Inr ([], ''_includeid'')) (\<lambda>(field, as).
           res_bind (r_member_or flt ''sortby'' r_s []) (\<lambda>sortby.
           res_bind (r_member_or flt ''des'' r_b False) (\<lambda>des.
             Inr (wild, field, as)))))))))"

text \<open>
  One hit. The included value is stored inside \<open>value\<close>, which becomes an object if it was none.
  After an exception the entry has been moved out and an empty object follows it.
\<close>

definition search_entry ::
    "'db rocks \<Rightarrow> lib \<Rightarrow> string \<Rightarrow> string \<Rightarrow> string \<times> string \<Rightarrow> 'db core \<Rightarrow> (exc option \<times> wvalue) \<times> 'db core" where
  "search_entry R L mapField mapAs e s =
     (case value_json L (snd e) of
        Inl x \<Rightarrow> ((Some x, WNull), s)
      | Inr v \<Rightarrow>
          (let w = key_value (fst e) v in
           if mapField = [] then ((None, w), s)
           else case (case load (snd e) of None \<Rightarrow> Inl RuntimeError | Some x \<Rightarrow> res_bind (r_get x mapField) r_s) of
               Inl x \<Rightarrow> ((Some x, w), s)
             | Inr mapKey \<Rightarrow>
                 (case getJson R L mapKey s of
                    (Inl x, s1) \<Rightarrow> ((Some x, w), s1)
                  | (Inr None, s1) \<Rightarrow> ((None, w), s1)
                  | (Inr (Some j), s1) \<Rightarrow> ((None, w_set w ''value'' (w_set v mapAs j)), s1))))"

definition push_search ::
    "'db rocks \<Rightarrow> lib \<Rightarrow> string \<Rightarrow> string \<Rightarrow> string \<times> string \<Rightarrow> wvalue list \<times> 'db core \<Rightarrow> (wvalue list \<times> 'db core) res" where
  "push_search R L mapField mapAs e acc =
     (case search_entry R L mapField mapAs e (snd acc) of
        ((None, w), s1) \<Rightarrow> Inr (fst acc @ [w], s1)
      | ((Some x, w), s1) \<Rightarrow>
          if x = RuntimeError
          then Inr (fst acc @ [w_set w ''error'' (WString (snd e)), WObject []], s1) else Inl x)"

definition searchJson ::
    "'db rocks \<Rightarrow> lib \<Rightarrow> rvalue \<Rightarrow> wvalue list \<Rightarrow> int \<Rightarrow> int \<Rightarrow> ('db, results) op" where
  "searchJson R L args rs skip limit s =
     (if \<not> dbOk s then (Inr (False, rs), s)
      else case search_params L args of
          Inl e \<Rightarrow> (Inl e, s)
        | Inr (wild, mapField, mapAs) \<Rightarrow>
            if star_first wild then (Inr (False, rs), s)
            else (case scan_from (in_prefix (before_star wild)) (key_hit wild)
                         (push_search R L mapField mapAs) skip limit (seek_entries R s wild) (-1) (rs, s) of
                Inl e \<Rightarrow> (Inl e, s)
              | Inr (rs', s1) \<Rightarrow> (Inr (True, rs'), s1)))"

section \<open>The older iteration\<close>

text \<open>\<open>prefixIter\<close> converts every hit before it looks at the window, and catches nothing.\<close>

fun prefixIter_loop ::
    "lib \<Rightarrow> string \<Rightarrow> int \<Rightarrow> int \<Rightarrow> (string \<times> string) list \<Rightarrow> int \<Rightarrow> wvalue list \<Rightarrow> wvalue list res" where
  "prefixIter_loop L wild skip limit [] i rs = Inr rs"
| "prefixIter_loop L wild skip limit (e # es) i rs =
     (if \<not> in_prefix (before_star wild) e then Inr rs
      else if key_hit wild e then
        res_bind (value_json L (snd e)) (\<lambda>w.
          let rs' = (if selected skip limit (i + 1) then rs @ [w] else rs) in
          if finished skip limit (i + 1) then Inr rs' else prefixIter_loop L wild skip limit es (i + 1) rs')
      else prefixIter_loop L wild skip limit es i rs)"

definition prefixIter ::
    "'db rocks \<Rightarrow> lib \<Rightarrow> string \<Rightarrow> wvalue list \<Rightarrow> int \<Rightarrow> int \<Rightarrow> 'db core \<Rightarrow> results res" where
  "prefixIter R L wild rs skip limit s =
     (if star_first wild then Inr (False, rs)
      else res_bind (prefixIter_loop L wild skip limit (seek_entries R s wild) (-1) rs)
             (\<lambda>rs'. Inr (True, rs')))"

end
