(* ===== verification/Scan_Props.thy ===== *)
theory Scan_Props
  imports Scan_Laws
begin

text \<open>
  The properties of the listing operations that a client sees: which entries are listed and
  in which order, paging, counting, backward listing and where it is undefined, the text
  replies, removal by wildcard, and listing from the cache.
\<close>

section \<open>Lemmas on results\<close>

text \<open>The pair a listing returns for an entry whose value converts to JSON.\<close>

definition value_ok :: "lib \<Rightarrow> string \<times> string \<Rightarrow> bool" where
  "value_ok L e = (case value_json L (snd e) of Inl x \<Rightarrow> False | Inr w \<Rightarrow> True)"

definition listed :: "lib \<Rightarrow> string \<times> string \<Rightarrow> wvalue" where
  "listed L e = (case value_json L (snd e) of Inl x \<Rightarrow> WNull | Inr w \<Rightarrow> key_value (fst e) w)"

lemma fold_push_pair:
  "list_all (value_ok L) es \<Longrightarrow> fold_res (push_pair L) es (b, rs) = Inr (b, rs @ map (listed L) es)"
  by (induction es arbitrary: rs) (auto simp: push_pair_def value_ok_def listed_def split: sum.splits)

lemma fold_push_cached:
  "list_all (value_ok L) es \<Longrightarrow>
     fold_res (push_cached L False) es (n, rs) = Inr (n + int (length es), rs @ map (listed L) es)"
  by (induction es arbitrary: n rs)
    (auto simp: push_cached_def push_pair_def value_ok_def listed_def split: sum.splits)

lemma list_all_window: "list_all P xs \<Longrightarrow> list_all P (window skip limit xs)"
  using set_window_subset [of skip limit xs] by (auto simp: list_all_iff)

lemma takeWhile_True: "takeWhile (\<lambda>e. True) es = es"
  by simp

lemma fold_count: "fold_res (\<lambda>e n. Inr (n + 1)) es (n :: int) = Inr (n + int (length es))"
  by (induction es arbitrary: n) simp_all

definition json_item :: "string \<times> string \<Rightarrow> string" where
  "json_item e = ''{\"key\":'' @ [DQUOTE] @ fst e @ [DQUOTE] @ '',\"value\":'' @ snd e @ ''}''"

lemma text_item_json: "text_item e = json_item e @ '',''"
  by (simp add: text_item_def json_item_def)

lemma concat_text_items:
  "es \<noteq> [] \<Longrightarrow> concat (map text_item es) = comma_join (map json_item es) @ '',''"
proof (induction es)
  case (Cons e es)
  then show ?case by (cases es) (simp_all add: text_item_json)
qed simp

lemma fold_push_text:
  "fold_res push_text es (n, t) = Inr (n + int (length es), t @ concat (map text_item es))"
  by (induction es arbitrary: n t) (simp_all add: push_text_def)

lemma close_text_items:
  "close_text (int (length es), ''{\"result\":['' @ concat (map text_item es)) =
     ''{\"result\":['' @ comma_join (map json_item es) @ '']}''"
  by (cases "es = []") (simp_all add: close_text_def concat_text_items butlast_append)

text \<open>Consecutive pages.\<close>

lemma window_pages:
  assumes "0 \<le> skip" and "0 \<le> a" and "0 \<le> b"
  shows "window skip a xs @ window (skip + a) b xs = window skip (a + b) xs"
proof -
  have "nat (skip + a) = nat skip + nat a" "nat (a + b) = nat a + nat b"
    using assms by (simp_all add: nat_add_distrib)
  then show ?thesis using assms by (simp add: window_def take_add drop_drop add.commute)
qed

text \<open>A pattern that is a literal prefix and a star.\<close>

lemma before_star_prefix: "STAR \<notin> set p \<Longrightarrow> before_star (p @ ''*'') = p"
  unfolding before_star_def by (induction p) auto

lemma prefix_c_str: "NUL \<notin> set p \<Longrightarrow> prefix p (c_str k) = prefix p k"
proof (induction p arbitrary: k)
  case (Cons c p)
  then show ?case by (cases k) (auto simp: c_str_def)
qed simp

lemma wildcmp_prefix_star:
  assumes "STAR \<notin> set p" and "QUESTION \<notin> set p" and "NUL \<notin> set p"
  shows "wildcmp (p @ ''*'') k = starts_with k p"
proof -
  have "c_str (p @ ''*'') = p @ ''*''" using assms(3) by (intro c_str_id) simp
  then show ?thesis using wild_match_prefix_star [OF assms(1,2)] prefix_c_str [OF assms(3)]
    by (simp add: wildcmp_eq starts_with_prefix)
qed

section \<open>Listing from the cache\<close>

lemma cached_loop_step:
  "hit e \<Longrightarrow> n \<noteq> 0 \<Longrightarrow> cached_loop rvs hit emit skip limit (e # es) n i a =
     res_bind (if selected skip limit (i + 1) then emit e a else Inr a)
       (\<lambda>a'. if finished skip limit (i + 1) then Inr a'
             else cached_loop rvs hit emit skip limit es (n - 1) (i + 1) a')"
  by (simp split: sum.split)

lemma cached_loop_run:
  assumes "list_all hit (b # bs)"
  shows "cached_loop rvs hit emit skip limit ((b # bs) @ es) (int (length bs)) i a =
    fold_res emit (picked skip limit (i + 1) (b # bs)) a"
  using assms
proof (induction bs arbitrary: b i a)
  case Nil
  then show ?case by (auto split: sum.split)
next
  case (Cons c bs)
  have fin: "\<not> selected skip limit (i + 1) \<and> picked skip limit (i + 1 + 1) xs = []"
    if "finished skip limit (i + 1)" for xs :: "(string \<times> string) list"
    using that by (auto simp: finished_def selected_def intro: picked_after_finish)
  have more: "cached_loop rvs hit emit skip limit ((c # bs) @ es) (int (length bs)) (i + 1) a' =
      fold_res emit (picked skip limit (i + 1 + 1) (c # bs)) a'" for a'
    by (rule Cons.IH) (use Cons.prems in simp)
  define cs where "cs = c # bs"
  have cs: "cs \<noteq> []" "int (length cs) - 1 = int (length bs)" by (simp_all add: cs_def)
  show ?case
    using Cons.prems fin [of cs] more cs_def [symmetric]
    by (simp add: cached_loop_step cs del: cached_loop.simps)
qed

lemma cached_scan_prefix:
  assumes "sm_inv m" and "STAR \<notin> set p" and "QUESTION \<notin> set p" and "NUL \<notin> set p"
    and "p \<noteq> []" and "of_char (last p) < (255 :: nat)" and "window_ok skip limit"
    and "\<exists>e \<in> set m. in_prefix p e"
  shows "cached_scan rvs (p @ ''*'') emit skip limit m a =
    fold_res emit (window skip limit ((if rvs then rev else (\<lambda>es. es)) (filter (in_prefix p) m))) a"
proof -
  obtain q where q: "first_after p = Inr q" using assms(5) by (simp add: first_after_def)
  let ?A = "takeWhile (\<lambda>e. fst e < p) m" and ?D = "dropWhile (\<lambda>e. fst e < p) m"
  define B where "B = filter (in_prefix p) m"
  have srt: "sorted (map fst m)" by (rule sm.entries_sorted [OF assms(1)])
  have B: "takeWhile (in_prefix p) ?D = B" using takeWhile_dropWhile_prefix [OF srt] by (simp add: B_def)
  define C where "C = dropWhile (in_prefix p) ?D"
  have D: "?D = B @ C" unfolding C_def B [symmetric] by simp
  have hits: "list_all (key_hit (p @ ''*'')) B"
    by (simp add: B_def list_all_iff wildcmp_prefix_star [OF assms(2-4)])
  note iv = prefix_interval [OF assms(5,6) q]
  have low: "p \<le> fst x" if "x \<in> set ?D" for x
    using that dropWhile_less_filter [OF srt] by auto
  have "takeWhile (\<lambda>e. fst e < q) (?A @ ?D) = ?A @ takeWhile (\<lambda>e. fst e < q) ?D"
    using iv [of p] by (intro takeWhile_append2) (auto dest: set_takeWhileD)
  moreover have "takeWhile (\<lambda>e. fst e < q) ?D = takeWhile (in_prefix p) ?D"
    by (rule takeWhile_cong) (use iv low in \<open>auto simp: starts_with_prefix\<close>)
  ultimately have upto: "takeWhile (\<lambda>e. fst e < q) m = ?A @ B" by (simp add: B)
  have "B \<noteq> []" using assms(8) by (auto simp: B_def filter_empty_conv)
  then obtain b bs where bs: "rev B = b # bs" by (cases "rev B") auto
  obtain c cs where cs: "B = c # cs" using \<open>B \<noteq> []\<close> by (cases B) auto
  have len: "length bs = length cs" using bs cs by (metis length_Cons length_rev nat.inject)
  have beginpos: "sm_lower_bound m p = (rev ?A, c # cs @ C)"
    by (simp add: sm_lower_bound_def D cs)
  have endpos: "sm_lower_bound m q = (b # bs @ rev ?A, dropWhile (\<lambda>e. fst e < q) m)"
    by (simp add: sm_lower_bound_def upto bs)
  have star: "\<not> star_first (p @ ''*'')" using assms(2,5) by (cases p) (auto simp: star_first_def)
  note star = star before_star_prefix [OF assms(2)]
  have hits': "list_all (key_hit (p @ ''*'')) (b # bs)" using hits bs by (metis list_all_rev)
  have "cached_scan rvs (p @ ''*'') emit skip limit m a =
      cached_loop rvs (key_hit (p @ ''*'')) emit skip limit
        (if rvs then (b # bs) @ rev ?A else (c # cs) @ C) (int (length cs)) (-1) a"
    using hits hits'
    by (simp add: cached_scan_def star q endpos beginpos len cs del: cached_loop.simps)
  moreover have "cached_loop rvs (key_hit (p @ ''*'')) emit skip limit ((b # bs) @ es)
      (int (length cs)) (-1) a = fold_res emit (window skip limit (rev B)) a" for es
    using cached_loop_run [OF hits', of rvs emit skip limit es "-1" a]
    by (simp only: len bs picked_window [OF assms(7)] add.left_inverse)
  moreover have "cached_loop rvs (key_hit (p @ ''*'')) emit skip limit ((c # cs) @ es)
      (int (length cs)) (-1) a = fold_res emit (window skip limit B) a" for es
    using cached_loop_run [OF hits [unfolded cs], of rvs emit skip limit es "-1" a]
    by (simp only: cs picked_window [OF assms(7)] add.left_inverse)
  ultimately show ?thesis by (simp only: B_def [symmetric] split: if_split) blast
qed

section \<open>Which entries a query lists\<close>

text \<open>An entry of the database is one of those a pattern selects when its key matches: the text before
  the first star, if it holds no question mark, is a prefix of every key that does.\<close>

lemma matching_set:
  assumes "rocksdb R entries" and "QUESTION \<notin> set (before_star wild)" and "NUL \<notin> set wild"
    and "\<And>k v. contents R s k = Some v \<Longrightarrow> NUL \<notin> set k"
  shows "set (matching (entries (db s)) wild) = {(k, v). contents R s k = Some v \<and> wild_match wild k}"
proof -
  note om = rocksdb.axioms(1) [OF assms(1)]
  have "(k, v) \<in> set (matching (entries (db s)) wild) \<longleftrightarrow> contents R s k = Some v \<and> wild_match wild k" for k v
    using ordered_map.entries_iff [OF om] wild_match_prefix [OF assms(2)] assms(3,4)
    by (auto simp: matching_def wildcmp_eq c_str_id starts_with_prefix)
  then show ?thesis by auto
qed

lemma matching_ascends:
  assumes "rocksdb R entries"
  shows "sorted_wrt (<) (map fst (matching (entries (db s)) wild))"
proof -
  note om = rocksdb.axioms(1) [OF assms]
  have "sorted (map fst (entries (db s)))" "distinct (map fst (entries (db s)))"
    using ordered_map.entries_sorted [OF om] ordered_map.entries_distinct [OF om] by simp_all
  then show ?thesis unfolding matching_def strict_sorted_iff
    by (auto intro: sorted_filter distinct_map_filter)
qed

text \<open>C13: \<open>getKeys\<close> and \<open>getCount\<close> without a window, which seek the text before the first star and
  leave the loop at the first key without it, answer as a scan of the whole database would: they list,
  in ascending key order, exactly the stored entries whose key matches the pattern, and count them. The
  exception is a pattern that begins with a star, which both refuse whatever is stored. The text
  before the first star must hold no question mark, and the values must be JSON.\<close>

theorem query_complete:
  assumes "rocksdb R entries" and "dbOk s" and "\<not> cacheEnabled s"
    and "QUESTION \<notin> set (before_star wild)" and "NUL \<notin> set wild"
    and "\<And>k v. contents R s k = Some v \<Longrightarrow> NUL \<notin> set k \<and> value_ok L (k, v)"
  shows "if star_first wild
    then getKeys R L wild [] 0 (-1) s = Inr (False, []) \<and> getCount R L wild out 0 (-1) s = Inr (False, 0)
    else \<exists>es. set es = {(k, v). contents R s k = Some v \<and> wild_match wild k} \<and> sorted_wrt (<) (map fst es) \<and>
      getKeys R L wild [] 0 (-1) s = Inr (True, map (listed L) es) \<and>
      getCount R L wild out 0 (-1) s = Inr (True, int (length es))"
proof (cases "star_first wild")
  case True
  then show ?thesis using assms(2,3) by (simp add: getKeys_def getCount_def)
next
  case False
  let ?es = "matching (entries (db s)) wild"
  have w: "window_ok 0 (-1)" by (simp add: window_ok_def INT_MAX_def INT_MIN_def)
  have set: "set ?es = {(k, v). contents R s k = Some v \<and> wild_match wild k}"
    using assms(6) by (intro matching_set [OF assms(1,4,5)]) blast
  then have "list_all (value_ok L) ?es" using assms(6) by (auto simp: list_all_iff)
  from fold_push_pair [OF this] have
    "getKeys R L wild [] 0 (-1) s = Inr (True, map (listed L) ?es)"
    "getCount R L wild out 0 (-1) s = Inr (True, int (length ?es))"
    using assms(2,3) False
    by (simp_all add: getKeys_def getCount_def rocksdb.query_scan [OF assms(1) w] window_all fold_count)
  then show ?thesis using set matching_ascends [OF assms(1), of s wild] False by auto
qed

theorem query_complete_witness:
  "\<exists>es. set es = {(k, v). contents mem_rocks (mem_node [(''a1'', ''null''), (''b'', ''true'')]) k = Some v \<and>
       wild_match ''a*'' k} \<and> sorted_wrt (<) (map fst es) \<and>
     getKeys mem_rocks mem_lib ''a*'' [] 0 (-1) (mem_node [(''a1'', ''null''), (''b'', ''true'')]) =
       Inr (True, map (listed mem_lib) es) \<and>
     getCount mem_rocks mem_lib ''a*'' 0 0 (-1) (mem_node [(''a1'', ''null''), (''b'', ''true'')]) =
       Inr (True, int (length es))"
proof -
  let ?s = "mem_node [(''a1'', ''null''), (''b'', ''true'')]"
  have e: "mem_entries (db ?s) = [(''a1'', ''null''), (''b'', ''true'')]" by code_simp
  have v: "value_ok mem_lib (''a1'', ''null'')" "value_ok mem_lib (''b'', ''true'')" by code_simp+
  have "NUL \<notin> set k \<and> value_ok mem_lib (k, v)" if "contents mem_rocks ?s k = Some v" for k v
  proof -
    have "(k, v) \<in> set (mem_entries (db ?s))" using that by (simp add: mem.entries_iff)
    then show ?thesis unfolding e using v by auto
  qed
  with query_complete [OF mem.rocksdb_axioms, of ?s "''a*''" mem_lib 0] show ?thesis
    by (simp add: mem_node_def before_star_def star_first_def)
qed

text \<open>A small database for the concrete runs below.\<close>

definition three_users :: "memdb core" where
  "three_users = mem_node [(''u1'', ''null''), (''u2'', ''true''), (''w'', ''1'')]"

lemmas run_simps = three_users_def mem_node_def star_first_def before_star_def window_ok_def
  INT_MAX_def INT_MIN_def

lemma three_users_ok: "list_all (value_ok mem_lib) (matching (mem_entries (db three_users)) ''u*'')"
  by code_simp

text \<open>C12: \<open>getKeys\<close> returns, in key order, one pair for each matching entry in the skip/limit
  window, when the values of the matching entries convert to JSON.\<close>

theorem getKeys_lists:
  assumes "rocksdb R entries" and "dbOk s" and "\<not> cacheEnabled s" and "\<not> star_first wild"
    and "window_ok skip limit" and "list_all (value_ok L) (matching (entries (db s)) wild)"
  shows "getKeys R L wild rs skip limit s =
    Inr (True, rs @ map (listed L) (window skip limit (matching (entries (db s)) wild)))"
  using assms fold_push_pair [OF list_all_window [OF assms(6)]]
  by (simp add: getKeys_def rocksdb.query_scan [OF assms(1,5)])

theorem getKeys_lists_witness:
  "getKeys mem_rocks mem_lib ''u*'' [] 1 5 three_users = Inr (True, [] @ map (listed mem_lib)
     (window 1 5 (matching (mem_entries (db three_users)) ''u*'')))"
  by (rule getKeys_lists [OF mem.rocksdb_axioms _ _ _ _ three_users_ok]) (simp_all add: run_simps)

text \<open>Paging with \<open>getKeys\<close> is seamless: the pages \<open>[skip, skip + a)\<close> and
  \<open>[skip + a, skip + a + b)\<close> appended to one vector give the page \<open>[skip, skip + a + b)\<close>.\<close>

theorem getKeys_pages:
  assumes "rocksdb R entries" and "dbOk s" and "\<not> cacheEnabled s" and "\<not> star_first wild"
    and "0 \<le> skip" and "0 \<le> a" and "0 \<le> b" and "skip + a + b \<le> INT_MAX"
    and "list_all (value_ok L) (matching (entries (db s)) wild)"
  shows "res_bind (getKeys R L wild rs skip a s) (\<lambda>(ret, rs'). getKeys R L wild rs' (skip + a) b s) =
    getKeys R L wild rs skip (a + b) s"
proof -
  have ok: "window_ok skip a" "window_ok (skip + a) b" "window_ok skip (a + b)"
    using assms(5-8) by (auto simp: window_ok_def INT_MIN_def)
  note gl = fold_push_pair [OF list_all_window [OF assms(9)]]
  show ?thesis
    using assms(2-4)
    by (simp add: getKeys_def rocksdb.query_scan [OF assms(1)] ok gl window_pages [OF assms(5-7)]
        flip: map_append)
qed

theorem getKeys_pages_witness:
  "res_bind (getKeys mem_rocks mem_lib ''u*'' [] 0 1 three_users)
     (\<lambda>(ret, rs'). getKeys mem_rocks mem_lib ''u*'' rs' (0 + 1) 1 three_users) =
   getKeys mem_rocks mem_lib ''u*'' [] 0 (1 + 1) three_users"
  by (rule getKeys_pages [OF mem.rocksdb_axioms _ _ _ _ _ _ _ three_users_ok]) (simp_all add: run_simps)

text \<open>\<open>getCount\<close> returns the number of entries \<open>getKeys\<close> would list, which is at most the
  limit when one is given.\<close>

theorem getCount_counts:
  assumes "rocksdb R entries" and "dbOk s" and "\<not> cacheEnabled s" and "\<not> star_first wild"
    and "window_ok skip limit"
  shows "getCount R L wild out skip limit s =
      Inr (True, int (length (window skip limit (matching (entries (db s)) wild)))) \<and>
    (0 \<le> limit \<longrightarrow> int (length (window skip limit (matching (entries (db s)) wild))) \<le> limit)"
  using assms
  by (auto simp: getCount_def rocksdb.query_scan [OF assms(1,5)] fold_count length_window_le)

theorem getCount_counts_witness:
  "getCount mem_rocks mem_lib ''u*'' 0 0 (-1) three_users = Inr (True, 2)"
proof -
  have "length (window 0 (-1) (matching (mem_entries (db three_users)) ''u*'')) = 2" by code_simp
  moreover have "getCount mem_rocks mem_lib ''u*'' 0 0 (-1) three_users =
      Inr (True, int (length (window 0 (-1) (matching (mem_entries (db three_users)) ''u*''))))"
    using getCount_counts [OF mem.rocksdb_axioms, of three_users "''u*''" 0 "-1" mem_lib 0]
    by (simp add: run_simps)
  ultimately show ?thesis by simp
qed

text \<open>\<open>getAll\<close> over several patterns counts through all of them: the window applies to the
  concatenation of their matches, so that limit and skip bound the whole reply.\<close>

theorem getAll_filtered_window:
  assumes "rocksdb R entries" and "dbOk s" and "list_all (\<lambda>w. \<not> star_first w) wilds"
    and "window_ok skip limit"
  shows "getAll_filtered R L wilds rs passFilter skip limit s =
    fold_res (push_filtered L passFilter)
      (window skip limit (concat (map (matching (entries (db s))) wilds))) (True, rs)"
  using assms(2,3) rocksdb.getAll_wilds_picked [OF assms(1), of wilds]
  by (simp add: getAll_filtered_def list_all_iff picked_window [OF assms(4)])

theorem getAll_filtered_window_witness:
  "getAll_filtered mem_rocks mem_lib [''u*'', ''w*''] [] (\<lambda>x w. Inr (True, w)) 1 2 three_users =
   fold_res (push_filtered mem_lib (\<lambda>x w. Inr (True, w))) (window 1 2 (concat (map
     (matching (mem_entries (db three_users))) [''u*'', ''w*'']))) (True, [])"
  by (rule getAll_filtered_window [OF mem.rocksdb_axioms]) (simp_all add: run_simps)

section \<open>Backwards\<close>

text \<open>\<open>getKeysReversed\<close> lists the same matches as \<open>getKeys\<close> in the reverse order, when the
  prefix can be incremented and some key of the database follows all keys with the prefix.\<close>

theorem getKeysReversed_lists:
  assumes "rocksdb R entries" and "dbOk s" and "\<not> cacheEnabled s" and "\<not> star_first wild"
    and "window_ok skip limit" and "list_all (value_ok L) (matching (entries (db s)) wild)"
    and "before_star wild \<noteq> []" and "of_char (last (before_star wild)) < (255 :: nat)"
    and "first_after (before_star wild) = Inr q" and "contents R s k = Some v" and "q \<le> k"
  shows "getKeysReversed R L wild rs skip limit s =
    Inr (True, rs @ map (listed L) (window skip limit (rev (matching (entries (db s)) wild))))"
proof -
  obtain es where es: "reverse_entries R s wild = Inr es"
    "filter (key_hit wild) (takeWhile (in_prefix (before_star wild)) es) =
      rev (matching (entries (db s)) wild)"
    using rocksdb.reverse_run [OF assms(1,7,8,9)] assms(10,11) by blast
  have "list_all (value_ok L) (rev (matching (entries (db s)) wild))" using assms(6) by simp
  from fold_push_pair [OF list_all_window [OF this]] show ?thesis
    using assms(2-4) by (simp add: getKeysReversed_def es scan.loop_window [OF assms(5)])
qed

theorem getKeysReversed_lists_witness:
  "getKeysReversed mem_rocks mem_lib ''u*'' [] 0 (-1) three_users = Inr (True, [] @ map (listed mem_lib)
     (window 0 (-1) (rev (matching (mem_entries (db three_users)) ''u*''))))"
proof (rule getKeysReversed_lists [OF mem.rocksdb_axioms _ _ _ _ three_users_ok,
      where q = "''v''" and k = "''w''" and v = "''1''"])
  show "contents mem_rocks three_users ''w'' = Some ''1''" by code_simp
  show "first_after (before_star ''u*'') = Inr ''v''" by code_simp
  show "''v'' \<le> ''w''" by code_simp
qed (simp_all add: run_simps)

text \<open>When no key of the database follows the keys with the prefix, \<open>getKeysReversed\<close> calls
  \<open>Prev()\<close> on an iterator that is not valid, whether or not there is a match.\<close>

theorem getKeysReversed_past_end:
  assumes "rocksdb R entries" and "dbOk s" and "\<not> cacheEnabled s" and "\<not> star_first wild"
    and "before_star wild \<noteq> []" and "first_after (before_star wild) = Inr q"
    and "\<forall>k v. contents R s k = Some v \<longrightarrow> k < q"
  shows "getKeysReversed R L wild rs skip limit s = Inl Undefined"
  using assms(2-4) rocksdb.reverse_undefined [OF assms(1,5-7)]
  by (simp add: getKeysReversed_def)

theorem getKeysReversed_past_end_witness:
  "getKeysReversed mem_rocks mem_lib ''w*'' [] 0 (-1) three_users = Inl Undefined"
proof (rule getKeysReversed_past_end [OF mem.rocksdb_axioms, where q = "''x''"])
  have "mem_entries (db three_users) = [(''u1'', ''null''), (''u2'', ''true''), (''w'', ''1'')]"
    by code_simp
  then show "\<forall>k v. contents mem_rocks three_users k = Some v \<longrightarrow> k < ''x''"
    using mem.lookup_entries by auto
  show "first_after (before_star ''w*'') = Inr ''x''" by code_simp
qed (simp_all add: run_simps)

text \<open>\<open>iterReversed\<close> lists all entries in the reverse order of \<open>iter\<close>.\<close>

theorem iterReversed_reverses:
  assumes "rocksdb R entries" and "dbOk s" and "list_all (value_ok L) (entries (db s))"
  shows "\<exists>pairs. iter R L [] 0 (-1) s = Inr (True, pairs) \<and>
    iterReversed R L [] 0 (-1) s = Inr (True, rev pairs) \<and> length pairs = length (entries (db s))"
proof -
  have w: "window_ok 0 (-1)" by (simp add: window_ok_def INT_MAX_def INT_MIN_def)
  have r: "list_all (value_ok L) (rev (entries (db s)))" using assms(3) by simp
  show ?thesis
    using assms(2) rocksdb.seek_first [OF assms(1), of "db s"] rocksdb.backwards_all [OF assms(1), of "db s"]
    by (simp add: iter_def iterReversed_def scan.loop_window [OF w] window_all
        takeWhile_True fold_push_pair [OF assms(3)] fold_push_pair [OF r] rev_map)
qed

theorem iterReversed_reverses_witness:
  "\<exists>pairs. iter mem_rocks mem_lib [] 0 (-1) three_users = Inr (True, pairs) \<and>
    iterReversed mem_rocks mem_lib [] 0 (-1) three_users = Inr (True, rev pairs) \<and>
    length pairs = length (mem_entries (db three_users))"
proof (rule iterReversed_reverses [OF mem.rocksdb_axioms])
  show "list_all (value_ok mem_lib) (mem_entries (db three_users))" by code_simp
qed (simp add: run_simps)

section \<open>Text replies\<close>

text \<open>The text reply of \<open>getKeys\<close> is the JSON frame around the matching entries of the
  window, separated by commas: cutting the trailing comma never damages the frame, the empty
  listing included.\<close>

theorem getKeys_text_frame:
  assumes "rocksdb R entries" and "dbOk s" and "\<not> cacheEnabled s" and "\<not> star_first wild"
    and "window_ok skip limit"
  shows "getKeys_text R wild out skip limit s = Inr (True, ''{\"result\":['' @
    comma_join (map json_item (window skip limit (matching (entries (db s)) wild))) @ '']}'')"
  using assms(2-4) close_text_items
  by (simp add: getKeys_text_def rocksdb.query_scan [OF assms(1,5)] fold_push_text)

theorem getKeys_text_frame_witness:
  "getKeys_text mem_rocks ''u*'' [] 0 (-1) three_users =
   Inr (True, ''{\"result\":[{\"key\":\"u1\",\"value\":null},{\"key\":\"u2\",\"value\":true}]}'')"
proof -
  have "getKeys_text mem_rocks ''u*'' [] 0 (-1) three_users = Inr (True, ''{\"result\":['' @
      comma_join (map json_item (window 0 (-1) (matching (mem_entries (db three_users)) ''u*''))) @ '']}'')"
    by (rule getKeys_text_frame [OF mem.rocksdb_axioms]) (simp_all add: run_simps)
  moreover have "''{\"result\":['' @
      comma_join (map json_item (window 0 (-1) (matching (mem_entries (db three_users)) ''u*''))) @ '']}'' =
      ''{\"result\":[{\"key\":\"u1\",\"value\":null},{\"key\":\"u2\",\"value\":true}]}''"
    by code_simp
  ultimately show ?thesis by simp
qed

section \<open>Removing by wildcard\<close>

text \<open>C9: \<open>removeAll\<close> deletes exactly the matching entries of the window and returns their
  number; every other entry keeps its value.\<close>

theorem removeAll_exact:
  assumes "rocksdb R entries" and "rocks_reliable R" and "dbOk s" and "\<not> star_first wild"
    and "window_ok skip limit"
  shows "\<exists>s' ks. removeAll R L wild skip limit s = (Inr (int (length ks)), s') \<and>
    ks = map fst (window skip limit (matching (entries (db s)) wild)) \<and>
    contents R s' = remove_keys ks (contents R s)"
proof -
  obtain ks d where "ks = map fst (window skip limit (matching (entries (db s)) wild))"
    "removeAll R L wild skip limit s = (Inr (int (length ks)), (fold (removeRequest L) ks s)\<lparr>db := d\<rparr>)"
    "d = snd (rocks_Write R (db s) ks)"
    using rocksdb.removeAll_run [OF assms(1,3-5)] by blast
  moreover from this have "rocks_Write R (db s) ks = (True, d)"
    using assms(2) by (simp add: rocks_reliable_def prod_eq_iff)
  ultimately show ?thesis using rocksdb.write_ok [OF assms(1)] by force
qed

theorem removeAll_exact_witness:
  "\<exists>s' ks. removeAll mem_rocks mem_lib ''u*'' 0 (-1) three_users = (Inr (int (length ks)), s') \<and>
    ks = map fst (window 0 (-1) (matching (mem_entries (db three_users)) ''u*'')) \<and>
    contents mem_rocks s' = remove_keys ks (contents mem_rocks three_users)"
  by (rule removeAll_exact [OF mem.rocksdb_axioms mem_reliable]) (simp_all add: run_simps)

section \<open>Cached listings\<close>

text \<open>C14: for a literal prefix followed by a star, listing from a cache, forwards and backwards,
  gives the entries of the cache with that prefix, when there is one: the bounds found with
  \<open>lower_bound\<close> delimit exactly them, and no iterator leaves the map.\<close>

theorem cached_keys_list:
  assumes "sm_inv (cacheMap s)" and "STAR \<notin> set p" and "QUESTION \<notin> set p" and "NUL \<notin> set p"
    and "p \<noteq> []" and "of_char (last p) < (255 :: nat)" and "window_ok skip limit"
    and "e \<in> set (cacheMap s)" and "in_prefix p e" and "list_all (value_ok L) (cacheMap s)"
    and "hits = (if rvs then rev (filter (in_prefix p) (cacheMap s)) else filter (in_prefix p) (cacheMap s))"
  shows "GetCachedKeys L False rvs (p @ ''*'') rs skip limit s =
    Inr (int (length (window skip limit hits)), rs @ map (listed L) (window skip limit hits))"
proof -
  have ex: "\<exists>e \<in> set (cacheMap s). in_prefix p e" using assms(8,9) by blast
  have "list_all (value_ok L) hits" using assms(10,11) by (auto simp: list_all_iff)
  from fold_push_cached [OF list_all_window [OF this], of skip limit 0 rs] show ?thesis
    using cached_scan_prefix [OF assms(1-7) ex, of rvs "push_cached L False" "(0, rs)"] assms(11)
    by (cases rvs) (simp_all add: GetCachedKeys_def)
qed

theorem cached_keys_list_witness:
  "GetCachedKeys mem_lib False True (''u'' @ ''*'') [] 0 (-1)
     ((mem_node [])\<lparr>cacheMap := [(''a'', ''1''), (''u1'', ''2''), (''u2'', ''3'')]\<rparr>) =
   Inr (int (length (window 0 (-1) [(''u2'', ''3''), (''u1'', ''2'')])),
     [] @ map (listed mem_lib) (window 0 (-1) [(''u2'', ''3''), (''u1'', ''2'')]))"
proof (rule cached_keys_list [where e = "(''u1'', ''2'')"])
  show "list_all (value_ok mem_lib)
      (cacheMap ((mem_node [])\<lparr>cacheMap := [(''a'', ''1''), (''u1'', ''2''), (''u2'', ''3'')]\<rparr>))"
    by code_simp
  show "sm_inv (cacheMap ((mem_node [])\<lparr>cacheMap := [(''a'', ''1''), (''u1'', ''2''), (''u2'', ''3'')]\<rparr>))"
    by code_simp
qed (simp_all add: mem_node_def starts_with_def window_ok_def INT_MAX_def INT_MIN_def)

end
