(* ===== verification/Queries_Props.thy ===== *)
theory Queries_Props
  imports Queries Scan_Props
begin

text \<open>
  What the composite queries return: the parts of a split key, the entries after a key and the
  one that is lost when the key is not stored, the padding of a reply with several listings,
  where the search for a last key is undefined, and exactly which values a join collects.
\<close>

section \<open>Splitting\<close>

fun sep_join :: "char \<Rightarrow> string list \<Rightarrow> string" where
  "sep_join d [] = []"
| "sep_join d [t] = t"
| "sep_join d (t # ts) = t @ d # sep_join d ts"

text \<open>Splitting a key and joining the parts with the separator gives the key back, unless
  it ends with the separator, whose empty last part is dropped; no part has the separator.\<close>

theorem tokenize_join:
  assumes "xs = [] \<or> last xs \<noteq> delim"
  shows "sep_join delim (tokenize delim xs) = xs \<and> (\<forall>t \<in> set (tokenize delim xs). delim \<notin> set t)"
  using assms
proof (induction delim xs rule: tokenize.induct)
  case (1 delim xs)
  let ?t = "takeWhile (\<lambda>c. c \<noteq> delim) xs" and ?r = "dropWhile (\<lambda>c. c \<noteq> delim) xs"
  show ?case
  proof (cases "xs = []")
    case False
    have t: "delim \<notin> set ?t" by (auto dest: set_takeWhileD)
    have xs: "xs = ?t @ ?r" by simp
    show ?thesis
    proof (cases ?r)
      case Nil
      then have "?t = xs" "tl ?r = []" using xs by (metis append_Nil2) (simp only: Nil list.sel)
      then have "tokenize delim xs = [xs]"
        using False unfolding tokenize.simps [of delim xs] by (simp add: tokenize.simps [of delim "[]"])
      then show ?thesis using t \<open>?t = xs\<close> by simp
    next
      case (Cons c r)
      then have c: "c = delim" using hd_dropWhile [of "\<lambda>c. c \<noteq> delim" xs] by simp
      have "last xs = last ?r" using Cons by (metis last_appendR list.distinct(1) xs)
      then have r: "r \<noteq> []" "last r \<noteq> delim"
        using Cons c 1(2) False by (auto split: if_splits)
      then have "sep_join delim (tokenize delim r) = r \<and> (\<forall>t \<in> set (tokenize delim r). delim \<notin> set t)"
        using 1(1) [OF False] Cons by simp
      moreover have "tokenize delim r \<noteq> []" using r by (simp add: tokenize.simps [of delim r])
      then have "sep_join delim (?t # tokenize delim r) = ?t @ delim # sep_join delim (tokenize delim r)"
        by (cases "tokenize delim r") simp_all
      moreover have "tokenize delim xs = ?t # tokenize delim r"
        using False Cons by (simp add: tokenize.simps [of delim xs])
      moreover have "?t @ delim # r = xs" using xs Cons c by simp
      ultimately show ?thesis using t by simp
    qed
  qed (simp add: tokenize.simps [of delim "[]"])
qed

theorem tokenize_join_witness:
  "sep_join (CHR ''_'') (tokenize (CHR ''_'') ''group_7_ann'') = ''group_7_ann'' \<and>
   (\<forall>t \<in> set (tokenize (CHR ''_'') ''group_7_ann''). CHR ''_'' \<notin> set t)"
  by (rule tokenize_join) simp

section \<open>What follows a key\<close>

lemma tl_dropWhile_later:
  assumes "sorted_wrt (<) (map fst es)"
  shows "tl (dropWhile (\<lambda>e. fst e < key) es) =
    (if map_of es key = None then tl (filter (\<lambda>e. key < fst e) es) else filter (\<lambda>e. key < (fst e :: string)) es)"
  using assms
proof (induction es)
  case (Cons e es)
  have later: "filter (\<lambda>e. key < fst e) es = es" if "\<not> fst e < key"
    using Cons.prems that by (force simp: filter_id_conv)
  have absent: "map_of es key = None" if "key < fst e"
    using Cons.prems that by (force simp: map_of_eq_None_iff)
  show ?case using Cons later absent by (cases "fst e < key") (auto simp: not_less)
qed simp

context rocksdb
begin

lemma after_entries_eq:
  "after_entries R s key =
     (if contents R s key = None then tl (filter (\<lambda>e. key < fst e) (entries (db s)))
      else filter (\<lambda>e. key < fst e) (entries (db s)))"
  using tl_dropWhile_later [OF entries_ascending] lookup_entries [of "db s"]
  by (simp add: after_entries_def seek)

lemma later_prefix_run:
  assumes "prefix pre key"
  shows "takeWhile (in_prefix pre) (filter (\<lambda>e. key < fst e) (entries (db s))) =
    filter (\<lambda>e. key < fst e \<and> in_prefix pre e) (entries (db s))"
proof -
  have "takeWhile (in_prefix pre) (filter (\<lambda>e. key < fst e) es) =
      filter (\<lambda>e. key < fst e \<and> in_prefix pre e) es" if "sorted (map fst es)"
    for es :: "(string \<times> string) list"
    using that
  proof (induction es)
    case (Cons e es)
    have "filter (\<lambda>e. key < fst e \<and> in_prefix pre e) es = []" if "key < fst e" "\<not> in_prefix pre e"
    proof -
      have "\<not> in_prefix pre x" if x: "x \<in> set es" for x
      proof
        assume "in_prefix pre x"
        moreover have "fst e \<le> fst x" using Cons.prems x by auto
        ultimately have "prefix pre (fst e)"
          using \<open>key < fst e\<close> assms by (intro prefix_convex [of pre key "fst e" "fst x"])
            (auto simp: starts_with_prefix)
        with \<open>\<not> in_prefix pre e\<close> show False by (simp add: starts_with_prefix)
      qed
      then show ?thesis by (simp add: filter_empty_conv)
    qed
    with Cons show ?case by auto
  qed simp
  then show ?thesis using entries_sorted by blast
qed

end

text \<open>\<open>getAfter\<close> with a key that is stored and a prefix of that key lists, in key order, the
  window of exactly the entries with the prefix whose key is greater than the given one.\<close>

theorem getAfter_stored:
  assumes "rocksdb R entries" and "dbOk s" and "window_ok skip limit"
    and "contents R s key = Some v" and "prefix pre key" and "list_all (value_ok L) (entries (db s))"
  shows "getAfter R L key pre rs skip limit s = Inr (True, rs @ map (listed L)
    (window skip limit (filter (\<lambda>e. key < fst e \<and> in_prefix pre e) (entries (db s)))))"
proof -
  have "list_all (value_ok L) (filter (\<lambda>e. key < fst e \<and> in_prefix pre e) (entries (db s)))"
    using assms(6) by (auto simp: list_all_iff)
  from fold_push_pair [OF list_all_window [OF this]] show ?thesis
    using assms(2,4) rocksdb.later_prefix_run [OF assms(1,5), of s] rocksdb.after_entries_eq [OF assms(1), of s key]
    by (simp add: getAfter_def scan.loop_window [OF assms(3)] takeWhile_True del: filter_filter)
qed

theorem getAfter_stored_witness:
  "getAfter mem_rocks mem_lib ''u1'' ''u'' [] 0 (-1) three_users = Inr (True, [] @ map (listed mem_lib)
    (window 0 (-1) (filter (\<lambda>e. ''u1'' < fst e \<and> in_prefix ''u'' e) (mem_entries (db three_users)))))"
proof (rule getAfter_stored [OF mem.rocksdb_axioms])
  show "contents mem_rocks three_users ''u1'' = Some ''null''" by code_simp
  show "list_all (value_ok mem_lib) (mem_entries (db three_users))" by code_simp
qed (simp_all add: run_simps)

text \<open>When the key is not stored, \<open>getAfter\<close> loses the first entry after it: it steps over
  the entry \<open>Seek\<close> stopped at, which is not the given key.\<close>

theorem getAfter_absent_skips:
  assumes "rocksdb R entries" and "dbOk s" and "window_ok skip limit"
    and "contents R s key = None" and "list_all (value_ok L) (entries (db s))"
    and "filter (\<lambda>e. key < fst e) (entries (db s)) = e # later"
  shows "getAfter R L key pre rs skip limit s = Inr (True, rs @ map (listed L)
    (window skip limit (takeWhile (in_prefix pre) later)))"
proof -
  have "set later \<subseteq> set (entries (db s))"
    using assms(6) by (metis filter_is_subset list.set_intros(2) subset_iff)
  then have "list_all (value_ok L) (takeWhile (in_prefix pre) later)"
    using assms(5) by (auto simp: list_all_iff dest: set_takeWhileD)
  from fold_push_pair [OF list_all_window [OF this]] show ?thesis
    using assms(2,4,6) rocksdb.after_entries_eq [OF assms(1), of s key]
    by (simp add: getAfter_def scan.loop_window [OF assms(3)] takeWhile_True)
qed

theorem getAfter_absent_skips_witness:
  "getAfter mem_rocks mem_lib ''u0'' ''u'' [] 0 (-1) three_users = Inr (True, [] @ map (listed mem_lib)
    (window 0 (-1) (takeWhile (in_prefix ''u'') [(''u2'', ''true''), (''w'', ''1'')])))"
proof (rule getAfter_absent_skips [OF mem.rocksdb_axioms])
  show "contents mem_rocks three_users ''u0'' = None" by code_simp
  show "list_all (value_ok mem_lib) (mem_entries (db three_users))" by code_simp
  show "filter (\<lambda>e. ''u0'' < fst e) (mem_entries (db three_users)) =
      (''u1'', ''null'') # [(''u2'', ''true''), (''w'', ''1'')]"
    by code_simp
qed (simp_all add: run_simps)

section \<open>Several listings in one reply\<close>

text \<open>In a reply of \<open>getKeysAfter\<close> with two pairs the second listing begins with as many
  empty objects as the first listing has entries: the vector is moved from but not cleared.\<close>

theorem getKeysAfter_pads:
  assumes "dbOk s" and "getAfter R L k1 p1 [] skip limit s = Inr (True, out1)"
    and "\<And>out. getAfter R L k2 p2 out skip limit s = Inr (True, out @ out2)"
  shows "getKeysAfter R L (RList (map (\<lambda>t. RString (escape t)) [p1, k1, p2, k2])) [] skip limit s =
    Inr (True,
      [w_set (w_set WNull ''after'' (WList out1)) ''key'' (WString k1),
       w_set (w_set WNull ''after'' (WList (replicate (length out1) (WObject []) @ out2)))
         ''key'' (WString k2)])"
  using assms by (simp add: getKeysAfter_def pairs_query_def unescape_escape moved_from_def map_replicate_const)

theorem getKeysAfter_pads_witness:
  "getKeysAfter mem_rocks mem_lib (RList (map (\<lambda>t. RString (escape t)) [''u'', ''u1'', ''u'', ''u1''])) [] 0 (-1) three_users =
    Inr (True,
      [w_set (w_set WNull ''after'' (WList [listed mem_lib (''u2'', ''true'')])) ''key'' (WString ''u1''),
       w_set (w_set WNull ''after'' (WList (replicate (length [listed mem_lib (''u2'', ''true'')]) (WObject []) @
         [listed mem_lib (''u2'', ''true'')]))) ''key'' (WString ''u1'')])"
proof (rule getKeysAfter_pads)
  fix out
  have w: "window_ok 0 (-1)" by (simp add: run_simps)
  have ok: "list_all (value_ok mem_lib) [(''u2'', ''true'')]" by code_simp
  have "takeWhile (in_prefix ''u'') (after_entries mem_rocks three_users ''u1'') = [(''u2'', ''true'')]"
    by code_simp
  then have "getAfter mem_rocks mem_lib ''u1'' ''u'' out 0 (-1) three_users =
      Inr (True, out @ map (listed mem_lib) [(''u2'', ''true'')])" for out
    using fold_push_pair [OF ok, of True out]
    by (simp add: getAfter_def scan.loop_window [OF w] takeWhile_True window_all)
      (simp add: run_simps)
  then show "getAfter mem_rocks mem_lib ''u1'' ''u'' out 0 (-1) three_users = Inr (True, out @ [listed mem_lib (''u2'', ''true'')])"
    by simp
  show "getAfter mem_rocks mem_lib ''u1'' ''u'' [] 0 (-1) three_users = Inr (True, [listed mem_lib (''u2'', ''true'')])"
    using \<open>\<And>out. getAfter mem_rocks mem_lib ''u1'' ''u'' out 0 (-1) three_users = _\<close> by simp
qed (simp add: run_simps)

section \<open>The last key\<close>

text \<open>\<open>getLast\<close> on a run of keys that reaches the end of the database calls \<open>Prev()\<close> on an
  iterator that is not valid.\<close>

theorem getLast_past_end:
  assumes "dbOk s" and "after_entries R s key \<noteq> []" and "list_all (in_prefix pre) (after_entries R s key)"
  shows "getLast R L key pre rs s = Inl Undefined"
proof -
  have "takeWhile (in_prefix pre) (after_entries R s key) = after_entries R s key"
    using assms(3) by (rule takeWhile_list_all)
  then have "last_entry pre (after_entries R s key) = Inl Undefined"
    using assms(2) by (simp only: last_entry_def Let_def if_False if_True refl)
  then show ?thesis using assms(1) by (simp add: getLast_def)
qed

theorem getLast_past_end_witness:
  "getLast mem_rocks mem_lib ''u1'' ''u'' [] (mem_node [(''u1'', ''1''), (''u2'', ''2'')]) = Inl Undefined"
proof (rule getLast_past_end)
  have "after_entries mem_rocks (mem_node [(''u1'', ''1''), (''u2'', ''2'')]) ''u1'' = [(''u2'', ''2'')]"
    by code_simp
  then show "after_entries mem_rocks (mem_node [(''u1'', ''1''), (''u2'', ''2'')]) ''u1'' \<noteq> []"
    "list_all (in_prefix ''u'') (after_entries mem_rocks (mem_node [(''u1'', ''1''), (''u2'', ''2'')]) ''u1'')"
    by (simp_all add: starts_with_def)
qed (simp add: mem_node_def)

section \<open>Joins\<close>

text \<open>The stored value under a joined key, as JSON.\<close>

definition stored_json :: "'db rocks \<Rightarrow> lib \<Rightarrow> 'db core \<Rightarrow> string \<Rightarrow> wvalue option" where
  "stored_json R L s k =
     (case contents R s k of
        None \<Rightarrow> None
      | Some v \<Rightarrow> (case wvalue_of L (load v) of Inl e \<Rightarrow> None | Inr w \<Rightarrow> Some w))"

definition joined_keys :: "(string \<times> string) list \<Rightarrow> string list \<Rightarrow> string set" where
  "joined_keys specs ks = {p @ k @ sfx | p sfx k. (p, sfx) \<in> set specs \<and> k \<in> set ks}"

definition json_at :: "'db rocks \<Rightarrow> lib \<Rightarrow> 'db core \<Rightarrow> string \<Rightarrow> bool" where
  "json_at R L s k = (case contents R s k of None \<Rightarrow> True
     | Some v \<Rightarrow> (case wvalue_of L (load v) of Inl e \<Rightarrow> False | Inr w \<Rightarrow> True))"

text \<open>The object after lookups of a set of keys: what was there, and what was found.\<close>

definition filled :: "'db rocks \<Rightarrow> lib \<Rightarrow> 'db core \<Rightarrow> string set \<Rightarrow> wvalue \<Rightarrow> wvalue \<Rightarrow> bool" where
  "filled R L s K w w' \<longleftrightarrow> (\<forall>k. map_of (w_members w') k =
     (if k \<in> K \<and> stored_json R L s k \<noteq> None then stored_json R L s k else map_of (w_members w) k))"

lemma join_one_filled:
  assumes "\<forall>k \<in> set ks. json_at R L s (p @ k @ sfx)"
  shows "\<exists>w'. join_one R L s p sfx ks w = (None, w') \<and> filled R L s {p @ k @ sfx | k. k \<in> set ks} w w'"
  using assms
proof (induction ks arbitrary: w)
  case (Cons k ks)
  have tail: "\<And>w. \<exists>w'. join_one R L s p sfx ks w = (None, w') \<and>
      filled R L s {p @ k @ sfx | k. k \<in> set ks} w w'"
    using Cons by simp
  show ?case
  proof (cases "contents R s (p @ k @ sfx)")
    case None
    then show ?thesis using tail [of w] by (auto simp: filled_def stored_json_def)
  next
    case (Some v)
    then obtain x where x: "wvalue_of L (load v) = Inr x"
      using Cons.prems by (auto simp: json_at_def split: sum.splits)
    then have "stored_json R L s (p @ k @ sfx) = Some x" by (simp add: stored_json_def Some)
    then show ?thesis using tail [of "w_set w (p @ k @ sfx) x"] Some x
      by (auto simp: filled_def map_of_w_set)
  qed
qed (simp add: filled_def)

lemma join_all_filled:
  assumes "list_all2 (\<lambda>(u, v) (p, sfx). res_bind (r_get v ''prefix'') r_s = Inr p \<and>
      res_bind (r_get v ''suffix'') r_s = Inr sfx) vs specs"
    and "\<forall>k \<in> joined_keys specs ks. json_at R L s k"
  shows "\<exists>w'. join_all R L s ks vs (ret, w) = Inr (ret, w') \<and> filled R L s (joined_keys specs ks) w w'"
  using assms
proof (induction vs specs arbitrary: w rule: list_all2_induct)
  case Nil
  then show ?case by (simp add: filled_def joined_keys_def)
next
  case (Cons uv vs psfx specs)
  obtain u v where uv: "uv = (u, v)" by (cases uv)
  obtain p sfx where psfx: "psfx = (p, sfx)" by (cases psfx)
  have split: "joined_keys (psfx # specs) ks = {p @ k @ sfx | k. k \<in> set ks} \<union> joined_keys specs ks"
    by (auto simp: joined_keys_def psfx)
  then have "\<forall>k \<in> set ks. json_at R L s (p @ k @ sfx)" using Cons.prems by auto
  then obtain w1 where w1: "join_one R L s p sfx ks w = (None, w1)"
    "filled R L s {p @ k @ sfx | k. k \<in> set ks} w w1"
    using join_one_filled by blast
  obtain w2 where "join_all R L s ks vs (ret, w1) = Inr (ret, w2)" "filled R L s (joined_keys specs ks) w1 w2"
    using Cons.IH Cons.prems split by blast
  moreover from this w1 have "filled R L s (joined_keys (psfx # specs) ks) w w2"
    by (auto simp: filled_def split)
  ultimately show ?case using Cons.hyps(1) w1 by (simp add: uv psfx)
qed

lemma fold_push_key: "fold_res (push_key fk) es ks = Inr (ks @ map (\<lambda>e. fk (fst e)) es)"
  by (induction es arbitrary: ks) (simp_all add: push_key_def)

text \<open>C19: a joined map has, beside the list of the selected key parts in key order, exactly the
  values stored under prefix, key part and suffix of some join, each under its joined key; a
  joined key that is not stored is left out.\<close>

theorem getJoinedMap_exact:
  assumes "rocksdb R entries" and "dbOk s" and "window_ok skip limit"
    and "r_member_or args ''keys'' r_s [] = Inr wild" and "\<not> star_first wild"
    and "r_has args ''keylist'' = Inr False" and "opt_member args ''splitby'' r_s = Inr splitby"
    and "r_member_or args ''selindex'' (\<lambda>v. res_bind (r_i L v) (\<lambda>i. Inr (wrap32 i))) (-1) = Inr selindex"
    and "res_bind (r_get args ''join'') r_members = Inr vs"
    and "list_all2 (\<lambda>(u, v) (p, sfx). res_bind (r_get v ''prefix'') r_s = Inr p \<and>
      res_bind (r_get v ''suffix'') r_s = Inr sfx) vs specs"
    and "ks = map (\<lambda>e. final_key splitby selindex (fst e)) (window skip limit (matching (entries (db s)) wild))"
    and "\<forall>k \<in> joined_keys specs ks. json_at R L s k"
  shows "\<exists>w. getJoinedMap R L args rs skip limit s = Inr (True, rs @ [WList (map WString ks), w]) \<and>
    map_of (w_members w) = (\<lambda>k. if k \<in> joined_keys specs ks then stored_json R L s k else None)"
proof -
  obtain join where join: "r_get args ''join'' = Inr join" "r_members join = Inr vs"
    using assms(9) by (auto simp: res_bind_Inr_iff)
  obtain w where w: "join_all R L s ks vs (True, WNull) = Inr (True, w)"
    "filled R L s (joined_keys specs ks) WNull w"
    using join_all_filled [OF assms(10,12)] by blast
  have "getJoinedMap R L args rs skip limit s = Inr (True, rs @ [WList (map WString ks), w])"
    using assms(2,5) w(1)
    by (simp add: getJoinedMap_def assms(4,6,7,8) join rocksdb.query_scan [OF assms(1,3)]
        fold_push_key assms(11) Let_def)
  moreover have "map_of (w_members w) = (\<lambda>k. if k \<in> joined_keys specs ks then stored_json R L s k else None)"
    using w(2) by (auto simp: filled_def w_members_WNull)
  ultimately show ?thesis by blast
qed

theorem getJoinedMap_exact_witness:
  "\<exists>w. getJoinedMap mem_rocks mem_lib
      (RObject [(''keys'', RString ''g*''), (''splitby'', RString ''_''), (''selindex'', RNumber ''1''),
        (''join'', RList [RObject [(''prefix'', RString ''p''), (''suffix'', RString [])]])]) [] 0 (-1)
      (mem_node [(''g_a'', ''1''), (''g_b'', ''2''), (''pa'', ''true'')]) =
    Inr (True, [] @ [WList (map WString [''a'', ''b'']), w]) \<and>
    map_of (w_members w) = (\<lambda>k. if k \<in> joined_keys [(''p'', [])] [''a'', ''b'']
      then stored_json mem_rocks mem_lib (mem_node [(''g_a'', ''1''), (''g_b'', ''2''), (''pa'', ''true'')]) k
      else None)"
proof (rule getJoinedMap_exact [OF mem.rocksdb_axioms, where wild = "''g*''" and splitby = "Some ''_''" and selindex = 1
      and vs = "[([], RObject [(''prefix'', RString ''p''), (''suffix'', RString [])])]"])
  let ?s = "mem_node [(''g_a'', ''1''), (''g_b'', ''2''), (''pa'', ''true'')]"
  show "[''a'', ''b''] = map (\<lambda>e. final_key (Some ''_'') 1 (fst e))
      (window 0 (-1) (matching (mem_entries (db ?s)) ''g*''))"
    by code_simp
  have "json_at mem_rocks mem_lib ?s ''pa''" "json_at mem_rocks mem_lib ?s ''pb''" by code_simp+
  then show "\<forall>k \<in> joined_keys [(''p'', [])] [''a'', ''b'']. json_at mem_rocks mem_lib ?s k"
    by (auto simp: joined_keys_def)
  show "r_member_or (RObject [(''keys'', RString ''g*''), (''splitby'', RString ''_''), (''selindex'', RNumber ''1''),
        (''join'', RList [RObject [(''prefix'', RString ''p''), (''suffix'', RString [])]])]) ''selindex''
      (\<lambda>v. res_bind (r_i mem_lib v) (\<lambda>i. Inr (wrap32 i))) (-1) = Inr 1"
    by code_simp
qed (simp_all add: run_simps r_member_or_def opt_member_def)

end
