(* ===== verification/Rooms.thy ===== *)
theory Rooms
  imports Scan
begin

text \<open>
  Web-socket rooms: \<^verbatim>\<open>class SocketInterceptor\<close> of \<^verbatim>\<open>src/quarks.cpp\<close> and the handlers
  \<^verbatim>\<open>QSocket::connect\<close> of \<^verbatim>\<open>include/qsocket.hpp\<close> that call it. A connection is a pointer
  with the identifier stored as its user data. \<open>_connMap\<close> maps \<open>room_id\<close> to a connection
  pointer, which may be null (\<open>None\<close>), \<open>_userRoomsMap\<close> maps \<open>id_room\<close> to the room. Sending
  through a null pointer is undefined behaviour. What is sent is logged in order. Time stamps
  come from a clock that is a parameter, read once per call of \<open>getCurrentTimestamp\<close>.
\<close>

section \<open>State\<close>

record conn =
  ptr :: nat
  userdata :: "string option"

datatype frame = Text string | Binary string

record 'db rooms =
  connMap :: "conn option smap"
  userRoomsMap :: "string smap"
  notifyAllOnClose :: bool
  users :: "conn list"
  sent :: "(conn \<times> frame) list"
  ticks :: nat
  node :: "'db core"

type_synonym ('db, 'a) handler = "'db rooms \<Rightarrow> 'a res \<times> 'db rooms"

text \<open>Sequencing of handlers: an exception ends the sequence and keeps the state.\<close>

definition return :: "'a \<Rightarrow> ('db, 'a) handler" where
  "return a s = (Inr a, s)"

definition lift_res :: "'a res \<Rightarrow> ('db, 'a) handler" where
  "lift_res r s = (r, s)"

definition seq :: "('db, 'a) handler \<Rightarrow> ('a \<Rightarrow> ('db, 'b) handler) \<Rightarrow> ('db, 'b) handler" where
  "seq m f s = (case m s of (Inl e, s1) \<Rightarrow> (Inl e, s1) | (Inr a, s1) \<Rightarrow> f a s1)"

definition change :: "('db rooms \<Rightarrow> 'db rooms) \<Rightarrow> ('db, unit) handler" where
  "change f s = (Inr (), f s)"

text \<open>\<^verbatim>\<open>try { ... return true; } catch (const std::runtime_error&) { } return true;\<close>\<close>

definition caught :: "('db, bool) handler \<Rightarrow> ('db, bool) handler" where
  "caught m s = (case m s of (Inl RuntimeError, s1) \<Rightarrow> (Inr True, s1) | r \<Rightarrow> r)"

definition send_frame :: "conn \<Rightarrow> frame \<Rightarrow> ('db, unit) handler" where
  "send_frame c f = change (\<lambda>s. s\<lparr>sent := sent s @ [(c, f)]\<rparr>)"

definition timestamp :: "(nat \<Rightarrow> string) \<Rightarrow> ('db, string) handler" where
  "timestamp clock s = (Inr (clock (ticks s)), s\<lparr>ticks := ticks s + 1\<rparr>)"

section \<open>Lookup and broadcast\<close>

text \<open>\<open>lookup\<close>: the entry with the key, or else the entries whose key begins with it.\<close>

definition lookup :: "'v smap \<Rightarrow> string \<Rightarrow> (string \<times> 'v) list" where
  "lookup m key =
     (case snd (sm_lower_bound m key) of
        [] \<Rightarrow> []
      | (k, v) # rest \<Rightarrow>
          if k = key then [(k, v)]
          else takeWhile (\<lambda>e. starts_with (fst e) key) ((k, v) # rest))"

fun send_each :: "(conn \<Rightarrow> bool) \<Rightarrow> frame \<Rightarrow> (string \<times> conn option) list \<Rightarrow> ('db, unit) handler" where
  "send_each skip f [] = return ()"
| "send_each skip f ((k, u) # us) =
     (case u of
        None \<Rightarrow> lift_res (Inl Undefined)
      | Some c \<Rightarrow> if skip c then send_each skip f us
                 else seq (send_frame c f) (\<lambda>_. send_each skip f us))"

definition broadcast :: "string \<Rightarrow> string \<Rightarrow> ('db, unit) handler" where
  "broadcast room data s = send_each (\<lambda>c. False) (Text data) (lookup (connMap s) room) s"

definition broadcast_skip :: "string \<Rightarrow> string \<Rightarrow> conn \<Rightarrow> ('db, unit) handler" where
  "broadcast_skip room data skipconn s =
     send_each (\<lambda>c. ptr c = ptr skipconn) (Text data) (lookup (connMap s) room) s"

section \<open>Closing\<close>

definition room_key :: "string \<Rightarrow> string \<Rightarrow> string" where
  "room_key room ident = room @ ''_'' @ ident"

definition user_key :: "string \<Rightarrow> string \<Rightarrow> string" where
  "user_key ident room = ident @ ''_'' @ room"

fun leave_rooms ::
    "lib \<Rightarrow> (nat \<Rightarrow> string) \<Rightarrow> conn \<Rightarrow> string \<Rightarrow> (string \<times> string) list \<Rightarrow> ('db, unit) handler" where
  "leave_rooms L clock c ident [] = return ()"
| "leave_rooms L clock c ident ((k, room) # rooms) =
     seq (\<lambda>s. if notifyAllOnClose s then
                seq (timestamp clock) (\<lambda>t.
                  broadcast_skip room (dump_json L (w_set (w_set (w_set WNull ''left'' (WString room))
                    ''from'' (WString ident)) ''timestamp'' (WString t))) c) s
              else return () s) (\<lambda>_.
     seq (change (\<lambda>s. s\<lparr>connMap := sm_erase (room_key room ident) (connMap s)\<rparr>)) (\<lambda>_.
       leave_rooms L clock c ident rooms))"

definition onClose :: "lib \<Rightarrow> (nat \<Rightarrow> string) \<Rightarrow> conn \<Rightarrow> ('db, unit) handler" where
  "onClose L clock c s =
     (case userdata c of
        None \<Rightarrow> (Inr (), s)
      | Some ident \<Rightarrow>
          (let rooms = lookup (userRoomsMap s) (user_key ident []) in
           seq (leave_rooms L clock c ident rooms) (\<lambda>_.
             change (\<lambda>s. s\<lparr>userRoomsMap := fold (\<lambda>e. sm_erase (fst e)) rooms (userRoomsMap s)\<rparr>)) s))"

section \<open>Messages\<close>

definition has_then :: "rvalue \<Rightarrow> string \<Rightarrow> (bool \<Rightarrow> ('db, 'a) handler) \<Rightarrow> ('db, 'a) handler" where
  "has_then x k f = seq (lift_res (r_has x k)) f"

definition get_then :: "(rvalue \<Rightarrow> 'v res) \<Rightarrow> rvalue \<Rightarrow> string \<Rightarrow> ('v \<Rightarrow> ('db, 'a) handler) \<Rightarrow> ('db, 'a) handler" where
  "get_then conv x k f = seq (lift_res (res_bind (r_get x k) conv)) f"

text \<open>An optional integer parameter; the 64-bit value is narrowed to \<^verbatim>\<open>int\<close>.\<close>

definition int_or :: "lib \<Rightarrow> rvalue \<Rightarrow> string \<Rightarrow> int \<Rightarrow> (int \<Rightarrow> ('db, 'a) handler) \<Rightarrow> ('db, 'a) handler" where
  "int_or L x k dflt f = has_then x k (\<lambda>has.
     if has then get_then (r_i L) x k (\<lambda>i. f (wrap32 i)) else f dflt)"

definition set_from :: "conn \<Rightarrow> wvalue \<Rightarrow> wvalue" where
  "set_from c w = (case userdata c of None \<Rightarrow> w | Some ident \<Rightarrow> w_set w ''from'' (WString ident))"

text \<open>\<open>Quarks().dump\<close> called from a handler.\<close>

definition node_dump :: "'db rocks \<Rightarrow> lib \<Rightarrow> string \<Rightarrow> string \<Rightarrow> ('db, bool \<times> string) handler" where
  "node_dump R L key val s = (let (r, n) = dump R L key val (node s) in (Inr r, s\<lparr>node := n\<rparr>))"

definition send_error :: "lib \<Rightarrow> conn \<Rightarrow> rvalue \<Rightarrow> string \<Rightarrow> ('db, unit) handler" where
  "send_error L c x out = seq (lift_res (wvalue_of_rvalue L x)) (\<lambda>w.
     send_frame c (Text (dump_json L
       (w_set (w_set WNull ''error'' (WString out)) ''object'' w))))"

text \<open>Its handler prints the message for the log, which converts every number in it.\<close>

definition caught_logging :: "lib \<Rightarrow> rvalue \<Rightarrow> ('db, bool) handler \<Rightarrow> ('db, bool) handler" where
  "caught_logging L rdata m s =
     (case m s of
        (Inl RuntimeError, s1) \<Rightarrow> (res_bind (wvalue_of_rvalue L rdata) (\<lambda>w. Inr True), s1)
      | r \<Rightarrow> r)"

definition onQueryMessage :: "'db rocks \<Rightarrow> lib \<Rightarrow> conn \<Rightarrow> rvalue \<Rightarrow> ('db, bool) handler" where
  "onQueryMessage R L c rdata = caught_logging L rdata (has_then rdata ''getkeys'' (\<lambda>has.
     if \<not> has then return True
     else int_or L rdata ''skip'' 0 (\<lambda>skip. int_or L rdata ''limit'' (-1) (\<lambda>limit.
       get_then r_s rdata ''getkeys'' (\<lambda>wild.
       seq (\<lambda>s. (getKeys R L wild [] skip limit (node s), s)) (\<lambda>(ret, out).
         if ret then
           seq (send_frame c (Text (dump_json L (w_set (w_set (w_set WNull
              ''replygetkeys'' (WList out)) ''skip'' (WNumber (double_of_int skip)))
              ''limit'' (WNumber (double_of_int limit)))))) (\<lambda>_. return True)
         else return True))))))"

text \<open>The part of a join that tells the room about it.\<close>

definition notify_join ::
    "'db rocks \<Rightarrow> lib \<Rightarrow> (nat \<Rightarrow> string) \<Rightarrow> conn \<Rightarrow> rvalue \<Rightarrow> string \<Rightarrow> ('db, unit) handler" where
  "notify_join R L clock c x room =
     has_then x ''data'' (\<lambda>hasData.
     seq (if hasData then get_then (wvalue_of_rvalue L) x ''data''
            (\<lambda>w. return (w_set (set_from c (w_set WNull ''joined'' (WString room))) ''data'' w))
          else return (set_from c (w_set WNull ''joined'' (WString room)))) (\<lambda>w.
     seq (timestamp clock) (\<lambda>t.
     let send = dump_json L (w_set w ''timestamp'' (WString t)) in
     has_then x ''key'' (\<lambda>hasKey.
       seq (if hasKey then get_then r_s x ''key'' (\<lambda>key.
              seq (node_dump R L key send) (\<lambda>(ret, out).
                if \<not> ret then send_error L c x out else return ()))
            else return ()) (\<lambda>_.
       broadcast room send)))))"

definition join_room ::
    "'db rocks \<Rightarrow> lib \<Rightarrow> (nat \<Rightarrow> string) \<Rightarrow> conn \<Rightarrow> rvalue \<Rightarrow> string \<Rightarrow> ('db, unit) handler" where
  "join_room R L clock c x room =
     (case userdata c of
        None \<Rightarrow> return ()
      | Some ident \<Rightarrow>
          has_then x ''notifyjoin'' (\<lambda>hasNotify.
          seq (if hasNotify then get_then r_b x ''notifyjoin''
                 (\<lambda>b. if b then notify_join R L clock c x room else return ())
               else return ()) (\<lambda>_.
          has_then x ''notifyleave'' (\<lambda>hasLeave.
          seq (if hasLeave then get_then r_b x ''notifyleave''
                 (\<lambda>b. change (\<lambda>s. s\<lparr>notifyAllOnClose := b\<rparr>))
               else return ()) (\<lambda>_.
          change (\<lambda>s. s\<lparr>connMap := sm_set (room_key room ident) (Some c) (connMap s),
                        userRoomsMap := sm_set (user_key ident room) room (userRoomsMap s)\<rparr>))))))"

text \<open>The loop of \<open>userlist\<close>; \<open>skip\<close> has been decremented.\<close>

fun user_list :: "int \<Rightarrow> int \<Rightarrow> (string \<times> conn option) list \<Rightarrow> int \<Rightarrow> wvalue list" where
  "user_list skip limit [] i = []"
| "user_list skip limit ((k, u) # us) i =
     (if i > skip \<and> i \<noteq> limit then WString k # user_list skip limit us (i + 1)
      else user_list skip limit us (i + 1))"

definition userlist :: "lib \<Rightarrow> (nat \<Rightarrow> string) \<Rightarrow> conn \<Rightarrow> rvalue \<Rightarrow> string \<Rightarrow> ('db, unit) handler" where
  "userlist L clock c x room =
     int_or L x ''skip'' 0 (\<lambda>skip. int_or L x ''limit'' (-1) (\<lambda>limit.
     seq (\<lambda>s. (Inr (user_list (wrap32 (skip - 1)) limit (lookup (connMap s) (room @ ''_'')) 0), s)) (\<lambda>list.
     seq (timestamp clock) (\<lambda>t.
       send_frame c (Text (dump_json L (w_set (w_set (w_set (w_set (w_set WNull
         ''room'' (WString room)) ''replyuserlist'' (WList list))
         ''skip'' (WNumber (double_of_int skip))) ''limit'' (WNumber (double_of_int limit)))
         ''timestamp'' (WString t))))))))"

text \<open>
  Delivery of a \<open>send\<close>: to one user of the room, where \<open>_connMap[key]\<close> creates a null entry
  for an unknown user, or to the whole room but the sender.
\<close>

definition deliver :: "conn \<Rightarrow> rvalue \<Rightarrow> string \<Rightarrow> string \<Rightarrow> string \<Rightarrow> bool \<Rightarrow> ('db, unit) handler" where
  "deliver c x room data send is_binary =
     has_then x ''to'' (\<lambda>hasTo.
       if hasTo then get_then r_s x ''to'' (\<lambda>to s.
         (case sm_find (connMap s) (room_key room to) of
            None \<Rightarrow> (Inr (), s\<lparr>connMap := sm_set (room_key room to) None (connMap s)\<rparr>)
          | Some None \<Rightarrow> (Inr (), s)
          | Some (Some u) \<Rightarrow> send_frame u (if is_binary then Binary data else Text send) s))
       else broadcast_skip room (if is_binary then data else send) c)"

definition send_message ::
    "'db rocks \<Rightarrow> lib \<Rightarrow> (nat \<Rightarrow> string) \<Rightarrow> conn \<Rightarrow> rvalue \<Rightarrow> string \<Rightarrow> bool \<Rightarrow> ('db, unit) handler" where
  "send_message R L clock c x data is_binary =
     has_then x ''room'' (\<lambda>hasRoom.
     seq (if hasRoom then get_then r_s x ''room'' return else return []) (\<lambda>room.
     get_then (wvalue_of_rvalue L) x ''send'' (\<lambda>msg.
     seq (timestamp clock) (\<lambda>t.
     let send = dump_json L (w_set (set_from c (w_set (w_set WNull ''room'' (WString room))
           ''message'' msg)) ''timestamp'' (WString t)) in
     has_then x ''key'' (\<lambda>hasKey.
       if hasKey then
         get_then r_s x ''key'' (\<lambda>key.
         seq (node_dump R L key send) (\<lambda>(ret, out).
           if \<not> ret then send_error L c x out
           else seq (send_frame c (Text (dump_json L (w_set (w_set (w_set WNull
                  ''room'' (WString room)) ''received'' WTrue) ''key'' (WString key))))) (\<lambda>_.
                deliver c x room data send is_binary)))
       else deliver c x room data send is_binary)))))"

text \<open>
  A message whose text is not JSON is dropped: a text message at once, a binary one by the
  exception its first access throws. The first access sorts the members of the message.
\<close>

definition onMessage ::
    "'db rocks \<Rightarrow> lib \<Rightarrow> (nat \<Rightarrow> string) \<Rightarrow> conn \<Rightarrow> string \<Rightarrow> bool \<Rightarrow> ('db, bool) handler" where
  "onMessage R L clock c data is_binary =
     (if data = [] then return True
      else case load data of
          None \<Rightarrow> return True
        | Some y \<Rightarrow>
            (let x = sort_members y in
             caught (
               has_then x ''connect'' (\<lambda>hasConnect.
               seq (if hasConnect then get_then r_b x ''connect'' (\<lambda>b. return ()) else return ()) (\<lambda>_.
               has_then x ''join'' (\<lambda>hasJoin.
                 if hasJoin then
                   get_then r_s x ''join'' (\<lambda>room.
                   seq (join_room R L clock c x room) (\<lambda>_. return True))
                 else has_then x ''userlist'' (\<lambda>hasList.
                   if hasList then
                     get_then r_s x ''userlist'' (\<lambda>room.
                     seq (userlist L clock c x room) (\<lambda>_. return True))
                   else has_then x ''send'' (\<lambda>hasSend.
                     if hasSend then
                       seq (send_message R L clock c x data is_binary) (\<lambda>_. return True)
                     else onQueryMessage R L c x)))))))) "

section \<open>The handlers of the socket server\<close>

definition ws_open :: "conn \<Rightarrow> ('db, unit) handler" where
  "ws_open c = change (\<lambda>s. s\<lparr>users := c # users s\<rparr>)"

definition ws_close :: "lib \<Rightarrow> (nat \<Rightarrow> string) \<Rightarrow> conn \<Rightarrow> ('db, unit) handler" where
  "ws_close L clock c = seq (onClose L clock c) (\<lambda>_.
     change (\<lambda>s. s\<lparr>users := filter (\<lambda>u. ptr u \<noteq> ptr c) (users s)\<rparr>))"

fun send_users :: "frame \<Rightarrow> conn list \<Rightarrow> ('db, unit) handler" where
  "send_users f [] = return ()"
| "send_users f (u # us) = seq (send_frame u f) (\<lambda>_. send_users f us)"

definition ws_message ::
    "'db rocks \<Rightarrow> lib \<Rightarrow> (nat \<Rightarrow> string) \<Rightarrow> conn \<Rightarrow> string \<Rightarrow> bool \<Rightarrow> ('db, unit) handler" where
  "ws_message R L clock c data is_binary =
     seq (onMessage R L clock c data is_binary) (\<lambda>preventDefault s.
       if preventDefault then (Inr (), s)
       else send_users (if is_binary then Binary data else Text data) (users s) s)"

end
