(* ===== verification/Rooms_Laws.thy ===== *)
theory Rooms_Laws
  imports Rooms Scan_Props
begin

text \<open>
  Safety of the rooms. The invariant \<open>room_inv\<close> ties every connection pointer in \<open>_connMap\<close>
  to an open connection and to the entry of \<open>_userRoomsMap\<close> that \<open>onClose\<close> needs to find it.
  It holds in every state reachable by opening, messages and closing, as long as identifiers
  have no underscore and rooms have a name; both conditions are needed, as the counterexamples
  at the end show. Two handlers are related to the state only through \<open>preserves\<close>, a
  predicate with one rule per combinator.
\<close>

section \<open>Preservation\<close>

definition preserves :: "('db rooms \<Rightarrow> bool) \<Rightarrow> ('db, 'a) handler \<Rightarrow> bool" where
  "preserves P m \<longleftrightarrow> (\<forall>s. P s \<longrightarrow> P (snd (m s)))"

named_theorems keeps \<open>rules for preserved predicates\<close>

lemma preservesD: "preserves P m \<Longrightarrow> P s \<Longrightarrow> m s = (r, s') \<Longrightarrow> P s'"
  unfolding preserves_def by (metis snd_conv)

lemma keeps_return [keeps]: "preserves P (return a)"
  by (simp add: preserves_def return_def)

lemma keeps_lift [keeps]: "preserves P (lift_res r)"
  by (simp add: preserves_def lift_res_def)

lemma keeps_seq [keeps]:
  assumes "preserves P m" and "\<And>a. preserves P (f a)"
  shows "preserves P (seq m f)"
  using assms unfolding preserves_def seq_def by (auto split: prod.split sum.split)

lemma keeps_change [keeps]: "(\<And>s. P s \<Longrightarrow> P (f s)) \<Longrightarrow> preserves P (change f)"
  by (simp add: preserves_def change_def)

lemma keeps_caught [keeps]: "preserves P m \<Longrightarrow> preserves P (caught m)"
  unfolding preserves_def caught_def
  by (auto split: prod.split sum.split exc.split)

lemma keeps_caught_logging [keeps]: "preserves P m \<Longrightarrow> preserves P (caught_logging L x m)"
  unfolding preserves_def caught_logging_def
  by (auto split: prod.split sum.split exc.split)

lemma keeps_if [keeps]: "preserves P m \<Longrightarrow> preserves P m' \<Longrightarrow> preserves P (if b then m else m')"
  by simp

lemma keeps_has [keeps]: "(\<And>b. preserves P (f b)) \<Longrightarrow> preserves P (has_then x k f)"
  unfolding has_then_def by (intro keeps)

lemma keeps_get [keeps]: "(\<And>v. preserves P (f v)) \<Longrightarrow> preserves P (get_then conv x k f)"
  unfolding get_then_def by (intro keeps)

lemma keeps_int_or [keeps]: "(\<And>i. preserves P (f i)) \<Longrightarrow> preserves P (int_or L x k d f)"
  unfolding int_or_def by (intro keeps)

lemma keeps_read [keeps]: "preserves P (\<lambda>s. (g s, s))"
  by (simp add: preserves_def)

text \<open>Predicates on the two maps and the open connections only.\<close>

definition about_maps :: "('db rooms \<Rightarrow> bool) \<Rightarrow> bool" where
  "about_maps P \<longleftrightarrow> (\<forall>s s'. connMap s' = connMap s \<longrightarrow> userRoomsMap s' = userRoomsMap s \<longrightarrow>
     users s' = users s \<longrightarrow> P s = P s')"

lemma about_mapsD:
  "about_maps P \<Longrightarrow> P s \<Longrightarrow> connMap s' = connMap s \<Longrightarrow> userRoomsMap s' = userRoomsMap s \<Longrightarrow>
   users s' = users s \<Longrightarrow> P s'"
  unfolding about_maps_def by blast

lemma keeps_send_frame [keeps]: "about_maps P \<Longrightarrow> preserves P (send_frame c f)"
  unfolding send_frame_def by (rule keeps_change) (erule about_mapsD, simp_all)

lemma keeps_timestamp [keeps]: "about_maps P \<Longrightarrow> preserves P (timestamp clock)"
  unfolding preserves_def timestamp_def by (auto elim: about_mapsD)

lemma keeps_node_dump [keeps]: "about_maps P \<Longrightarrow> preserves P (node_dump R L key val)"
  unfolding preserves_def node_dump_def by (auto elim!: about_mapsD split: prod.split)

lemma keeps_send_each [keeps]: "about_maps P \<Longrightarrow> preserves P (send_each skip f us)"
proof (induction us)
  case (Cons u us)
  then show ?case by (cases u) (auto intro!: keeps split: option.split)
qed (simp add: keeps)

lemma keeps_broadcast [keeps]: "about_maps P \<Longrightarrow> preserves P (broadcast room data)"
  using keeps_send_each unfolding preserves_def broadcast_def by blast

lemma keeps_broadcast_skip [keeps]: "about_maps P \<Longrightarrow> preserves P (broadcast_skip room data c)"
  using keeps_send_each unfolding preserves_def broadcast_skip_def by blast

lemma keeps_send_error [keeps]: "about_maps P \<Longrightarrow> preserves P (send_error L c x out)"
  unfolding send_error_def by (intro keeps)

lemma keeps_query [keeps]: "about_maps P \<Longrightarrow> preserves P (onQueryMessage R L c x)"
  unfolding onQueryMessage_def by (auto intro!: keeps split: prod.split)

lemma keeps_notify_join [keeps]: "about_maps P \<Longrightarrow> preserves P (notify_join R L clock c x room)"
  unfolding notify_join_def Let_def by (auto intro!: keeps split: prod.split)

lemma keeps_userlist [keeps]: "about_maps P \<Longrightarrow> preserves P (userlist L clock c x room)"
  unfolding userlist_def by (auto intro!: keeps)

lemma keeps_send_users [keeps]: "about_maps P \<Longrightarrow> preserves P (send_users f us)"
  by (induction us) (auto intro!: keeps)

section \<open>The invariant\<close>

definition plain :: "string \<Rightarrow> bool" where
  "plain ident \<longleftrightarrow> CHR ''_'' \<notin> set ident"

lemma takeWhile_plain: "plain i \<Longrightarrow> takeWhile (\<lambda>c. c \<noteq> CHR ''_'') (i @ CHR ''_'' # r) = i"
  unfolding plain_def by (induction i) auto

lemma user_key_inj: "plain i \<Longrightarrow> plain i' \<Longrightarrow> user_key i r = user_key i' r' \<longleftrightarrow> i = i' \<and> r = r'"
  using takeWhile_plain [of i r] takeWhile_plain [of i' r'] by (auto simp: user_key_def)

lemma room_key_inj: "plain i \<Longrightarrow> plain i' \<Longrightarrow> room_key r i = room_key r' i' \<longleftrightarrow> i = i' \<and> r = r'"
proof -
  assume "plain i" "plain i'"
  moreover have "rev (room_key r i) = user_key (rev i) (rev r)" for r i
    by (simp add: room_key_def user_key_def)
  ultimately show ?thesis using user_key_inj [of "rev i" "rev i'" "rev r" "rev r'"]
    by (metis plain_def rev_rev_ident set_rev)
qed

definition known :: "'db rooms \<Rightarrow> string \<Rightarrow> conn \<Rightarrow> bool" where
  "known s k c \<longleftrightarrow> c \<in> set (users s) \<and>
     (\<exists>ident room. userdata c = Some ident \<and> plain ident \<and> room \<noteq> [] \<and> k = room_key room ident \<and>
        sm_find (userRoomsMap s) (user_key ident room) = Some room)"

definition room_inv :: "'db rooms \<Rightarrow> bool" where
  "room_inv s \<longleftrightarrow> sm_inv (connMap s) \<and> sm_inv (userRoomsMap s) \<and> distinct (map ptr (users s)) \<and>
     (\<forall>k c. sm_find (connMap s) k = Some (Some c) \<longrightarrow> known s k c) \<and>
     (\<forall>k r. sm_find (userRoomsMap s) k = Some r \<longrightarrow> r \<noteq> [] \<and> (\<exists>ident. plain ident \<and> k = user_key ident r))"

lemma about_room_inv: "about_maps room_inv"
  by (auto simp: about_maps_def room_inv_def known_def)

text \<open>What a join adds, and the null entry a private message may add.\<close>

lemma room_inv_join:
  assumes "room_inv s" and "c \<in> set (users s)" and "userdata c = Some ident" and "plain ident"
    and "room \<noteq> []"
  shows "room_inv (s\<lparr>connMap := sm_set (room_key room ident) (Some c) (connMap s),
    userRoomsMap := sm_set (user_key ident room) room (userRoomsMap s)\<rparr>)"
proof -
  let ?s = "s\<lparr>connMap := sm_set (room_key room ident) (Some c) (connMap s),
    userRoomsMap := sm_set (user_key ident room) room (userRoomsMap s)\<rparr>"
  have new: "known ?s (room_key room ident) c"
    using assms(2-5) by (auto simp: known_def sm_find_set)
  have old: "known ?s k d" if kn: "known s k d" for k d
  proof -
    obtain i r where "d \<in> set (users s)" "userdata d = Some i" "plain i" "r \<noteq> []" "k = room_key r i"
      "sm_find (userRoomsMap s) (user_key i r) = Some r"
      using kn unfolding known_def by blast
    moreover from this have "sm_find (userRoomsMap ?s) (user_key i r) = Some r"
      using assms(4) by (simp add: sm_find_set user_key_inj)
    ultimately show ?thesis unfolding known_def by simp blast
  qed
  have "known ?s k d" if "sm_find (connMap ?s) k = Some (Some d)" for k d
    using that new old assms(1) by (simp add: sm_find_set room_inv_def split: if_splits)
  moreover have "r \<noteq> [] \<and> (\<exists>i. plain i \<and> k = user_key i r)" if "sm_find (userRoomsMap ?s) k = Some r" for k r
    using that assms by (auto simp: sm_find_set room_inv_def split: if_splits)
  ultimately show ?thesis
    using assms(1) unfolding room_inv_def by (simp add: sm_inv_set)
qed

lemma room_inv_null: "room_inv s \<Longrightarrow> room_inv (s\<lparr>connMap := sm_set k None (connMap s)\<rparr>)"
  by (auto simp: room_inv_def known_def sm_inv_set sm_find_set split: if_splits)

section \<open>Messages keep the invariant\<close>

text \<open>A message that does not join the room without a name.\<close>

definition named_join :: "string \<Rightarrow> bool" where
  "named_join data = (case load data of
     None \<Rightarrow> True
   | Some x \<Rightarrow> (case res_bind (r_get (sort_members x) ''join'') r_s of Inr room \<Rightarrow> room \<noteq> [] | Inl _ \<Rightarrow> True))"

text \<open>The invariant together with an open connection.\<close>

definition open_inv :: "conn \<Rightarrow> 'db rooms \<Rightarrow> bool" where
  "open_inv c s \<longleftrightarrow> room_inv s \<and> c \<in> set (users s)"

lemma about_open_inv [simp]: "about_maps (open_inv c)"
  by (auto simp: about_maps_def open_inv_def room_inv_def known_def)

lemma keeps_join_room:
  assumes "case userdata c of None \<Rightarrow> True | Some ident \<Rightarrow> plain ident" and "room \<noteq> []"
  shows "preserves (open_inv c) (join_room R L clock c x room)"
proof (cases "userdata c")
  case (Some ident)
  have "open_inv c (s\<lparr>connMap := sm_set (room_key room ident) (Some c) (connMap s),
      userRoomsMap := sm_set (user_key ident room) room (userRoomsMap s)\<rparr>)" if "open_inv c s"
    for s :: "'a rooms"
    using room_inv_join [of s c ident room] assms Some that by (simp add: open_inv_def)
  moreover have "open_inv c (s\<lparr>notifyAllOnClose := b\<rparr>)" if "open_inv c s" for s :: "'a rooms" and b
    using that by (rule about_mapsD [OF about_open_inv]) simp_all
  ultimately show ?thesis unfolding join_room_def Some by (auto intro!: keeps)
qed (simp add: join_room_def keeps)

lemma keeps_deliver: "preserves (open_inv c) (deliver d x room data send bin)"
proof -
  have "open_inv c (s\<lparr>connMap := sm_set k None (connMap s)\<rparr>)" if "open_inv c s" for s :: "'a rooms" and k
    using that by (simp add: open_inv_def room_inv_null)
  moreover have "open_inv c (snd (send_frame u f s))" if "open_inv c s" for s :: "'a rooms" and u f
    using that keeps_send_frame [OF about_open_inv] unfolding preserves_def by blast
  ultimately have "preserves (open_inv c) (\<lambda>s :: 'a rooms. case sm_find (connMap s) k of
      None \<Rightarrow> (Inr (), s\<lparr>connMap := sm_set k None (connMap s)\<rparr>)
    | Some None \<Rightarrow> (Inr (), s) | Some (Some u) \<Rightarrow> send_frame u f s)" for k f
    unfolding preserves_def by (auto split: option.split)
  then show ?thesis unfolding deliver_def by (auto intro!: keeps)
qed

lemma keeps_send_message: "preserves (open_inv c) (send_message R L clock d x data bin)"
  unfolding send_message_def Let_def by (auto intro!: keeps keeps_deliver split: prod.split)

lemma keeps_get_when:
  assumes "\<And>v. res_bind (r_get x k) conv = Inr v \<Longrightarrow> preserves P (f v)"
  shows "preserves P (get_then conv x k f)"
  using assms unfolding get_then_def preserves_def seq_def lift_res_def by (auto split: sum.split)

lemma keeps_onMessage:
  assumes "case userdata c of None \<Rightarrow> True | Some ident \<Rightarrow> plain ident" and "named_join data"
  shows "preserves (open_inv c) (onMessage R L clock c data bin)"
proof (cases "load data")
  case (Some y)
  have join: "preserves (open_inv c) (get_then r_s (sort_members y) ''join'' (\<lambda>room.
      seq (join_room R L clock c (sort_members y) room) (\<lambda>_. return True)))"
  proof (rule keeps_get_when)
    fix room assume "res_bind (r_get (sort_members y) ''join'') r_s = Inr room"
    then have "room \<noteq> []" using assms(2) by (simp add: named_join_def Some)
    then show "preserves (open_inv c)
        (seq (join_room R L clock c (sort_members y) room) (\<lambda>_. return True))"
      by (intro keeps_seq keeps_join_room [OF assms(1)] keeps_return)
  qed
  show ?thesis unfolding onMessage_def Let_def Some
    by (auto intro!: keeps_if keeps_return keeps_caught keeps_has keeps_seq join keeps_userlist
        keeps_send_message keeps_query keeps_get)
qed (simp add: onMessage_def keeps)

lemma keeps_ws_message:
  assumes "case userdata c of None \<Rightarrow> True | Some ident \<Rightarrow> plain ident" and "named_join data"
  shows "preserves (open_inv c) (ws_message R L clock c data bin)"
proof -
  have "preserves (open_inv c) (\<lambda>s :: 'a rooms. if b then (Inr (), s) else send_users f (users s) s)" for b f
    by (simp add: preserves_def
        keeps_send_users [OF about_open_inv, unfolded preserves_def, rule_format])
  then show ?thesis unfolding ws_message_def by (intro keeps_seq keeps_onMessage [OF assms])
qed

section \<open>Closing keeps the invariant\<close>

lemma leave_rooms_maps:
  "leave_rooms L clock c ident rooms s = (Inr (), s') \<Longrightarrow>
     connMap s' = fold (\<lambda>e. sm_erase (room_key (snd e) ident)) rooms (connMap s) \<and>
     userRoomsMap s' = userRoomsMap s \<and> users s' = users s"
proof (induction rooms arbitrary: s)
  case (Cons e rooms)
  obtain k room where e: "e = (k, room)" by (cases e)
  let ?P = "\<lambda>t :: 'a rooms. connMap t = connMap s \<and> userRoomsMap t = userRoomsMap s \<and> users t = users s"
  let ?n = "\<lambda>s :: 'a rooms. if notifyAllOnClose s then seq (timestamp clock) (\<lambda>t.
      broadcast_skip room (dump_json L (w_set (w_set (w_set WNull ''left'' (WString room))
        ''from'' (WString ident)) ''timestamp'' (WString t))) c) s else return () s"
  have P: "about_maps ?P" by (simp add: about_maps_def)
  then have "preserves ?P (seq (timestamp clock) (\<lambda>t.
      broadcast_skip room (dump_json L (w_set (w_set (w_set WNull ''left'' (WString room))
        ''from'' (WString ident)) ''timestamp'' (WString t))) c))"
    by (intro keeps)
  then have n: "?P (snd (?n s))" by (simp add: preserves_def return_def)
  obtain r s1 where s1: "?n s = (r, s1)" by fastforce
  with Cons.prems obtain u where r: "r = Inr u"
    unfolding e by (cases r) (simp_all add: seq_def [of ?n])
  have "leave_rooms L clock c ident rooms (s1\<lparr>connMap := sm_erase (room_key room ident) (connMap s1)\<rparr>) =
      (Inr (), s')"
    using Cons.prems s1 r unfolding e by (simp add: seq_def [of ?n] seq_def [of "change _"] change_def)
  from Cons.IH [OF this] n s1 show ?case by (simp add: e)
qed (simp add: return_def)

lemma sm_inv_erases: "sm_inv m \<Longrightarrow> sm_inv (fold (\<lambda>e. sm_erase (f e)) es m)"
  by (induction es arbitrary: m) (simp_all add: sm_inv_erase)

lemma sm_find_erases:
  "sm_inv m \<Longrightarrow> sm_find (fold (\<lambda>e. sm_erase (f e)) es m) k = (if k \<in> f ` set es then None else sm_find m k)"
  by (induction es arbitrary: m) (auto simp: sm_inv_erase sm_find_erase)

text \<open>On a map with no entry for the key itself, \<open>lookup\<close> finds the entries it is a prefix of.\<close>

lemma lookup_prefix:
  assumes "sm_inv m" and "sm_find m key = None"
  shows "lookup m key = filter (\<lambda>e. starts_with (fst e) key) m"
proof -
  have run: "takeWhile (\<lambda>e. starts_with (fst e) key) (snd (sm_lower_bound m key)) =
      filter (\<lambda>e. starts_with (fst e) key) m"
    using sm.prefix_run [OF assms(1), of key] by (simp add: sm_lower_bound_def)
  have "key \<notin> fst ` set m" using assms(2) by (simp add: sm_find_def map_of_eq_None_iff)
  moreover have "set (snd (sm_lower_bound m key)) \<subseteq> set m"
    by (auto simp: sm_lower_bound_def dest: set_dropWhileD)
  ultimately have other: "key \<notin> fst ` set (snd (sm_lower_bound m key))" by blast
  show ?thesis
  proof (cases "snd (sm_lower_bound m key)")
    case Nil
    then show ?thesis using run by (simp add: lookup_def)
  next
    case (Cons e rest)
    obtain k v where e: "e = (k, v)" by (cases e)
    have "k \<noteq> key" using other by (auto simp: Cons e)
    then show ?thesis using run by (simp add: lookup_def Cons e)
  qed
qed

lemma lookup_user_rooms:
  assumes "room_inv s" and "plain ident"
  shows "set (lookup (userRoomsMap s) (user_key ident [])) =
    {(user_key ident r, r) | r. sm_find (userRoomsMap s) (user_key ident r) = Some r}"
proof -
  let ?m = "userRoomsMap s"
  have inv: "sm_inv ?m" using assms(1) by (simp add: room_inv_def)
  have form: "(k, r) \<in> set ?m \<longleftrightarrow> sm_find ?m k = Some r" for k r
    by (rule sm.entries_iff [OF inv])
  have keys: "sm_find ?m k = Some r \<Longrightarrow> r \<noteq> [] \<and> (\<exists>i. plain i \<and> k = user_key i r)" for k r
    using assms(1) unfolding room_inv_def by blast
  have none: "sm_find ?m (user_key ident []) = None"
  proof (rule ccontr)
    assume "sm_find ?m (user_key ident []) \<noteq> None"
    then obtain r i where "r \<noteq> []" "plain i" "user_key ident [] = user_key i r" using keys by blast
    then show False using user_key_inj [of ident i "[]" r] assms(2) by simp
  qed
  have "starts_with k (user_key ident []) \<longleftrightarrow> k = user_key ident r" if k: "sm_find ?m k = Some r" for k r
  proof -
    obtain i where i: "plain i" "k = user_key i r" using keys [OF k] by blast
    have "prefix (user_key ident []) (user_key i r) \<longleftrightarrow> (\<exists>u. user_key i r = user_key ident u)"
      by (auto simp: prefix_def user_key_def)
    then show ?thesis using i assms(2) by (auto simp: starts_with_prefix user_key_inj)
  qed
  then show ?thesis unfolding lookup_prefix [OF inv none] by (auto simp: form)
qed

lemma room_inv_close:
  assumes "room_inv s" and "c \<in> set (users s)" and "userdata c = Some ident" and "plain ident"
    and "ws_close L clock c s = (Inr (), s')"
  shows "room_inv s' \<and> (\<forall>d \<in> set (users s'). ptr d \<noteq> ptr c) \<and>
    (\<forall>k d. sm_find (connMap s') k = Some (Some d) \<longrightarrow> ptr d \<noteq> ptr c)"
proof -
  let ?rooms = "lookup (userRoomsMap s) (user_key ident [])"
  have inv: "sm_inv (connMap s)" "sm_inv (userRoomsMap s)" using assms(1) by (simp_all add: room_inv_def)
  obtain s1 where s1: "leave_rooms L clock c ident ?rooms s = (Inr (), s1)"
    using assms(3,5) by (auto simp: ws_close_def onClose_def seq_def Let_def split: prod.splits sum.splits)
  note maps = leave_rooms_maps [OF s1]
  have s': "connMap s' = fold (\<lambda>e. sm_erase (room_key (snd e) ident)) ?rooms (connMap s)"
    "userRoomsMap s' = fold (\<lambda>e. sm_erase (fst e)) ?rooms (userRoomsMap s)"
    "users s' = filter (\<lambda>u. ptr u \<noteq> ptr c) (users s)"
    using assms(3,5) s1 maps by (auto simp: ws_close_def onClose_def seq_def Let_def change_def)
  have kept: "known s' k d \<and> ptr d \<noteq> ptr c" if found: "sm_find (connMap s') k = Some (Some d)" for k d
  proof -
    have left: "k \<notin> (\<lambda>e. room_key (snd e) ident) ` set ?rooms" "sm_find (connMap s) k = Some (Some d)"
      using found by (simp_all add: s' sm_find_erases [OF inv(1)] split: if_splits)
    then have "known s k d" using assms(1) by (simp add: room_inv_def)
    then obtain i r where d: "d \<in> set (users s)" "userdata d = Some i" "plain i" "r \<noteq> []"
      "k = room_key r i" "sm_find (userRoomsMap s) (user_key i r) = Some r"
      unfolding known_def by blast
    have "i \<noteq> ident"
      using left(1) d lookup_user_rooms [OF assms(1,4)] by force
    then have "d \<noteq> c" using d(2) assms(3) by auto
    then have "ptr d \<noteq> ptr c"
      using assms(1,2) d(1) by (auto simp: room_inv_def distinct_map inj_on_def)
    moreover have "sm_find (userRoomsMap s') (user_key i r) = Some r"
      using d \<open>i \<noteq> ident\<close> assms(4)
      by (auto simp: s' sm_find_erases [OF inv(2)] lookup_user_rooms [OF assms(1,4)] user_key_inj)
    ultimately show ?thesis using d s'(3) unfolding known_def by auto
  qed
  have "r \<noteq> [] \<and> (\<exists>i. plain i \<and> k = user_key i r)" if "sm_find (userRoomsMap s') k = Some r" for k r
    using that assms(1) by (simp add: s' sm_find_erases [OF inv(2)] room_inv_def split: if_splits)
  with kept have "room_inv s'"
    using assms(1) inv unfolding room_inv_def
    by (simp add: s' distinct_map_filter sm_inv_erases)
  then show ?thesis using kept s'(3) by simp
qed

section \<open>Reachable states\<close>

definition plain_conn :: "conn \<Rightarrow> bool" where
  "plain_conn c = (case userdata c of None \<Rightarrow> True | Some ident \<Rightarrow> plain ident)"

text \<open>What can happen to a server whose clients use identifiers without underscore and named
  rooms. Undefined behaviour and exceptions that leave a handler end the run in the case of
  closing; a message may be handled or fail.\<close>

inductive rooms_step ::
    "'db rocks \<Rightarrow> lib \<Rightarrow> (nat \<Rightarrow> string) \<Rightarrow> 'db rooms \<Rightarrow> 'db rooms \<Rightarrow> bool"
  for R L clock where
  opened: "plain_conn c \<Longrightarrow> ptr c \<notin> ptr ` set (users s) \<Longrightarrow> rooms_step R L clock s (snd (ws_open c s))"
| messaged: "c \<in> set (users s) \<Longrightarrow> named_join data \<Longrightarrow> ws_message R L clock c data bin s = (r, s') \<Longrightarrow>
    rooms_step R L clock s s'"
| closed: "c \<in> set (users s) \<Longrightarrow> ws_close L clock c s = (Inr (), s') \<Longrightarrow> rooms_step R L clock s s'"

inductive_cases rooms_stepE: "rooms_step R L clock s s'"

inductive rooms_reachable ::
    "'db rocks \<Rightarrow> lib \<Rightarrow> (nat \<Rightarrow> string) \<Rightarrow> 'db rooms \<Rightarrow> bool"
  for R L clock where
  start: "connMap s = [] \<Longrightarrow> userRoomsMap s = [] \<Longrightarrow> users s = [] \<Longrightarrow> rooms_reachable R L clock s"
| step: "rooms_reachable R L clock s \<Longrightarrow> rooms_step R L clock s s' \<Longrightarrow> rooms_reachable R L clock s'"

definition server_inv :: "'db rooms \<Rightarrow> bool" where
  "server_inv s \<longleftrightarrow> room_inv s \<and> list_all plain_conn (users s)"

text \<open>Handling a message changes the open connections in no way.\<close>

lemma users_preserved: "preserves (\<lambda>s. users s = us) (ws_message R L clock c data bin)"
proof -
  let ?P = "\<lambda>s :: 'a rooms. users s = us"
  have P: "about_maps ?P" by (simp add: about_maps_def)
  have join: "preserves ?P (join_room R L clock c x room)" for x room
    unfolding join_room_def by (auto intro!: keeps P split: option.split)
  have "preserves ?P (\<lambda>s :: 'a rooms. case sm_find (connMap s) k of
      None \<Rightarrow> (Inr (), s\<lparr>connMap := sm_set k None (connMap s)\<rparr>)
    | Some None \<Rightarrow> (Inr (), s) | Some (Some u) \<Rightarrow> send_frame u f s)" for k f
    by (auto simp: preserves_def send_frame_def change_def split: option.split)
  then have "preserves ?P (deliver c x room data send bin)" for x room send
    unfolding deliver_def by (auto intro!: keeps P)
  then have "preserves ?P (send_message R L clock c x data bin)" for x
    unfolding send_message_def Let_def by (auto intro!: keeps P split: prod.split)
  then have "preserves ?P (onMessage R L clock c data bin)"
    unfolding onMessage_def Let_def by (auto intro!: keeps P join split: option.split)
  moreover have "preserves ?P (\<lambda>s :: 'a rooms. if b then (Inr (), s) else send_users f (users s) s)" for b f
    by (simp add: preserves_def keeps_send_users [OF P, unfolded preserves_def, rule_format])
  ultimately show ?thesis unfolding ws_message_def by (intro keeps_seq)
qed

lemma server_inv_open:
  assumes "server_inv s" and "plain_conn c" and "ptr c \<notin> ptr ` set (users s)"
  shows "server_inv (snd (ws_open c s))"
  using assms by (auto simp: server_inv_def room_inv_def known_def ws_open_def change_def)

lemma server_inv_message:
  assumes "server_inv s" and "c \<in> set (users s)" and "named_join data"
    and "ws_message R L clock c data bin s = (r, s')"
  shows "server_inv s'"
proof -
  have "plain_conn c" using assms(1,2) by (auto simp: server_inv_def list_all_iff)
  then have "preserves (open_inv c) (ws_message R L clock c data bin)"
    using keeps_ws_message assms(3) unfolding plain_conn_def by blast
  then have "open_inv c s'"
    using preservesD assms(1,2,4) by (metis open_inv_def server_inv_def)
  moreover have "users s' = users s" using preservesD [OF users_preserved _ assms(4)] by simp
  ultimately show ?thesis using assms(1) by (simp add: server_inv_def open_inv_def)
qed

lemma server_inv_close:
  assumes "server_inv s" and "c \<in> set (users s)" and "ws_close L clock c s = (Inr (), s')"
  shows "server_inv s'"
proof (cases "userdata c")
  case None
  have s': "s' = s\<lparr>users := filter (\<lambda>u. ptr u \<noteq> ptr c) (users s)\<rparr>"
    using assms(3) None by (simp add: ws_close_def onClose_def seq_def change_def)
  have "ptr d \<noteq> ptr c" if "userdata d \<noteq> None" "d \<in> set (users s)" for d
    using assms(1,2) that None by (auto simp: server_inv_def room_inv_def distinct_map inj_on_def)
  then show ?thesis using assms(1)
    by (fastforce simp: server_inv_def room_inv_def known_def s' distinct_map_filter list_all_iff)
next
  case (Some ident)
  have "plain ident" using assms(1,2) Some by (auto simp: server_inv_def list_all_iff plain_conn_def)
  moreover have "set (users s') \<subseteq> set (users s)"
    using assms(3) leave_rooms_maps Some
    by (fastforce simp: ws_close_def onClose_def seq_def Let_def change_def split: prod.splits sum.splits)
  ultimately show ?thesis using room_inv_close [OF _ assms(2) Some _ assms(3)] assms(1)
    by (auto simp: server_inv_def list_all_iff)
qed

lemma server_inv_step: "rooms_step R L clock s s' \<Longrightarrow> server_inv s \<Longrightarrow> server_inv s'"
  by (erule rooms_stepE) (auto intro: server_inv_open server_inv_message server_inv_close)

lemma server_inv_reachable: "rooms_reachable R L clock s \<Longrightarrow> server_inv s"
proof (induction rule: rooms_reachable.induct)
  case (start s)
  then show ?case by (simp add: server_inv_def room_inv_def sm_find_def)
qed (rule server_inv_step)

section \<open>Who receives a broadcast\<close>

lemma send_each_null: "(k, None) \<in> set us \<Longrightarrow> fst (send_each (\<lambda>c. False) f us s) = Inl Undefined"
  by (induction us arbitrary: s)
    (auto simp: seq_def send_frame_def change_def lift_res_def split: option.split)

lemma send_each_sent:
  "list_all (\<lambda>(k, u). u \<noteq> None) us \<Longrightarrow> send_each (\<lambda>c. False) f us s =
     (Inr (), s\<lparr>sent := sent s @ map (\<lambda>(k, u). (the u, f)) us\<rparr>)"
proof (induction us arbitrary: s)
  case (Cons e us)
  obtain k u where "e = (k, u)" by (cases e)
  then show ?case using Cons by (auto simp: seq_def send_frame_def change_def)
qed (simp add: return_def)

text \<open>A server with two clients, for the concrete runs.\<close>

definition ann :: conn where "ann = \<lparr>ptr = 1, userdata = Some ''ann''\<rparr>"
definition bob :: conn where "bob = \<lparr>ptr = 2, userdata = Some ''bob''\<rparr>"

definition lobby :: "memdb rooms" where
  "lobby = \<lparr>connMap = [], userRoomsMap = [], notifyAllOnClose = True, users = [], sent = [],
     ticks = 0, node = mem_node []\<rparr>"

definition after_message :: "conn \<Rightarrow> string \<Rightarrow> memdb rooms \<Rightarrow> memdb rooms" where
  "after_message c data s = snd (ws_message mem_rocks mem_lib (\<lambda>n. ''now'') c data False s)"

definition ann_in_r :: "memdb rooms" where
  "ann_in_r = after_message ann ''{\"join\":\"r\"}'' (snd (ws_open ann lobby))"

lemma ann_in_r_reachable: "rooms_reachable mem_rocks mem_lib (\<lambda>n. ''now'') ann_in_r"
proof -
  have "rooms_reachable mem_rocks mem_lib (\<lambda>n. ''now'') lobby"
    by (rule rooms_reachable.start) (simp_all add: lobby_def)
  moreover have "rooms_step mem_rocks mem_lib (\<lambda>n. ''now'') lobby (snd (ws_open ann lobby))"
    by (rule opened) (simp_all add: plain_conn_def ann_def plain_def lobby_def)
  moreover have "rooms_step mem_rocks mem_lib (\<lambda>n. ''now'') (snd (ws_open ann lobby)) ann_in_r"
  proof (rule messaged)
    show "ann \<in> set (users (snd (ws_open ann lobby)))" by (simp add: ws_open_def change_def)
    show "named_join ''{\"join\":\"r\"}''" by code_simp
    show "ws_message mem_rocks mem_lib (\<lambda>n. ''now'') ann ''{\"join\":\"r\"}'' False
        (snd (ws_open ann lobby)) = (fst (ws_message mem_rocks mem_lib (\<lambda>n. ''now'') ann
          ''{\"join\":\"r\"}'' False (snd (ws_open ann lobby))), ann_in_r)"
      by (simp add: ann_in_r_def after_message_def)
  qed
  ultimately show ?thesis by (blast intro: rooms_reachable.step)
qed

lemma ann_joined: "connMap ann_in_r = [(''r_ann'', Some ann)]"
  by code_simp

text \<open>C15: in every reachable state every connection pointer kept for a room belongs to an open
  connection, so that a broadcast never writes to a closed one; identifiers have no underscore
  and rooms have a name.\<close>

theorem rooms_no_dangling:
  assumes "rooms_reachable R L clock s" and "sm_find (connMap s) k = Some (Some c)"
  shows "c \<in> set (users s)"
  using server_inv_reachable [OF assms(1)] assms(2)
  by (auto simp: server_inv_def room_inv_def known_def)

theorem rooms_no_dangling_witness: "ann \<in> set (users ann_in_r)"
  by (rule rooms_no_dangling [OF ann_in_r_reachable, of "''r_ann''"])
    (simp add: ann_joined sm_find_def)

text \<open>C21: when no key equals the room's name and no null pointer is in the way, a broadcast goes,
  in key order, to exactly the entries whose key begins with the name, which are the members
  of the room and of every room whose name extends it.\<close>

theorem broadcast_recipients:
  assumes "sm_inv (connMap s)" and "sm_find (connMap s) room = None"
    and "list_all (\<lambda>(k, u). u \<noteq> None) (connMap s)"
  shows "broadcast room data s = (Inr (), s\<lparr>sent := sent s @
    map (\<lambda>(k, u). (the u, Text data)) (filter (\<lambda>e. starts_with (fst e) room) (connMap s))\<rparr>)"
  unfolding broadcast_def lookup_prefix [OF assms(1,2)]
  by (rule send_each_sent) (use assms(3) in \<open>auto simp: list_all_iff\<close>)

theorem broadcast_recipients_witness:
  "broadcast ''r'' ''hi'' ann_in_r = (Inr (), ann_in_r\<lparr>sent := sent ann_in_r @
    map (\<lambda>(k, u). (the u, Text ''hi'')) (filter (\<lambda>e. starts_with (fst e) ''r'') (connMap ann_in_r))\<rparr>)"
  by (rule broadcast_recipients) (simp_all add: ann_joined sm_find_def sm_inv_def)

text \<open>A private message to a user who is not in the room leaves a null pointer in the
  connection map, and the next broadcast to that room dereferences it.\<close>

theorem private_message_breaks_room:
  assumes "sm_inv (connMap s)" and "sm_find (connMap s) room = None"
    and "r_has x ''to'' = Inr True" and "res_bind (r_get x ''to'') r_s = Inr name"
    and "sm_find (connMap s) (room_key room name) = None"
  shows "fst (broadcast room msg (snd (deliver c x room data send bin s))) = Inl Undefined"
proof -
  let ?m = "sm_set (room_key room name) None (connMap s)"
  have "connMap (snd (deliver c x room data send bin s)) = ?m"
    by (simp add: deliver_def has_then_def get_then_def seq_def lift_res_def assms)
  moreover have "sm_find ?m room = None"
    using assms(2) by (simp add: sm_find_set room_key_def)
  moreover have "(room_key room name, None) \<in> set ?m"
    by (simp add: sm.entries_iff [OF sm_inv_set [OF assms(1)]] sm_find_set)
  moreover have "starts_with (room_key room name) room"
    by (simp add: starts_with_def room_key_def)
  ultimately show ?thesis unfolding broadcast_def
    by (intro send_each_null [of "room_key room name"]) (simp add: lookup_prefix sm_inv_set [OF assms(1)])
qed

theorem private_message_breaks_room_witness:
  "fst (broadcast ''r'' ''hi'' (snd (deliver ann (RObject [(''to'', RString ''eve'')]) ''r'' [] [] False
     ann_in_r))) = Inl Undefined"
  by (rule private_message_breaks_room [where name = "''eve''"])
    (simp_all add: ann_joined sm_find_def sm_inv_def room_key_def)

text \<open>The reply to \<open>userlist\<close> has every member from position \<open>skip\<close> on except the one at
  position \<open>limit\<close>: the limit drops one entry and does not bound the list.\<close>

theorem user_list_ignores_limit:
  "user_list (skip - 1) limit us 0 =
     map (\<lambda>e. WString (fst e)) (nths us {j. skip \<le> int j \<and> int j \<noteq> limit})"
proof -
  have "user_list (skip - 1) limit us i =
      map (\<lambda>e. WString (fst e)) (nths us {j. skip \<le> int j + i \<and> int j + i \<noteq> limit})" for i
  proof (induction us arbitrary: i)
    case (Cons e us)
    have "{j. Suc j \<in> {j. skip \<le> int j + i \<and> int j + i \<noteq> limit}} =
        {j. skip \<le> int j + (i + 1) \<and> int j + (i + 1) \<noteq> limit}"
      by auto
    then show ?case using Cons [of "i + 1"] by (cases e) (auto simp: nths_Cons)
  qed simp
  from this [of 0] show ?thesis by simp
qed

text \<open>With an underscore in an identifier the guarantee fails: closing the connection of
  \<open>a\<close> removes the rooms of \<open>a_b\<close>, and when \<open>a_b\<close> closes as well its pointer stays in the map.\<close>

theorem underscore_leaves_dangling:
  "let a = \<lparr>ptr = 1, userdata = Some ''a''\<rparr>; ab = \<lparr>ptr = 2, userdata = Some ''a_b''\<rparr>;
       s1 = after_message ab ''{\"join\":\"r\"}'' (snd (ws_open ab (snd (ws_open a lobby))));
       s2 = snd (ws_close mem_lib (\<lambda>n. ''now'') ab (snd (ws_close mem_lib (\<lambda>n. ''now'') a s1)))
   in users s2 = [] \<and> connMap s2 = [(''r_a_b'', Some ab)]"
  by code_simp

end
