(* ===== verification/Orm.thy ===== *)
theory Orm
  imports Scan_Props
begin

text \<open>
  Filtering and sorting of results: \<^verbatim>\<open>struct ORM\<close> of \<^verbatim>\<open>include/orm.hpp\<close>, \<^verbatim>\<open>JsonComparer\<close> of
  \<^verbatim>\<open>include/qsorter.hpp\<close> and \<open>Core::getSorted\<close>. The filter routines catch every C++ exception;
  only undefined behaviour escapes them. \<^verbatim>\<open>std::sort\<close> is a parameter \<open>srt\<close> whose contract says what
  the standard promises for a comparison that is a strict weak order; for any other comparison,
  and for one that does not return, the result of sorting is left undefined.
\<close>

section \<open>Filters\<close>

text \<open>\<^verbatim>\<open>catch (const std::exception&)\<close>.\<close>

definition catch_all :: "'a \<Rightarrow> 'a res \<Rightarrow> 'a res" where
  "catch_all dflt r = (case r of Inl e \<Rightarrow> if e = Undefined then Inl Undefined else Inr dflt | Inr b \<Rightarrow> Inr b)"

definition compareValues :: "lib \<Rightarrow> rvalue \<Rightarrow> string \<Rightarrow> rvalue \<Rightarrow> bool res" where
  "compareValues L jsonValue key target = catch_all False
     (res_bind (r_has jsonValue key) (\<lambda>has.
      if \<not> has then Inr False
      else res_bind (r_get jsonValue key) (\<lambda>fieldValue.
        case fieldValue of
          RString t \<Rightarrow> res_bind (r_s fieldValue) (\<lambda>a. res_bind (r_s target) (\<lambda>b. Inr (a = b)))
        | RNumber t \<Rightarrow> res_bind (r_d L fieldValue) (\<lambda>a. res_bind (r_d L target) (\<lambda>b. Inr (double_eq a b)))
        | RTrue \<Rightarrow> res_bind (r_b target) (\<lambda>b. Inr (b = True))
        | RFalse \<Rightarrow> res_bind (r_b target) (\<lambda>b. Inr (b = False))
        | _ \<Rightarrow> Inr False)))"

definition checkEq :: "lib \<Rightarrow> rvalue \<Rightarrow> string \<Rightarrow> rvalue \<Rightarrow> bool res" where
  "checkEq L jsonValue key target = compareValues L jsonValue key target"

fun any_equal :: "lib \<Rightarrow> rvalue \<Rightarrow> string \<Rightarrow> (string \<times> rvalue) list \<Rightarrow> bool res" where
  "any_equal L jsonValue key [] = Inr False"
| "any_equal L jsonValue key ((u, check) # checks) =
     res_bind (compareValues L jsonValue key check) (\<lambda>b.
       if b then Inr True else any_equal L jsonValue key checks)"

definition checkEqAny :: "lib \<Rightarrow> rvalue \<Rightarrow> string \<Rightarrow> rvalue \<Rightarrow> bool res" where
  "checkEqAny L jsonValue key targets = catch_all False
     (res_bind (r_has jsonValue key) (\<lambda>has.
        if has then res_bind (r_members targets) (any_equal L jsonValue key) else Inr False))"

definition checkNotEq :: "lib \<Rightarrow> rvalue \<Rightarrow> string \<Rightarrow> rvalue \<Rightarrow> bool res" where
  "checkNotEq L jsonValue key target = res_bind (compareValues L jsonValue key target) (\<lambda>b. Inr (\<not> b))"

definition checkNotIn :: "lib \<Rightarrow> rvalue \<Rightarrow> string \<Rightarrow> rvalue \<Rightarrow> bool res" where
  "checkNotIn L jsonValue key targets = catch_all True
     (res_bind (r_has jsonValue key) (\<lambda>has.
        if has then res_bind (res_bind (r_members targets) (any_equal L jsonValue key)) (\<lambda>b. Inr (\<not> b))
        else Inr True))"

text \<open>One field of a clause: the first operator present decides.\<close>

definition check_field :: "lib \<Rightarrow> rvalue \<Rightarrow> string \<Rightarrow> rvalue \<Rightarrow> bool res" where
  "check_field L jsonValue key condition =
     res_bind (r_has condition ''eq'') (\<lambda>eq.
     if eq then res_bind (r_get condition ''eq'') (checkEq L jsonValue key)
     else res_bind (r_has condition ''eq_any'') (\<lambda>eq_any.
     if eq_any then res_bind (r_get condition ''eq_any'') (checkEqAny L jsonValue key)
     else res_bind (r_has condition ''neq'') (\<lambda>neq.
     if neq then res_bind (r_get condition ''neq'') (checkNotEq L jsonValue key)
     else res_bind (r_has condition ''not_in'') (\<lambda>not_in.
     if not_in then res_bind (r_get condition ''not_in'') (checkNotIn L jsonValue key)
     else Inr False))))"

fun filter_fields :: "lib \<Rightarrow> rvalue \<Rightarrow> (string \<times> rvalue) list \<Rightarrow> bool res" where
  "filter_fields L jsonValue [] = Inr False"
| "filter_fields L jsonValue ((key, condition) # conds) =
     res_bind (check_field L jsonValue key condition) (\<lambda>b.
       if b then Inr True else filter_fields L jsonValue conds)"

definition applyFilter :: "lib \<Rightarrow> rvalue \<Rightarrow> rvalue \<Rightarrow> bool res" where
  "applyFilter L jsonValue whereClause = res_bind (r_members whereClause) (filter_fields L jsonValue)"

text \<open>The loop of \<open>processLogicalOperator\<close>; \<open>None\<close> before the first condition.\<close>

fun logical_loop ::
    "lib \<Rightarrow> rvalue \<Rightarrow> (bool \<Rightarrow> bool \<Rightarrow> bool) \<Rightarrow> (string \<times> rvalue) list \<Rightarrow> bool option \<Rightarrow> bool res" where
  "logical_loop L jsonValue f [] result = Inr (case result of None \<Rightarrow> False | Some b \<Rightarrow> b)"
| "logical_loop L jsonValue f ((u, condition) # conditions) result =
     res_bind (applyFilter L jsonValue condition) (\<lambda>c.
       logical_loop L jsonValue f conditions
         (Some (case result of None \<Rightarrow> c | Some b \<Rightarrow> f b c)))"

definition processLogicalOperator ::
    "lib \<Rightarrow> rvalue \<Rightarrow> rvalue \<Rightarrow> (bool \<Rightarrow> bool \<Rightarrow> bool) \<Rightarrow> bool res" where
  "processLogicalOperator L jsonValue conditions f =
     res_bind (r_members conditions) (\<lambda>cs. logical_loop L jsonValue f cs None)"

definition validate :: "lib \<Rightarrow> rvalue \<Rightarrow> rvalue \<Rightarrow> bool res" where
  "validate L jsonValue filterBy = catch_all False
     (res_bind (r_has filterBy ''where'') (\<lambda>hasWhere.
      if \<not> hasWhere then Inr False
      else res_bind (r_get filterBy ''where'') (\<lambda>clause.
        res_bind (r_has clause ''and'') (\<lambda>hasAnd.
        if hasAnd then res_bind (r_get clause ''and'') (\<lambda>cs. processLogicalOperator L jsonValue cs (\<and>))
        else res_bind (r_has clause ''or'') (\<lambda>hasOr.
        if hasOr then res_bind (r_get clause ''or'') (\<lambda>cs. processLogicalOperator L jsonValue cs (\<or>))
        else applyFilter L jsonValue (sort_members clause))))))"

section \<open>The comparison of the sorter\<close>

definition compareAlpha :: "rvalue \<Rightarrow> rvalue \<Rightarrow> bool res" where
  "compareAlpha lhs rhs = res_bind (r_s lhs) (\<lambda>a. res_bind (r_s rhs) (\<lambda>b. Inr (a < b)))"

text \<open>The two doubles are converted to \<^verbatim>\<open>int\<close> before they are compared.\<close>

definition compareNumeric :: "lib \<Rightarrow> rvalue \<Rightarrow> rvalue \<Rightarrow> bool res" where
  "compareNumeric L lhs rhs =
     res_bind (res_bind (r_d L lhs) double_to_int) (\<lambda>a.
     res_bind (res_bind (r_d L rhs) double_to_int) (\<lambda>b. Inr (a < b)))"

definition is_object :: "rvalue \<Rightarrow> bool" where
  "is_object v = (case v of RObject kvs \<Rightarrow> True | _ \<Rightarrow> False)"

definition json_less :: "lib \<Rightarrow> string \<Rightarrow> rvalue \<Rightarrow> rvalue \<Rightarrow> bool res" where
  "json_less L sorter kvLhs kvRhs =
     (case res_bind (r_get kvLhs ''value'') (\<lambda>lhs. res_bind (r_get kvRhs ''value'') (\<lambda>rhs.
        if is_object lhs \<and> r_has lhs sorter = Inr True \<and> is_object rhs \<and> r_has rhs sorter = Inr True then
          res_bind (r_get lhs sorter) (\<lambda>a. res_bind (r_get rhs sorter) (\<lambda>b.
            case (a, b) of
              (RNumber t, RNumber u) \<Rightarrow> compareNumeric L a b
            | (RString t, RString u) \<Rightarrow> compareAlpha a b
            | _ \<Rightarrow> Inr False))
        else Inr False)) of
        Inl e \<Rightarrow> if e = RuntimeError then Inr False else Inl e
      | Inr b \<Rightarrow> Inr b)"

definition strict_weak :: "('a \<Rightarrow> 'a \<Rightarrow> bool) \<Rightarrow> 'a list \<Rightarrow> bool" where
  "strict_weak lt xs \<longleftrightarrow>
     list_all (\<lambda>a. \<not> lt a a) xs \<and>
     list_all (\<lambda>a. list_all (\<lambda>b. list_all (\<lambda>c.
       (lt a b \<and> lt b c \<longrightarrow> lt a c) \<and>
       (\<not> lt a b \<and> \<not> lt b a \<and> \<not> lt b c \<and> \<not> lt c b \<longrightarrow> \<not> lt a c \<and> \<not> lt c a)) xs) xs) xs"

type_synonym sorter = "(rvalue \<Rightarrow> rvalue \<Rightarrow> bool) \<Rightarrow> rvalue list \<Rightarrow> rvalue list"

definition sort_contract :: "sorter \<Rightarrow> bool" where
  "sort_contract srt \<longleftrightarrow> (\<forall>lt xs. strict_weak lt xs \<longrightarrow>
     mset (srt lt xs) = mset xs \<and> sorted_wrt (\<lambda>a b. \<not> lt b a) (srt lt xs))"

definition returns :: "bool res \<Rightarrow> bool" where
  "returns r = (case r of Inl e \<Rightarrow> False | Inr b \<Rightarrow> True)"

definition sort_results :: "lib \<Rightarrow> sorter \<Rightarrow> string \<Rightarrow> rvalue list \<Rightarrow> rvalue list res" where
  "sort_results L srt sortby xs =
     (let lt = (\<lambda>a b. json_less L sortby a b = Inr True) in
      if length xs \<le> 1 then Inr xs
      else if list_all (\<lambda>a. list_all (\<lambda>b. returns (json_less L sortby a b)) xs) xs \<and> strict_weak lt xs
      then Inr (srt lt xs) else Inl Undefined)"

section \<open>Sorted queries\<close>

text \<open>
  The text an entry is parsed from: a value that does not begin with a brace or a quote is put
  in quotes, an empty one is left out.
\<close>

definition key_val :: "string \<Rightarrow> string \<Rightarrow> string" where
  "key_val key v =
     (let addQuote = (v \<noteq> [] \<and> hd v \<noteq> CHR ''{'' \<and> hd v \<noteq> DQUOTE) in
      ''{\"value\":'' @ (if addQuote then [DQUOTE] else []) @ v @ (if addQuote then [DQUOTE] else []) @
      '','' @ ''\"key\":\"'' @ key @ ''\"}'')"

text \<open>
  One matching entry. The accumulator is the result flag, whether sorting is still possible,
  and the values collected. A filter that is given but is not JSON throws when it is printed
  for the log.
\<close>

type_synonym collected = "bool \<times> bool \<times> rvalue list"

definition collect_entry ::
    "lib \<Rightarrow> string \<Rightarrow> string \<times> string \<Rightarrow> collected \<Rightarrow> collected res" where
  "collect_entry L flt e acc =
     (case acc of (ret, sortable, xs) \<Rightarrow>
        (case load (key_val (c_str (fst e)) (snd e)) of
           None \<Rightarrow> Inr (ret, False, xs)
         | Some x \<Rightarrow>
             (case (if is_object x then
                      res_bind (if flt \<noteq> [] then wvalue_of L (load flt) else Inr WNull) (\<lambda>printed.
                      res_bind (case load flt of None \<Rightarrow> Inr True
                                | Some filterBy \<Rightarrow> res_bind (r_get x ''value'') (\<lambda>v. validate L v filterBy)) (\<lambda>pass.
                      if pass then res_bind (wvalue_of_rvalue L x) (\<lambda>printed. Inr (xs @ [x])) else Inr xs))
                    else Inr xs) of
                Inr xs' \<Rightarrow> Inr (ret, sortable, xs')
              | Inl er \<Rightarrow> if er = RuntimeError then Inr (False, False, xs) else Inl er)))"

definition push_sorted :: "lib \<Rightarrow> rvalue \<Rightarrow> wvalue list \<Rightarrow> wvalue list res" where
  "push_sorted L x rs =
     (case res_bind (res_bind (r_get x ''value'') (wvalue_of_rvalue L)) (\<lambda>v.
           res_bind (res_bind (r_get x ''key'') (wvalue_of_rvalue L)) (\<lambda>k.
             Inr (w_set (w_set WNull ''value'' v) ''key'' k))) of
        Inr w \<Rightarrow> Inr (rs @ [w])
      | Inl e \<Rightarrow> if e = RuntimeError then Inr rs else Inl e)"

definition getSorted ::
    "'db rocks \<Rightarrow> lib \<Rightarrow> sorter \<Rightarrow> string \<Rightarrow> string \<Rightarrow> bool \<Rightarrow> wvalue list \<Rightarrow> int \<Rightarrow> int \<Rightarrow> string \<Rightarrow>
     'db core \<Rightarrow> results res" where
  "getSorted R L srt wild sortby ascending rs skip limit flt s =
     (if \<not> dbOk s then Inr (False, rs)
      else if star_first wild then Inr (False, rs)
      else
        res_bind (fold_res (collect_entry L flt)
            (filter (\<lambda>e. wildcmp wild (c_str (fst e)))
               (takeWhile (in_prefix (before_star wild)) (seek_entries R s wild)))
            (True, sortby \<noteq> [], [])) (\<lambda>(ret, sortable, xs).
        res_bind (if sortable then sort_results L srt sortby xs else Inr xs) (\<lambda>ys.
        res_bind (scan_from (\<lambda>x. True) (\<lambda>x. True) (push_sorted L) skip limit
            (if ascending then ys else rev ys) (-1) rs) (\<lambda>rs'.
          Inr (ret, rs')))))"

end
