(* ===== verification/Orm_Props.thy ===== *)
theory Orm_Props
  imports Orm
begin

text \<open>
  What filters and sorted queries promise: the logical operators are conjunction and
  disjunction of their conditions, exclusion is the complement of inclusion, several fields in
  one clause are alternatives; the numeric order of a sorted query is the order of the integer parts,
  and the contract of the sort has an instance. What the queries answer is in \<open>Sorted_Props\<close>.
\<close>

section \<open>Filters\<close>

lemma logical_and_loop:
  "list_all (\<lambda>c. applyFilter L v c = Inr (holds c)) cs \<Longrightarrow>
     logical_loop L v (\<and>) (map (\<lambda>c. (u, c)) cs) (Some b) = Inr (b \<and> list_all holds cs)"
  by (induction cs arbitrary: b) auto

lemma logical_or_loop:
  "list_all (\<lambda>c. applyFilter L v c = Inr (holds c)) cs \<Longrightarrow>
     logical_loop L v (\<or>) (map (\<lambda>c. (u, c)) cs) (Some b) = Inr (b \<or> list_ex holds cs)"
  by (induction cs arbitrary: b) auto

text \<open>A filter with \<open>and\<close> passes a value exactly when it has a condition and all of them hold,
  and one with \<open>or\<close> exactly when some condition holds.\<close>

theorem validate_logical:
  assumes "list_all (\<lambda>c. applyFilter L v c = Inr (holds c)) cs"
  shows "validate L v (RObject [(''where'', RObject [(''and'', RList cs)])]) =
      Inr (cs \<noteq> [] \<and> list_all holds cs) \<and>
    validate L v (RObject [(''where'', RObject [(''or'', RList cs)])]) = Inr (list_ex holds cs)"
  using assms logical_and_loop [of L v holds "tl cs"] logical_or_loop [of L v holds "tl cs"]
  by (cases cs) (simp_all add: validate_def processLogicalOperator_def catch_all_def)

theorem validate_logical_witness:
  "validate mem_lib (RObject [(''a'', RString ''x'')]) (RObject [(''where'', RObject [(''and'',
     RList [RObject [(''a'', RObject [(''eq'', RString ''x'')])]])])]) = Inr True"
proof -
  have "list_all (\<lambda>c. applyFilter mem_lib (RObject [(''a'', RString ''x'')]) c = Inr True)
      [RObject [(''a'', RObject [(''eq'', RString ''x'')])]]"
    by code_simp
  from validate_logical [OF this] show ?thesis by simp
qed

lemma catch_all_cases: "catch_all d r = Inl Undefined \<or> (\<exists>b. catch_all d r = Inr b)"
  by (cases r) (simp_all add: catch_all_def)

lemma catch_all_returns: "r \<noteq> Inl Undefined \<Longrightarrow> \<exists>b. catch_all d r = Inr b"
  by (cases r) (simp_all add: catch_all_def)

lemma compareValues_returns: "\<exists>b. compareValues L (RObject kvs) key target = Inr b"
proof -
  have d: "res_bind (r_d L a) (\<lambda>x. res_bind (r_d L b) (\<lambda>y. Inr (double_eq x y))) \<noteq> Inl Undefined" for a b
    by (cases a; cases b) (auto split: option.splits)
  have s: "res_bind (r_s a) (\<lambda>x. res_bind (r_s b) (\<lambda>y. Inr (x = y))) \<noteq> Inl Undefined" for a b
    by (cases a; cases b) auto
  have b: "res_bind (r_b a) (\<lambda>x. Inr (f x)) \<noteq> Inl Undefined" for a and f :: "bool \<Rightarrow> bool"
    by (cases a) auto
  show ?thesis
  proof (cases "map_of kvs key")
    case None
    then show ?thesis by (auto simp: compareValues_def catch_all_def map_of_eq_None_iff)
  next
    case (Some v)
    then show ?thesis
      unfolding compareValues_def
      by (intro catch_all_returns, cases v)
         (simp_all add: d s b del: r_s.simps r_d.simps r_b.simps)
  qed
qed

lemma any_equal_returns: "\<exists>b. any_equal L (RObject kvs) key checks = Inr b"
proof (induction checks)
  case (Cons c checks)
  obtain u v where "c = (u, v)" by (cases c)
  then show ?case using Cons compareValues_returns [of L kvs key v] by auto
qed auto

text \<open>On an object, \<open>not_in\<close> a list of values is the exact complement of \<open>eq_any\<close> of it, also
  for a missing field, which is in no list.\<close>

theorem not_in_complements:
  "\<exists>b. checkEqAny L (RObject kvs) key (RList ts) = Inr b \<and>
     checkNotIn L (RObject kvs) key (RList ts) = Inr (\<not> b)"
  using any_equal_returns [of L kvs key "map (\<lambda>v. ([], v)) ts"]
  by (auto simp: checkEqAny_def checkNotIn_def catch_all_def)

text \<open>Several fields in one clause are alternatives: the clause passes a value as soon as one
  of its fields does.\<close>

theorem clause_fields_are_alternatives:
  assumes "list_all (\<lambda>(k, c). check_field L v k c = Inr (holds k)) conds"
  shows "applyFilter L v (RObject conds) = Inr (list_ex (\<lambda>(k, c). holds k) conds)"
  using assms by (simp add: applyFilter_def) (induction conds, auto)

theorem clause_fields_are_alternatives_witness:
  "applyFilter mem_lib (RObject [(''a'', RString ''x''), (''b'', RString ''y'')])
     (RObject [(''a'', RObject [(''eq'', RString ''z'')]), (''b'', RObject [(''eq'', RString ''y'')])]) = Inr True"
proof -
  have "list_all (\<lambda>(k, c). check_field mem_lib (RObject [(''a'', RString ''x''), (''b'', RString ''y'')]) k c =
      Inr (k = ''b'')) [(''a'', RObject [(''eq'', RString ''z'')]), (''b'', RObject [(''eq'', RString ''y'')])]"
    by code_simp
  from clause_fields_are_alternatives [OF this] show ?thesis by simp
qed

section \<open>Sorting\<close>

text \<open>The contract of the sort has an instance.\<close>

fun insert_by :: "('a \<Rightarrow> 'a \<Rightarrow> bool) \<Rightarrow> 'a \<Rightarrow> 'a list \<Rightarrow> 'a list" where
  "insert_by lt x [] = [x]"
| "insert_by lt x (y # ys) = (if lt y x then y # insert_by lt x ys else x # y # ys)"

definition sort_by :: "('a \<Rightarrow> 'a \<Rightarrow> bool) \<Rightarrow> 'a list \<Rightarrow> 'a list" where
  "sort_by lt xs = foldr (insert_by lt) xs []"

lemma strict_weakD:
  assumes "strict_weak lt xs" and "a \<in> set xs" and "b \<in> set xs" and "c \<in> set xs"
  shows "\<not> lt a a" and "lt a b \<Longrightarrow> lt b c \<Longrightarrow> lt a c"
    and "\<not> lt a b \<Longrightarrow> \<not> lt b a \<Longrightarrow> \<not> lt b c \<Longrightarrow> \<not> lt c b \<Longrightarrow> \<not> lt a c"
  using assms unfolding strict_weak_def list_all_iff by blast+

lemma strict_weak_trans:
  assumes "strict_weak lt xs" and "a \<in> set xs" and "b \<in> set xs" and "c \<in> set xs"
    and "\<not> lt b a" and "\<not> lt c b"
  shows "\<not> lt c a"
  using strict_weakD(2,3) [OF assms(1)] assms(2-6) by metis

lemma mset_insert_by: "mset (insert_by lt x ys) = add_mset x (mset ys)"
  by (induction ys) auto

lemma sorted_insert_by:
  assumes "strict_weak lt zs" and "x \<in> set zs"
  shows "set ys \<subseteq> set zs \<Longrightarrow> sorted_wrt (\<lambda>a b. \<not> lt b a) ys \<Longrightarrow> sorted_wrt (\<lambda>a b. \<not> lt b a) (insert_by lt x ys)"
proof (induction ys)
  case (Cons y ys)
  have set: "set (insert_by lt x ys) = insert x (set ys)"
    by (metis mset_insert_by set_mset_add_mset_insert set_mset_mset)
  have "\<not> lt x y" if "lt y x"
    using strict_weakD(1,2) [OF assms(1)] that assms(2) Cons.prems(1) by (metis list.set_intros(1) subsetD)
  moreover have "\<not> lt z x" if "\<not> lt y x" "z \<in> set ys" for z
  proof (rule strict_weak_trans [OF assms(1), of x y z])
    show "x \<in> set zs" by (rule assms(2))
    show "y \<in> set zs" "z \<in> set zs" using Cons.prems(1) that by auto
    show "\<not> lt y x" by (rule that(1))
    show "\<not> lt z y" using Cons.prems(2) that(2) by simp
  qed
  ultimately show ?case using Cons by (auto simp: set)
qed simp

lemma sort_by_contract: "sort_contract sort_by"
proof -
  have "mset (sort_by lt xs) = mset xs" for lt :: "rvalue \<Rightarrow> rvalue \<Rightarrow> bool" and xs
    by (induction xs) (simp_all add: sort_by_def mset_insert_by)
  moreover have "sorted_wrt (\<lambda>a b. \<not> lt b a) (sort_by lt xs)" if sw: "strict_weak lt zs" "set xs \<subseteq> set zs"
    for lt :: "rvalue \<Rightarrow> rvalue \<Rightarrow> bool" and xs zs
    using sw(2)
  proof (induction xs)
    case (Cons x xs)
    have "set (sort_by lt xs) = set xs"
      by (metis \<open>\<And>xs lt. mset (sort_by lt xs) = mset xs\<close> set_mset_mset)
    then show ?case using Cons sorted_insert_by [OF sw(1), of x "sort_by lt xs"] by (simp add: sort_by_def)
  qed (simp add: sort_by_def)
  ultimately show ?thesis unfolding sort_contract_def by blast
qed

text \<open>The numeric order of a sorted query compares integer parts only: of two numbers with the
  same integer part neither comes before the other.\<close>

theorem numeric_order_truncates:
  assumes "lexcast_double L t = Some (Fin a)" and "lexcast_double L u = Some (Fin b)"
    and "trunc_rat a = trunc_rat b" and "INT_MIN \<le> trunc_rat a" and "trunc_rat a \<le> INT_MAX"
  shows "compareNumeric L (RNumber t) (RNumber u) = Inr False"
  using assms by (simp add: compareNumeric_def)

theorem numeric_order_truncates_witness:
  "compareNumeric \<lparr>lexcast_int64 = (\<lambda>_. None),
     lexcast_double = (\<lambda>t. Some (Fin (if t = ''1.2'' then 6/5 else 19/10))), um_order = (\<lambda>ks. ks)\<rparr>
     (RNumber ''1.2'') (RNumber ''1.9'') = Inr False"
proof (rule numeric_order_truncates)
  have "trunc_rat (6/5) = 1" "trunc_rat (19/10) = 1" by code_simp+
  then show "trunc_rat (6/5) = trunc_rat (19/10)" "INT_MIN \<le> trunc_rat (6/5)" "trunc_rat (6/5) \<le> INT_MAX"
    by (simp_all add: INT_MIN_def INT_MAX_def)
qed simp_all

end
