(* ===== verification/Sorted_Props.thy ===== *)
theory Sorted_Props
  imports Orm_Props
begin

text \<open>
  What a sorted query answers, over a meaning of its parts that does not mention the routines: the
  filters of the documentation as a datatype with their meaning on the fields of a document, the
  entries whose value is a JSON object, and the order of the sort field, which is the byte order of
  strings or the order of the integer parts of numbers. The comparison and the filter of the
  program are shown to decide these, and \<open>getSorted\<close> to return the window of the filtered entries
  in that order.
\<close>

section \<open>The meaning of a filter\<close>

text \<open>A test of one field against texts; a clause is a list of fields with their tests, which are
  alternatives; a filter is one clause, all or any of several, or none.\<close>

datatype test = Eq string | Neq string | Eq_any "string list" | Not_in "string list"

type_synonym clause = "(string \<times> test) list"

datatype filter_by = No_filter | Where clause | Where_and "clause list" | Where_or "clause list"

fun test_json :: "test \<Rightarrow> rvalue" where
  "test_json (Eq t) = RObject [(''eq'', RString (escape t))]"
| "test_json (Neq t) = RObject [(''neq'', RString (escape t))]"
| "test_json (Eq_any ts) = RObject [(''eq_any'', RList (map (\<lambda>t. RString (escape t)) ts))]"
| "test_json (Not_in ts) = RObject [(''not_in'', RList (map (\<lambda>t. RString (escape t)) ts))]"

definition clause_json :: "clause \<Rightarrow> rvalue" where
  "clause_json c = RObject (map (\<lambda>(f, t). (f, test_json t)) c)"

fun where_json :: "filter_by \<Rightarrow> rvalue" where
  "where_json No_filter = RNull"
| "where_json (Where c) = clause_json c"
| "where_json (Where_and cs) = RObject [(''and'', RList (map clause_json cs))]"
| "where_json (Where_or cs) = RObject [(''or'', RList (map clause_json cs))]"

text \<open>The text of a filter: none is the empty text. A clause must not use the names of the operators
  as fields.\<close>

definition filter_text :: "string \<Rightarrow> filter_by \<Rightarrow> bool" where
  "filter_text flt F =
     (if F = No_filter then flt = [] else flt \<noteq> [] \<and> load flt = Some (RObject [(''where'', where_json F)]))"

fun filter_ok :: "filter_by \<Rightarrow> bool" where
  "filter_ok (Where c) = (''and'' \<notin> fst ` set c \<and> ''or'' \<notin> fst ` set c)"
| "filter_ok _ = True"

text \<open>The text in a field of a document, if there is one.\<close>

definition field_text :: "(string \<times> rvalue) list \<Rightarrow> string \<Rightarrow> string option" where
  "field_text kvs f = (case map_of kvs f of Some (RString raw) \<Rightarrow> Some (unescape raw) | _ \<Rightarrow> None)"

fun test_holds :: "string option \<Rightarrow> test \<Rightarrow> bool" where
  "test_holds v (Eq t) = (v = Some t)"
| "test_holds v (Neq t) = (v \<noteq> Some t)"
| "test_holds v (Eq_any ts) = (v \<in> Some ` set ts)"
| "test_holds v (Not_in ts) = (v \<notin> Some ` set ts)"

definition clause_holds :: "(string \<times> rvalue) list \<Rightarrow> clause \<Rightarrow> bool" where
  "clause_holds kvs c = list_ex (\<lambda>(f, t). test_holds (field_text kvs f) t) c"

fun filter_holds :: "filter_by \<Rightarrow> (string \<times> rvalue) list \<Rightarrow> bool" where
  "filter_holds No_filter kvs = True"
| "filter_holds (Where c) kvs = clause_holds kvs c"
| "filter_holds (Where_and cs) kvs = (cs \<noteq> [] \<and> list_all (clause_holds kvs) cs)"
| "filter_holds (Where_or cs) kvs = list_ex (clause_holds kvs) cs"

section \<open>The filter of the program decides it\<close>

lemma compareValues_text:
  "compareValues L (RObject kvs) f (RString (escape t)) = Inr (field_text kvs f = Some t)"
proof (cases "map_of kvs f")
  case None
  then have "f \<notin> fst ` set kvs" by (simp add: map_of_eq_None_iff)
  then show ?thesis using None by (simp add: compareValues_def catch_all_def field_text_def)
next
  case (Some v)
  then have "f \<in> fst ` set kvs" by (metis map_of_eq_None_iff option.distinct(1))
  then show ?thesis using Some
    by (cases v) (auto simp: compareValues_def catch_all_def field_text_def unescape_escape split: option.splits)
qed

lemma any_equal_texts:
  "any_equal L (RObject kvs) f (map (\<lambda>v. ([], v)) (map (\<lambda>t. RString (escape t)) ts)) =
     Inr (field_text kvs f \<in> Some ` set ts)"
  by (induction ts) (auto simp: compareValues_text)

lemma check_field_test:
  "check_field L (RObject kvs) f (test_json t) = Inr (test_holds (field_text kvs f) t)"
proof -
  have "field_text kvs f \<notin> Some ` set ts" if "f \<notin> fst ` set kvs" for ts
    using that by (auto simp: field_text_def map_of_eq_None_iff [symmetric])
  then show ?thesis using any_equal_texts [of L kvs f]
    by (cases t) (auto simp: check_field_def checkEq_def checkNotEq_def checkEqAny_def checkNotIn_def
        compareValues_text catch_all_def)
qed

lemma applyFilter_fields:
  "applyFilter L (RObject kvs) (RObject (map (\<lambda>(f, t). (f, test_json t)) c)) = Inr (clause_holds kvs c)"
  unfolding applyFilter_def clause_holds_def
  by (induction c) (auto simp: check_field_test)

lemma applyFilter_clause: "applyFilter L (RObject kvs) (clause_json c) = Inr (clause_holds kvs c)"
  unfolding clause_json_def by (rule applyFilter_fields)

lemma sort_key_map: "sort_key g (map f xs) = map f (sort_key (\<lambda>x. g (f x)) xs)"
proof -
  have "insort_key g (f x) (map f ys) = map f (insort_key (\<lambda>x. g (f x)) x ys)" for x ys
    by (induction ys) simp_all
  then show ?thesis by (induction xs) simp_all
qed

lemma sorted_clause:
  "\<exists>c'. set c' = set c \<and> sort_members (clause_json c) = RObject (map (\<lambda>(f, t). (f, test_json t)) c')"
proof (intro exI conjI)
  show "set (sort_key (\<lambda>ft. map signed_char (fst ft)) c) = set c" by simp
  show "sort_members (clause_json c) =
      RObject (map (\<lambda>(f, t). (f, test_json t)) (sort_key (\<lambda>ft. map signed_char (fst ft)) c))"
    by (simp add: clause_json_def sort_key_map split_def)
qed

lemma validate_filter:
  assumes "F \<noteq> No_filter" and "filter_ok F"
  shows "validate L (RObject kvs) (RObject [(''where'', where_json F)]) = Inr (filter_holds F kvs)"
proof (cases F)
  case No_filter
  then show ?thesis using assms(1) by simp
next
  case (Where c)
  obtain c' where c': "set c' = set c"
    "sort_members (clause_json c) = RObject (map (\<lambda>(f, t). (f, test_json t)) c')"
    using sorted_clause by blast
  have "clause_holds kvs c' = clause_holds kvs c" by (simp add: clause_holds_def list_ex_iff c'(1))
  moreover have "r_has (clause_json c) ''and'' = Inr False" "r_has (clause_json c) ''or'' = Inr False"
    using assms(2) Where by (force simp: clause_json_def)+
  ultimately show ?thesis using Where c'(2)
    by (simp add: validate_def catch_all_def applyFilter_fields)
next
  case (Where_and cs)
  then show ?thesis
    using validate_logical [where holds = "\<lambda>c. applyFilter L (RObject kvs) c = Inr True" and
        L = L and v = "RObject kvs" and cs = "map clause_json cs"]
    by (simp add: list.pred_map comp_def applyFilter_clause list.pred_True)
next
  case (Where_or cs)
  then show ?thesis
    using validate_logical [where holds = "\<lambda>c. applyFilter L (RObject kvs) c = Inr True" and
        L = L and v = "RObject kvs" and cs = "map clause_json cs"]
    by (simp add: list.pred_map comp_def applyFilter_clause list_ex_iff list.pred_True)
qed

section \<open>The entries a query sorts\<close>

text \<open>An entry whose value is the text of a JSON object and whose key reads back from between quotes: the
  text the query builds of both is read as the object and the key.\<close>

definition entry_value :: "string \<times> string \<Rightarrow> (string \<times> rvalue) list \<Rightarrow> rvalue" where
  "entry_value e kvs = RObject [(''value'', RObject kvs), (''key'', RString (c_str (fst e)))]"

definition stored_object :: "string \<times> string \<Rightarrow> (string \<times> rvalue) list \<Rightarrow> bool" where
  "stored_object e kvs \<longleftrightarrow> (case snd e of [] \<Rightarrow> False | c # _ \<Rightarrow> c = CHR ''{'') \<and>
     unescape (c_str (fst e)) = c_str (fst e) \<and>
     load (''{\"value\":'' @ snd e @ '',\"key\":\"'' @ c_str (fst e) @ ''\"}'') = Some (entry_value e kvs)"

text \<open>What is stored for an object without numbers under a key that needs no escapes is such an entry.\<close>

lemma load_reads: "reads t v \<Longrightarrow> load t = Some v"
proof -
  assume r: "reads t v"
  then have "ws_skip t = t" using fresh_start_ws_skip [of t "[]"] by (simp add: reads_def)
  moreover have "decode_value (Suc (length t)) t = Some (v, [])"
    using readsD [OF r, of "Suc (length t)" "[]"] by simp
  ultimately show ?thesis by (simp add: load_def parse_def peek_def ws_skip_def del: decode_value.simps)
qed

lemma stored_object_dump:
  assumes "number_free (WObject m)" and "escape k = k" and "NUL \<notin> set k"
  shows "stored_object (k, dump_json L (WObject m)) (um_iter L (map (\<lambda>(f, w). (f, printed L w)) m))"
proof -
  let ?t = "dump_internal L (WObject m)" and ?v = "printed L (WObject m)"
  let ?its = "[(''value'', ?t, ?v), (''key'', dump_string k, RString (escape k))]"
  let ?txt = "map (\<lambda>(k, t, v). dump_string k @ '':'' @ t) ?its"
  have its: "list_all (\<lambda>(k, t, v). reads t v) ?its"
    using reads_dump [OF assms(1), of L] reads_dump [of "WString k" L] by simp
  have names: "dump_string ''value'' = ''\"value\"''" "dump_string ''key'' = ''\"key\"''" by code_simp+
  have built: "CHR ''{'' # comma_join ?txt @ ''}'' = ''{\"value\":'' @ ?t @ '',\"key\":'' @ dump_string k @ ''}''"
    by (simp add: names)
  define J where "J = comma_join ?txt"
  have j: "fresh_start J"
    unfolding J_def by (rule fresh_start_join) (simp_all add: fresh_start_def dump_string_def is_ws_def)
  have "decode_value (Suc n) (CHR ''{'' # J @ CHR ''}'' # r) = Some (RObject (map (\<lambda>(k, t, v). (k, v)) ?its), r)"
    if "length J < n" for n r
    using decode_object_join [OF its, of n r] that fresh_start_ws_skip [OF j, of "CHR ''}'' # r"]
      fresh_start_peek [OF j, of "CHR ''}'' # r"]
    unfolding J_def by simp
  from reads_container [OF j _ this]
  have "reads (CHR ''{'' # J @ ''}'') (RObject (map (\<lambda>(k, t, v). (k, v)) ?its))" by simp
  then have r: "reads (''{\"value\":'' @ ?t @ '',\"key\":'' @ dump_string k @ ''}'')
      (RObject (map (\<lambda>(k, t, v). (k, v)) ?its))"
    unfolding J_def built .
  show ?thesis using load_reads [OF r] assms(2,3) unescape_escape [of k]
    by (simp add: stored_object_def entry_value_def c_str_id dump_json_def dump_string_def)
qed

section \<open>The order of the sort field\<close>

lemma json_less_text:
  assumes "field_text kvs f = Some a" and "field_text kvs' f = Some b"
  shows "json_less L f (entry_value e kvs) (entry_value e' kvs') = Inr (a < b)"
proof -
  obtain r r' where m: "map_of kvs f = Some (RString r)" "unescape r = a"
    "map_of kvs' f = Some (RString r')" "unescape r' = b"
    using assms by (auto simp: field_text_def split: option.splits rvalue.splits)
  then have "f \<in> fst ` set kvs" "f \<in> fst ` set kvs'" by (metis map_of_eq_None_iff option.distinct(1))+
  then show ?thesis using m
    by (simp add: json_less_def entry_value_def is_object_def compareAlpha_def)
qed

text \<open>The integer part of a number in a field.\<close>

definition field_int :: "lib \<Rightarrow> (string \<times> rvalue) list \<Rightarrow> string \<Rightarrow> int option" where
  "field_int L kvs f =
     (case map_of kvs f of
        Some (RNumber t) \<Rightarrow>
          (case lexcast_double L t of
             Some (Fin a) \<Rightarrow> if INT_MIN \<le> trunc_rat a \<and> trunc_rat a \<le> INT_MAX then Some (trunc_rat a) else None
           | _ \<Rightarrow> None)
      | _ \<Rightarrow> None)"

lemma json_less_int:
  assumes "field_int L kvs f = Some a" and "field_int L kvs' f = Some b"
  shows "json_less L f (entry_value e kvs) (entry_value e' kvs') = Inr (a < b)"
proof -
  obtain t q u r where m: "map_of kvs f = Some (RNumber t)" "lexcast_double L t = Some (Fin q)" "trunc_rat q = a"
    "map_of kvs' f = Some (RNumber u)" "lexcast_double L u = Some (Fin r)" "trunc_rat r = b"
    and range: "INT_MIN \<le> a" "a \<le> INT_MAX" "INT_MIN \<le> b" "b \<le> INT_MAX"
    using assms
    by (auto simp: field_int_def split: option.splits rvalue.splits double.splits if_splits)
  then have "f \<in> fst ` set kvs" "f \<in> fst ` set kvs'" by (metis map_of_eq_None_iff option.distinct(1))+
  then show ?thesis using m range
    by (simp add: json_less_def entry_value_def is_object_def compareNumeric_def)
qed

text \<open>A sort by a rank in a linear order.\<close>

lemma strict_weak_rank:
  assumes "\<And>a b. a \<in> set xs \<Longrightarrow> b \<in> set xs \<Longrightarrow> lt a b \<longleftrightarrow> rank a < (rank b :: 'k :: linorder)"
  shows "strict_weak lt xs"
  using assms unfolding strict_weak_def list_all_iff by fastforce

lemma mset_map_ex: "mset zs = mset (map f es) \<Longrightarrow> \<exists>ys. zs = map f ys \<and> mset ys = mset es"
proof (induction zs arbitrary: es)
  case (Cons z zs)
  then have "z \<in> f ` set es" by (metis list.set_intros(1) list.set_map mset_eq_setD)
  then obtain e where e: "e \<in> set es" "z = f e" by blast
  define us where "us = remove1 e es"
  have es: "mset es = add_mset e (mset us)" using e(1) by (simp add: us_def)
  have "add_mset z (mset zs) = image_mset f (mset es)" using Cons.prems by simp
  then have "mset zs = mset (map f us)" using e(2) by (simp add: es)
  from Cons.IH [OF this] obtain ys where "zs = map f ys" "mset ys = mset us" by blast
  then show ?case using e(2) by (intro exI [of _ "e # ys"]) (simp add: es)
qed simp

lemma sort_results_rank:
  assumes "sort_contract srt"
    and "\<And>a b. a \<in> set es \<Longrightarrow> b \<in> set es \<Longrightarrow> json_less L sortby (f a) (f b) = Inr (rank a < (rank b :: 'k :: linorder))"
  shows "\<exists>ys. sort_results L srt sortby (map f es) = Inr (map f ys) \<and> mset ys = mset es \<and> sorted (map rank ys)"
proof (cases "length es \<le> 1")
  case True
  then have "sorted (map rank es)" by (cases es) auto
  then show ?thesis using True by (intro exI [of _ es]) (simp add: sort_results_def)
next
  case False
  let ?lt = "\<lambda>a b. json_less L sortby a b = Inr True"
  define rk where "rk x = rank (SOME a. a \<in> set es \<and> f a = x)" for x
  have less: "json_less L sortby x y = Inr (rk x < rk y)" if "x \<in> f ` set es" "y \<in> f ` set es" for x y
  proof -
    have "(SOME a. a \<in> set es \<and> f a = z) \<in> set es \<and> f (SOME a. a \<in> set es \<and> f a = z) = z"
      if "z \<in> f ` set es" for z
    proof (rule someI_ex)
      show "\<exists>a. a \<in> set es \<and> f a = z" using that by blast
    qed
    note pick = this
    show ?thesis
      using assms(2) [of "SOME a. a \<in> set es \<and> f a = x" "SOME a. a \<in> set es \<and> f a = y"]
        pick [OF that(1)] pick [OF that(2)]
      unfolding rk_def by simp
  qed
  have sw: "strict_weak ?lt (map f es)"
    by (rule strict_weak_rank [where rank = rk]) (use less in auto)
  moreover have "list_all (\<lambda>a. list_all (\<lambda>b. returns (json_less L sortby a b)) (map f es)) (map f es)"
    using assms(2) by (simp add: list_all_iff returns_def)
  ultimately have run: "sort_results L srt sortby (map f es) = Inr (srt ?lt (map f es))"
    using False by (simp add: sort_results_def Let_def)
  have c: "mset (srt ?lt (map f es)) = mset (map f es)" "sorted_wrt (\<lambda>a b. \<not> ?lt b a) (srt ?lt (map f es))"
    using assms(1) sw unfolding sort_contract_def by blast+
  then obtain ys where ys: "srt ?lt (map f es) = map f ys" "mset ys = mset es" using mset_map_ex by blast
  then have s: "set ys = set es" by (metis mset_eq_setD)
  have "sorted_wrt (\<lambda>a b. \<not> ?lt (f b) (f a)) ys" using c(2) by (simp add: ys(1) sorted_wrt_map)
  then have "sorted_wrt (\<lambda>a b. rank a \<le> rank b) ys"
    by (rule sorted_wrt_mono_rel [rotated]) (use assms(2) s in auto)
  then show ?thesis using run ys by (auto simp: sorted_map)
qed

section \<open>Sorted queries\<close>

lemma wvalues_convert:
  "list_all (\<lambda>v. \<exists>w. wvalue_of_rvalue L v = Inr w) vs \<Longrightarrow> \<exists>ws. wvalues_of_rvalues L vs = Inr ws"
  by (induction vs) auto

lemma wmembers_convert:
  "list_all (\<lambda>(k, v). \<exists>w. wvalue_of_rvalue L v = Inr w) kvs \<Longrightarrow>
     \<exists>ws. wmembers_of_rmembers L kvs m = Inr ws"
  by (induction kvs arbitrary: m) auto

lemma object_converts:
  assumes "\<And>k v. (k, v) \<in> set kvs \<Longrightarrow> \<exists>w. wvalue_of_rvalue L v = Inr w"
  shows "\<exists>w. wvalue_of_rvalue L (RObject kvs) = Inr w"
proof -
  have "list_all (\<lambda>(k, v). \<exists>w. wvalue_of_rvalue L v = Inr w) kvs" using assms by (auto simp: list_all_iff)
  from wmembers_convert [OF this, of "[]"] show ?thesis by auto
qed

lemma list_converts:
  assumes "\<And>v. v \<in> set vs \<Longrightarrow> \<exists>w. wvalue_of_rvalue L v = Inr w"
  shows "\<exists>w. wvalue_of_rvalue L (RList vs) = Inr w"
proof -
  have "list_all (\<lambda>v. \<exists>w. wvalue_of_rvalue L v = Inr w) vs" using assms by (simp add: list_all_iff)
  from wvalues_convert [OF this] show ?thesis by auto
qed

lemma member_converts:
  "\<exists>w. wvalue_of_rvalue L v = Inr w \<Longrightarrow> \<exists>w. wvalue_of_rvalue L (RObject [(k, v)]) = Inr w"
  by (rule object_converts) simp

declare wvalue_of_rvalue.simps(6,7) [simp del]

lemma test_converts: "\<exists>w. wvalue_of_rvalue L (test_json t) = Inr w"
  by (cases t; simp only: test_json.simps; rule member_converts; (rule list_converts)?; force)

lemma clause_converts: "\<exists>w. wvalue_of_rvalue L (clause_json c) = Inr w"
  unfolding clause_json_def by (rule object_converts) (auto simp: test_converts)

lemma clauses_convert: "\<exists>w. wvalue_of_rvalue L (RList (map clause_json cs)) = Inr w"
  by (rule list_converts) (auto simp: clause_converts)

lemma filter_converts: "\<exists>w. wvalue_of_rvalue L (RObject [(''where'', where_json F)]) = Inr w"
  by (rule member_converts, cases F) (simp_all add: clause_converts member_converts clauses_convert)

lemma key_val_object:
  "stored_object e kvs \<Longrightarrow> load (key_val (c_str (fst e)) (snd e)) = Some (entry_value e kvs)"
  by (cases "snd e") (simp_all add: stored_object_def key_val_def)

lemma collect_object:
  assumes "stored_object e kvs" and "filter_text flt F" and "filter_ok F"
    and "filter_holds F kvs \<Longrightarrow> wvalue_of_rvalue L (RObject kvs) = Inr w"
  shows "collect_entry L flt e (ret, sortable, xs) =
    Inr (ret, sortable, xs @ (if filter_holds F kvs then [entry_value e kvs] else []))"
proof -
  have x: "is_object (entry_value e kvs)" "r_get (entry_value e kvs) ''value'' = Inr (RObject kvs)"
    by (simp_all add: entry_value_def is_object_def)
  have pr: "\<exists>u. wvalue_of_rvalue L (entry_value e kvs) = Inr u" if "filter_holds F kvs"
    using assms(4) [OF that] unfolding entry_value_def
    by (intro object_converts) auto
  obtain u where u: "filter_holds F kvs \<Longrightarrow> wvalue_of_rvalue L (entry_value e kvs) = Inr u"
    using pr by blast
  show ?thesis
  proof (cases "F = No_filter")
    case True
    have "load [] = None" by code_simp
    then show ?thesis using assms(2) True u x
      by (simp add: collect_entry_def key_val_object [OF assms(1)] filter_text_def)
  next
    case False
    obtain fw where "wvalue_of_rvalue L (RObject [(''where'', where_json F)]) = Inr fw"
      using filter_converts by blast
    moreover have "flt \<noteq> []" "load flt = Some (RObject [(''where'', where_json F)])"
      using assms(2) False by (simp_all add: filter_text_def)
    ultimately show ?thesis
      using u x validate_filter [OF False assms(3), of L kvs]
      by (simp add: collect_entry_def key_val_object [OF assms(1)] wvalue_of_def)
  qed
qed

lemma collect_objects:
  assumes "\<And>e. e \<in> set es \<Longrightarrow> stored_object e (doc e)" and "filter_text flt F" and "filter_ok F"
    and "\<And>e. e \<in> set es \<Longrightarrow> filter_holds F (doc e) \<Longrightarrow> wvalue_of_rvalue L (RObject (doc e)) = Inr (out e)"
  shows "fold_res (collect_entry L flt) es (ret, sortable, xs) =
    Inr (ret, sortable, xs @ map (\<lambda>e. entry_value e (doc e)) (filter (\<lambda>e. filter_holds F (doc e)) es))"
  using assms(1,4)
proof (induction es arbitrary: xs)
  case (Cons e es)
  have "collect_entry L flt e (ret, sortable, xs) =
      Inr (ret, sortable, xs @ (if filter_holds F (doc e) then [entry_value e (doc e)] else []))"
    using Cons.prems by (intro collect_object [OF _ assms(2,3)]) simp_all
  then show ?case using Cons by simp
qed simp

text \<open>The pair a sorted query returns for an entry.\<close>

definition value_key :: "wvalue \<Rightarrow> string \<Rightarrow> wvalue" where
  "value_key v k = WObject [(''value'', v), (''key'', WString k)]"

lemma push_object:
  assumes "stored_object e kvs" and "wvalue_of_rvalue L (RObject kvs) = Inr w"
  shows "push_sorted L (entry_value e kvs) rs = Inr (rs @ [value_key w (c_str (fst e))])"
  using assms
  by (simp add: push_sorted_def entry_value_def stored_object_def value_key_def w_set_def w_members_def)

lemma push_objects:
  assumes "\<And>e. e \<in> set es \<Longrightarrow> stored_object e (doc e) \<and> wvalue_of_rvalue L (RObject (doc e)) = Inr (out e)"
  shows "fold_res (push_sorted L) (map (\<lambda>e. entry_value e (doc e)) es) rs =
    Inr (rs @ map (\<lambda>e. value_key (out e) (c_str (fst e))) es)"
  using assms by (induction es arbitrary: rs) (simp_all add: push_object)

text \<open>Whatever linear order the comparison of the sort fields amounts to, the reply is the window of the
  filtered entries in that order.\<close>

lemma getSorted_rank:
  assumes "rocksdb R entries" and "sort_contract srt" and "dbOk s" and "\<not> star_first wild"
    and "window_ok skip limit" and "sortby \<noteq> []" and "filter_text flt F" and "filter_ok F"
    and hits: "\<And>e. e \<in> set (matching (entries (db s)) wild) \<Longrightarrow> stored_object e (doc e)"
    and sel: "\<And>e. e \<in> set es \<Longrightarrow> wvalue_of_rvalue L (RObject (doc e)) = Inr (out e)"
    and rank: "\<And>a b. a \<in> set es \<Longrightarrow> b \<in> set es \<Longrightarrow>
      json_less L sortby (entry_value a (doc a)) (entry_value b (doc b)) = Inr (rank a < (rank b :: 'k :: linorder))"
    and es: "es = filter (\<lambda>e. filter_holds F (doc e)) (matching (entries (db s)) wild)"
  shows "\<exists>ys. mset ys = mset es \<and> sorted (map rank ys) \<and>
    getSorted R L srt wild sortby ascending rs skip limit flt s = Inr (True, rs @
      map (\<lambda>e. value_key (out e) (c_str (fst e))) (window skip limit (if ascending then ys else rev ys)))"
proof -
  let ?f = "\<lambda>e. entry_value e (doc e)"
  obtain ys where ys: "sort_results L srt sortby (map ?f es) = Inr (map ?f ys)" "mset ys = mset es" "sorted (map rank ys)"
    using sort_results_rank [OF assms(2), of es L sortby ?f rank] rank by blast
  have s: "set ys = set es" using ys(2) by (metis mset_eq_setD)
  have run: "fold_res (collect_entry L flt) (matching (entries (db s)) wild) (True, True, []) = Inr (True, True, map ?f es)"
    using collect_objects [of "matching (entries (db s)) wild" doc flt F L out True True "[]"] hits sel assms(7,8)
    by (simp add: es)
  let ?zs = "if ascending then ys else rev ys"
  have "set (window skip limit ?zs) \<subseteq> set es" using set_window_subset [of skip limit ?zs] s by auto
  moreover have "stored_object e (doc e)" if "e \<in> set es" for e using hits that by (simp add: es)
  ultimately have push: "fold_res (push_sorted L) (map ?f (window skip limit ?zs)) rs =
      Inr (rs @ map (\<lambda>e. value_key (out e) (c_str (fst e))) (window skip limit ?zs))"
    using sel by (intro push_objects) blast
  have "filter (\<lambda>e. wildcmp wild (c_str (fst e))) (takeWhile (in_prefix (before_star wild)) (seek_entries R s wild)) =
      matching (entries (db s)) wild"
    using rocksdb.query_run [OF assms(1), of wild s] by (simp add: wildcmp_eq)
  then have "getSorted R L srt wild sortby ascending rs skip limit flt s =
      Inr (True, rs @ map (\<lambda>e. value_key (out e) (c_str (fst e))) (window skip limit ?zs))"
    using assms(3,4,6) run ys(1) push
    by (cases ascending)
      (simp_all add: getSorted_def scan.loop_window [OF assms(5)] takeWhile_True rev_map window_map)
  with ys(2,3) show ?thesis by blast
qed

text \<open>C20: a sorted query by a field whose values are strings. When every entry that
  matches the wildcard is a JSON object, those that pass the filter, by the meaning of the filter, come
  in the byte order of the field, entries with equal fields in any order, or in the reverse of such an order when
  descending; the reply is the skip/limit window of that sequence, each entry as its value and key.\<close>

theorem getSorted_sorted:
  assumes "rocksdb R entries" and "sort_contract srt" and "dbOk s" and "\<not> star_first wild"
    and "window_ok skip limit" and "sortby \<noteq> []" and "filter_text flt F" and "filter_ok F"
    and "\<And>e. e \<in> set (matching (entries (db s)) wild) \<Longrightarrow> stored_object e (doc e)"
    and "\<And>e. e \<in> set es \<Longrightarrow> wvalue_of_rvalue L (RObject (doc e)) = Inr (out e)"
    and "\<And>e. e \<in> set es \<Longrightarrow> field_text (doc e) sortby = Some (label e)"
    and "es = filter (\<lambda>e. filter_holds F (doc e)) (matching (entries (db s)) wild)"
  shows "\<exists>ys. mset ys = mset es \<and> sorted (map label ys) \<and>
    getSorted R L srt wild sortby ascending rs skip limit flt s = Inr (True, rs @
      map (\<lambda>e. value_key (out e) (c_str (fst e))) (window skip limit (if ascending then ys else rev ys)))"
  by (rule getSorted_rank [OF assms(1-10) _ assms(12)]) (simp_all add: json_less_text assms(11))

text \<open>The same by a field whose values are numbers, which are compared by their integer parts.\<close>

theorem getSorted_numbers:
  assumes "rocksdb R entries" and "sort_contract srt" and "dbOk s" and "\<not> star_first wild"
    and "window_ok skip limit" and "sortby \<noteq> []" and "filter_text flt F" and "filter_ok F"
    and "\<And>e. e \<in> set (matching (entries (db s)) wild) \<Longrightarrow> stored_object e (doc e)"
    and "\<And>e. e \<in> set es \<Longrightarrow> wvalue_of_rvalue L (RObject (doc e)) = Inr (out e)"
    and "\<And>e. e \<in> set es \<Longrightarrow> field_int L (doc e) sortby = Some (num e)"
    and "es = filter (\<lambda>e. filter_holds F (doc e)) (matching (entries (db s)) wild)"
  shows "\<exists>ys. mset ys = mset es \<and> sorted (map num ys) \<and>
    getSorted R L srt wild sortby ascending rs skip limit flt s = Inr (True, rs @
      map (\<lambda>e. value_key (out e) (c_str (fst e))) (window skip limit (if ascending then ys else rev ys)))"
  by (rule getSorted_rank [OF assms(1-10) _ assms(12)]) (simp_all add: json_less_int assms(11))

text \<open>A concrete run: three messages, of which two are for \<open>u2\<close>.\<close>

definition messages :: "memdb core" where
  "messages = mem_node [(''g1'', ''{\"to\":\"u2\",\"msg\":\"m2\"}''), (''g2'', ''{\"to\":\"u3\",\"msg\":\"m0\"}''),
     (''g3'', ''{\"to\":\"u2\",\"msg\":\"m1\"}'')]"

definition for_u2 :: string where
  "for_u2 = ''{\"where\":{\"to\":{\"eq\":\"u2\"}}}''"

definition members_of :: "string \<times> string \<Rightarrow> (string \<times> rvalue) list" where
  "members_of e = (case load (snd e) of Some (RObject kvs) \<Rightarrow> kvs | _ \<Rightarrow> [])"

definition value_of :: "string \<times> string \<Rightarrow> wvalue" where
  "value_of e = (case wvalue_of_rvalue mem_lib (RObject (members_of e)) of Inr w \<Rightarrow> w | Inl x \<Rightarrow> WNull)"

definition msg_of :: "string \<times> string \<Rightarrow> string" where
  "msg_of e = (case field_text (members_of e) ''msg'' of Some t \<Rightarrow> t | None \<Rightarrow> [])"

definition u2_messages :: "(string \<times> string) list" where
  "u2_messages = filter (\<lambda>e. filter_holds (Where [(''to'', Eq ''u2'')]) (members_of e))
     (matching (mem_entries (db messages)) ''g*'')"

lemma u2_messages_facts:
  "map fst u2_messages = [''g1'', ''g3'']"
  "list_all (\<lambda>e. stored_object e (members_of e)) (matching (mem_entries (db messages)) ''g*'')"
  "list_all (\<lambda>e. wvalue_of_rvalue mem_lib (RObject (members_of e)) = Inr (value_of e)) u2_messages"
  "list_all (\<lambda>e. field_text (members_of e) ''msg'' = Some (msg_of e)) u2_messages"
  by code_simp+

theorem getSorted_sorted_witness:
  "\<exists>ys. mset ys = mset u2_messages \<and> sorted (map msg_of ys) \<and>
    getSorted mem_rocks mem_lib sort_by ''g*'' ''msg'' False [] 0 (-1) for_u2 messages = Inr (True, [] @
      map (\<lambda>e. value_key (value_of e) (c_str (fst e))) (window 0 (-1) (if False then ys else rev ys)))"
proof (rule getSorted_sorted [OF mem.rocksdb_axioms sort_by_contract, where F = "Where [(''to'', Eq ''u2'')]" and doc = members_of])
  show "filter_text for_u2 (Where [(''to'', Eq ''u2'')])" by code_simp
  show "stored_object e (members_of e)" if "e \<in> set (matching (mem_entries (db messages)) ''g*'')" for e
    using that u2_messages_facts(2) by (simp add: list_all_iff)
  show "wvalue_of_rvalue mem_lib (RObject (members_of e)) = Inr (value_of e)"
    "field_text (members_of e) ''msg'' = Some (msg_of e)" if "e \<in> set u2_messages" for e
    using that u2_messages_facts(3,4) by (simp_all add: list_all_iff)
qed (simp_all add: messages_def u2_messages_def run_simps)

text \<open>Scores that are stored as numbers.\<close>

definition scores :: "memdb core" where
  "scores = mem_node [(''p1'', ''{\"s\":12}''), (''p2'', ''{\"s\":9}'')]"

definition score_of :: "string \<times> string \<Rightarrow> int" where
  "score_of e = (case field_int mem_lib (members_of e) ''s'' of Some n \<Rightarrow> n | None \<Rightarrow> 0)"

definition score_entries :: "(string \<times> string) list" where
  "score_entries = filter (\<lambda>e. filter_holds No_filter (members_of e)) (matching (mem_entries (db scores)) ''p*'')"

lemma scores_facts:
  "list_all (\<lambda>e. stored_object e (members_of e)) (matching (mem_entries (db scores)) ''p*'')"
  "list_all (\<lambda>e. wvalue_of_rvalue mem_lib (RObject (members_of e)) = Inr (value_of e)) score_entries"
  "list_all (\<lambda>e. field_int mem_lib (members_of e) ''s'' = Some (score_of e)) score_entries"
  by code_simp+

theorem getSorted_numbers_witness:
  "\<exists>ys. mset ys = mset score_entries \<and> sorted (map score_of ys) \<and>
    getSorted mem_rocks mem_lib sort_by ''p*'' ''s'' True [] 0 (-1) [] scores = Inr (True, [] @
      map (\<lambda>e. value_key (value_of e) (c_str (fst e))) (window 0 (-1) (if True then ys else rev ys)))"
proof (rule getSorted_numbers [OF mem.rocksdb_axioms sort_by_contract, where F = No_filter and doc = members_of])
  show "stored_object e (members_of e)" if "e \<in> set (matching (mem_entries (db scores)) ''p*'')" for e
    using that scores_facts(1) by (simp add: list_all_iff)
  show "wvalue_of_rvalue mem_lib (RObject (members_of e)) = Inr (value_of e)"
    "field_int mem_lib (members_of e) ''s'' = Some (score_of e)" if "e \<in> set score_entries" for e
    using that scores_facts(2,3) by (simp_all add: list_all_iff)
qed (simp_all add: scores_def score_entries_def filter_text_def run_simps)

end
