(* ===== verification/Trie.thy ===== *)
theory Trie
  imports Prelude
begin

text \<open>
  The word index of \<^verbatim>\<open>include/qsearch.hpp\<close>, \<^verbatim>\<open>class MMapTrie\<close>: insertion, exact search, the four
  walks (prefix, fuzzy, fuzzy prefix, substring), deletion with its clean-up, and update. The
  memory map only provides the storage of the root node; every other node is on the heap, so the
  index is the tree of nodes. A node's \<^verbatim>\<open>std::unordered_map\<close> of children is kept in insertion
  order, and a walk visits the letters in the order a parameter \<open>ord\<close> makes of it, since the
  C++ standard leaves the order open. Calls are serialised by the mutex.
\<close>

section \<open>Nodes\<close>

record word_data =
  category :: string
  userData :: string

datatype trie = TrieNode (isEndOfWord: bool) (metadata: "word_data list") (children: "(char \<times> trie) list")

type_synonym hits = "(string \<times> word_data) list"
type_synonym visit_order = "char list \<Rightarrow> char list"

definition empty_trie :: trie where
  "empty_trie = TrieNode False [] []"

section \<open>Insertion and exact search\<close>

fun descend :: "trie \<Rightarrow> string \<Rightarrow> trie option" where
  "descend t [] = Some t"
| "descend t (c # w) = (case map_of (children t) c of None \<Rightarrow> None | Some n \<Rightarrow> descend n w)"

fun insert_word :: "string \<Rightarrow> word_data \<Rightarrow> trie \<Rightarrow> trie" where
  "insert_word [] d t = TrieNode True (metadata t @ [d]) (children t)"
| "insert_word (c # w) d t =
     (let n = (case map_of (children t) c of None \<Rightarrow> empty_trie | Some n \<Rightarrow> n) in
      TrieNode (isEndOfWord t) (metadata t) (AList.update c (insert_word w d n) (children t)))"

definition search_word :: "trie \<Rightarrow> string \<Rightarrow> word_data list" where
  "search_word t w =
     (case descend t w of None \<Rightarrow> [] | Some n \<Rightarrow> if isEndOfWord n then metadata n else [])"

section \<open>Walks\<close>

definition node_hits :: "string \<Rightarrow> word_data list \<Rightarrow> hits" where
  "node_hits w ds = map (Pair w) ds"

fun collectWordsFromNode :: "visit_order \<Rightarrow> trie \<Rightarrow> string \<Rightarrow> hits" where
  "collectWordsFromNode ord (TrieNode e ds cs) cur =
     (if e then node_hits cur ds else []) @
     concat (map snd (in_order ord (map (\<lambda>(c, n). (c, collectWordsFromNode ord n (cur @ [c]))) cs)))"

definition searchByPrefix :: "visit_order \<Rightarrow> trie \<Rightarrow> string \<Rightarrow> hits" where
  "searchByPrefix ord t pre =
     (case descend t pre of None \<Rightarrow> [] | Some n \<Rightarrow> collectWordsFromNode ord n pre)"

text \<open>\<^verbatim>\<open>currentWord.find(substring) != npos\<close>.\<close>

definition contains :: "string \<Rightarrow> string \<Rightarrow> bool" where
  "contains s sub = list_ex (\<lambda>i. starts_with (drop i s) sub) [0..<Suc (length s)]"

fun substringSearchHelper :: "visit_order \<Rightarrow> trie \<Rightarrow> string \<Rightarrow> string \<Rightarrow> hits" where
  "substringSearchHelper ord (TrieNode e ds cs) sub cur =
     (if e \<and> contains cur sub then node_hits cur ds else []) @
     concat (map snd (in_order ord (map (\<lambda>(c, n). (c, substringSearchHelper ord n sub (cur @ [c]))) cs)))"

definition substringSearch :: "visit_order \<Rightarrow> trie \<Rightarrow> string \<Rightarrow> hits" where
  "substringSearch ord t sub = substringSearchHelper ord t sub []"

fun fuzzyPrefixHelper :: "visit_order \<Rightarrow> trie \<Rightarrow> string \<Rightarrow> string \<Rightarrow> nat \<Rightarrow> int \<Rightarrow> int \<Rightarrow> hits" where
  "fuzzyPrefixHelper ord (TrieNode e ds cs) cur target index edits maxEdits =
     (if edits > maxEdits then []
      else (if index \<ge> length target \<and> e then node_hits cur ds else []) @
        concat (map snd (in_order ord (map (\<lambda>(c, n). (c,
          if index < length target
          then fuzzyPrefixHelper ord n (cur @ [c]) target (index + 1)
                 (edits + (if c \<noteq> target ! index then 1 else 0)) maxEdits
          else fuzzyPrefixHelper ord n (cur @ [c]) target index edits maxEdits)) cs))))"

definition fuzzyPrefixSearch :: "visit_order \<Rightarrow> trie \<Rightarrow> string \<Rightarrow> int \<Rightarrow> hits" where
  "fuzzyPrefixSearch ord t pre maxEdits = fuzzyPrefixHelper ord t [] pre 0 0 maxEdits"

text \<open>
  The fuzzy walk threads the results and the words already reported. Each child is visited up to
  twice: once using up a letter of the query, once as an inserted letter.
\<close>

type_synonym fuzzy_state = "hits \<times> string list"

definition report :: "string \<Rightarrow> word_data list \<Rightarrow> fuzzy_state \<Rightarrow> fuzzy_state" where
  "report cur ds st =
     (if cur \<in> set (snd st) then st else (fst st @ node_hits cur ds, cur # snd st))"

fun fuzzySearchHelper ::
    "visit_order \<Rightarrow> trie \<Rightarrow> string \<Rightarrow> string \<Rightarrow> nat \<Rightarrow> int \<Rightarrow> int \<Rightarrow> (fuzzy_state \<Rightarrow> fuzzy_state)" where
  "fuzzySearchHelper ord (TrieNode e ds cs) query cur queryIndex edits maxEdits = (\<lambda>st.
     if edits > maxEdits then st
     else
       let st1 = (if queryIndex = length query \<and> e then report cur ds st else st);
           walks = in_order ord (map (\<lambda>(c, n). (c,
             let cost = (if queryIndex < length query \<and> query ! queryIndex = c then 0 else 1);
                 advance = (if queryIndex < length query
                   then fuzzySearchHelper ord n query (cur @ [c]) (queryIndex + 1) (edits + cost) maxEdits
                   else (\<lambda>s. s));
                 stay = (if edits + 1 \<le> maxEdits
                   then fuzzySearchHelper ord n query (cur @ [c]) queryIndex (edits + 1) maxEdits
                   else (\<lambda>s. s))
             in stay \<circ> advance)) cs);
           st2 = fold snd walks st1
       in if edits \<le> maxEdits \<and> e then report cur ds st2 else st2)"

definition fuzzySearch :: "visit_order \<Rightarrow> trie \<Rightarrow> string \<Rightarrow> int \<Rightarrow> hits" where
  "fuzzySearch ord t query maxEdits = fst (fuzzySearchHelper ord t query [] 0 0 maxEdits ([], []))"

section \<open>Deletion\<close>

fun modify_at :: "string \<Rightarrow> (trie \<Rightarrow> trie) \<Rightarrow> trie \<Rightarrow> trie" where
  "modify_at [] f t = f t"
| "modify_at (c # w) f t =
     (case map_of (children t) c of
        None \<Rightarrow> t
      | Some n \<Rightarrow> TrieNode (isEndOfWord t) (metadata t) (AList.update c (modify_at w f n) (children t)))"

definition meta_matches :: "string \<Rightarrow> string \<Rightarrow> word_data \<Rightarrow> bool" where
  "meta_matches cat user d =
     ((cat = [] \<or> category d = cat) \<and> (user = [] \<or> userData d = user))"

definition remove_metadata :: "string \<Rightarrow> string \<Rightarrow> trie \<Rightarrow> trie" where
  "remove_metadata cat user t =
     (let ds = (if cat = [] \<and> user = [] then []
                else filter (\<lambda>d. \<not> meta_matches cat user d) (metadata t)) in
      TrieNode (if ds = [] then False else isEndOfWord t) ds (children t))"

definition erase_child :: "char \<Rightarrow> trie \<Rightarrow> trie" where
  "erase_child c t = TrieNode (isEndOfWord t) (metadata t) (AList.delete c (children t))"

text \<open>
  The clean-up: \<open>nodesToCheck[i]\<close> is the node of the first \<open>i + 1\<close> letters, reached here by
  descending along them; erasures happen below the nodes still to be looked at, so the
  path stays intact. The counter is \<open>i + 1\<close>.
\<close>

fun cleanup :: "string \<Rightarrow> nat \<Rightarrow> trie \<Rightarrow> trie" where
  "cleanup word 0 t = t"
| "cleanup word (Suc i) t =
     (case descend t (take (Suc i) word) of
        None \<Rightarrow> t
      | Some n \<Rightarrow>
          if children n = [] \<and> \<not> isEndOfWord n then
            cleanup word i (if i > 0 then modify_at (take i word) (erase_child (word ! (i - 1))) t else t)
          else t)"

definition deleteWord :: "string \<Rightarrow> string \<Rightarrow> string \<Rightarrow> trie \<Rightarrow> trie" where
  "deleteWord word cat user t =
     (case descend t word of
        None \<Rightarrow> t
      | Some n \<Rightarrow>
          cleanup word (length word)
            (if isEndOfWord n then modify_at word (remove_metadata cat user) t else t))"

definition updateWord :: "string \<Rightarrow> string \<Rightarrow> string \<Rightarrow> string \<Rightarrow> trie \<Rightarrow> trie" where
  "updateWord oldWord newWord cat user t =
     insert_word newWord \<lparr>category = cat, userData = user\<rparr> (deleteWord oldWord cat user t)"

end
