(* ===== verification/Trie_Laws.thy ===== *)
theory Trie_Laws
  imports Trie
begin

text \<open>
  The word index as a map from words to lists of data: what insertion, deletion and the walks
  do to that map. A walk is described word by word: \<open>hits_of w\<close> are the data it reports for
  \<open>w\<close>, in order.
\<close>

named_theorems trie_simps \<open>how the operations act on the words of the index\<close>

section \<open>Well-formed tries\<close>

fun trie_ok :: "trie \<Rightarrow> bool" where
  "trie_ok (TrieNode e ds cs) =
     (distinct (map fst cs) \<and> (e \<longleftrightarrow> ds \<noteq> []) \<and> list_all (\<lambda>b. b) (map (\<lambda>(c, n). trie_ok n) cs))"

lemma trie_ok_node:
  "trie_ok t \<longleftrightarrow> distinct (map fst (children t)) \<and> (isEndOfWord t \<longleftrightarrow> metadata t \<noteq> []) \<and>
     (\<forall>(c, n) \<in> set (children t). trie_ok n)"
  by (cases t) (auto simp: list_all_iff)

declare trie_ok.simps [simp del]

lemma trie_okD:
  assumes "trie_ok t"
  shows "distinct (map fst (children t))" and "isEndOfWord t \<longleftrightarrow> metadata t \<noteq> []"
    and "(c, n) \<in> set (children t) \<Longrightarrow> trie_ok n" and "map_of (children t) c = Some n \<Longrightarrow> trie_ok n"
  using assms unfolding trie_ok_node [of t] by (auto dest: map_of_SomeD)

lemma trie_ok_empty [simp]: "trie_ok empty_trie"
  by (simp add: empty_trie_def trie_ok.simps)

lemma set_AList_update: "set (AList.update k v al) \<subseteq> insert (k, v) (set al)"
  by (induction al) auto

lemma trie_ok_update_child:
  assumes "trie_ok t" and "trie_ok n"
  shows "trie_ok (TrieNode (isEndOfWord t) (metadata t) (AList.update c n (children t)))"
proof -
  have "trie_ok n'" if "(c', n') \<in> set (AList.update c n (children t))" for c' n'
    using set_AList_update [of c n "children t"] that assms(2) trie_okD(3) [OF assms(1)] by blast
  then show ?thesis
    using trie_okD [OF assms(1)]
    by (subst trie_ok_node) (auto intro: distinct_update)
qed

text \<open>The map a trie stands for.\<close>

lemma search_word_Nil: "search_word t [] = (if isEndOfWord t then metadata t else [])"
  by (simp add: search_word_def)

lemma search_word_Cons:
  "search_word t (c # w) = (case map_of (children t) c of None \<Rightarrow> [] | Some n \<Rightarrow> search_word n w)"
  by (auto simp: search_word_def split: option.split)

lemma search_word_empty [simp]: "search_word empty_trie w = []"
  by (cases w) (simp_all add: search_word_Nil search_word_Cons empty_trie_def)

lemma search_word_ok_Nil: "trie_ok t \<Longrightarrow> search_word t [] = metadata t"
  using trie_okD(2) [of t] by (auto simp: search_word_Nil)

section \<open>Insertion\<close>

lemma insert_word_ok: "trie_ok t \<Longrightarrow> trie_ok (insert_word w d t)"
proof (induction w d t rule: insert_word.induct)
  case (1 d t)
  then show ?case using trie_okD [OF 1] by (subst trie_ok_node) auto
next
  case (2 c w d t)
  have "trie_ok (case map_of (children t) c of None \<Rightarrow> empty_trie | Some n \<Rightarrow> n)"
    using 2(2) by (auto split: option.split dest: trie_okD)
  from 2(1) [OF refl this] 2(2) show ?case by (simp add: Let_def trie_ok_update_child)
qed

lemma search_insert [trie_simps]:
  assumes "trie_ok t"
  shows "search_word (insert_word w d t) v = (if v = w then search_word t w @ [d] else search_word t v)"
  using assms
proof (induction w d t arbitrary: v rule: insert_word.induct)
  case (1 d t)
  then show ?case
    by (cases v) (simp_all add: search_word_Nil search_word_Cons search_word_ok_Nil [of t, symmetric])
next
  case (2 c w d t)
  show ?case
  proof (cases v)
    case Nil
    then show ?thesis by (simp add: search_word_Nil Let_def)
  next
    case (Cons c' v')
    have "trie_ok (case map_of (children t) c of None \<Rightarrow> empty_trie | Some n \<Rightarrow> n)"
      using 2(2) by (auto split: option.split dest: trie_okD)
    from 2(1) [OF refl this] Cons show ?thesis
      by (auto simp: search_word_Cons Let_def update_conv split: option.splits)
  qed
qed

section \<open>What a walk reports\<close>

definition hits_of :: "string \<Rightarrow> hits \<Rightarrow> word_data list" where
  "hits_of w hs = map snd (filter (\<lambda>h. fst h = w) hs)"

definition below :: "string \<Rightarrow> hits \<Rightarrow> bool" where
  "below p hs = list_all (\<lambda>h. prefix p (fst h)) hs"

lemma hits_of_simps [simp]:
  "hits_of w [] = []"
  "hits_of w (hs @ hs') = hits_of w hs @ hits_of w hs'"
  "hits_of w (node_hits v ds) = (if v = w then ds else [])"
  by (auto simp: hits_of_def node_hits_def filter_map comp_def)

lemma below_simps [simp]:
  "below p []"
  "below p (hs @ hs') \<longleftrightarrow> below p hs \<and> below p hs'"
  "prefix p v \<Longrightarrow> below p (node_hits v ds)"
  by (auto simp: below_def node_hits_def list_all_iff)

lemma hits_of_outside: "below p hs \<Longrightarrow> \<not> prefix p w \<Longrightarrow> hits_of w hs = []"
  by (auto simp: below_def hits_of_def list_all_iff filter_empty_conv)

lemma below_mono: "below p hs \<Longrightarrow> prefix q p \<Longrightarrow> below q hs"
  by (auto simp: below_def list_all_iff)

text \<open>Children report under different letters, so the order of the visits does not matter.\<close>

lemma hits_of_children:
  assumes "distinct (map fst rs)" and "list_all (\<lambda>(c, r). below (p @ [c]) r) rs"
  shows "hits_of (p @ c # v) (concat (map snd rs)) =
    (case map_of rs c of None \<Rightarrow> [] | Some r \<Rightarrow> hits_of (p @ c # v) r)"
  using assms
proof (induction rs)
  case (Cons cr rs)
  obtain c' r where cr: "cr = (c', r)" by (cases cr)
  have r: "below (p @ [c']) r" using Cons.prems cr by simp
  show ?case
  proof (cases "c' = c")
    case True
    then have "map_of rs c = None" using Cons.prems cr by (simp add: map_of_eq_None_iff)
    with True Cons cr show ?thesis by simp
  next
    case False
    then have "hits_of (p @ c # v) r = []"
      by (intro hits_of_outside [OF r]) simp
    with False Cons cr show ?thesis by simp
  qed
qed simp

lemma below_children: "list_all (\<lambda>(c, r). below (p @ [c]) r) rs \<Longrightarrow> below p (concat (map snd rs))"
  by (induction rs) (auto intro: below_mono)

lemma hits_of_children_Nil:
  "list_all (\<lambda>(c, r). below (p @ [c]) r) rs \<Longrightarrow> hits_of p (concat (map snd rs)) = []"
proof (induction rs)
  case (Cons cr rs)
  then show ?case using hits_of_outside [of "p @ [fst cr]" "snd cr" p] by (auto simp: split_def)
qed simp

text \<open>The same for the walks of a node's children in the order of iteration.\<close>

lemma visits_list_all:
  assumes "\<And>c n. (c, n) \<in> set cs \<Longrightarrow> below (p @ [c]) (f c n)"
  shows "list_all (\<lambda>(c, r). below (p @ [c]) r) (in_order ord (map (\<lambda>(c, n). (c, f c n)) cs))"
  using assms set_in_order [of ord "map (\<lambda>(c, n). (c, f c n)) cs"] by (fastforce simp: list_all_iff)

lemma in_order_tagged:
  "(c, r) \<in> set (in_order ord (map (\<lambda>(c, n). (c, f c n)) cs)) \<Longrightarrow> \<exists>n. (c, n) \<in> set cs \<and> r = f c n"
  using set_in_order [of ord "map (\<lambda>(c, n). (c, f c n)) cs"] by auto

lemma map_of_tagged: "map_of (map (\<lambda>(c, n). (c, f c n)) cs) c = map_option (f c) (map_of cs c)"
  by (induction cs) auto

lemma map_fst_tagged: "map fst (map (\<lambda>(c, n). (c, f c n)) cs) = map fst cs"
  by (induction cs) auto

lemma hits_of_visits:
  assumes "order_ok ord" and "distinct (map fst cs)" and "\<And>c n. (c, n) \<in> set cs \<Longrightarrow> below (p @ [c]) (f c n)"
  defines "rs \<equiv> concat (map snd (in_order ord (map (\<lambda>(c, n). (c, f c n)) cs)))"
  shows "hits_of (p @ v) rs = (case v of [] \<Rightarrow> [] | c # v' \<Rightarrow>
      (case map_of cs c of None \<Rightarrow> [] | Some n \<Rightarrow> hits_of (p @ v) (f c n)))"
    and "below p rs"
proof -
  let ?rs = "in_order ord (map (\<lambda>(c, n). (c, f c n)) cs)"
  have la: "list_all (\<lambda>(c, r). below (p @ [c]) r) ?rs" by (rule visits_list_all [OF assms(3)])
  have di: "distinct (map fst ?rs)"
    by (rule distinct_in_order [OF assms(1)]) (simp only: map_fst_tagged assms(2))
  show "below p rs" unfolding rs_def by (rule below_children [OF la])
  show "hits_of (p @ v) rs = (case v of [] \<Rightarrow> [] | c # v' \<Rightarrow>
      (case map_of cs c of None \<Rightarrow> [] | Some n \<Rightarrow> hits_of (p @ v) (f c n)))"
  proof (cases v)
    case Nil
    then show ?thesis using hits_of_children_Nil [OF la] by (simp add: rs_def)
  next
    case (Cons c v')
    then show ?thesis
      unfolding rs_def
      by (simp add: hits_of_children [OF di la] map_of_in_order [OF assms(1)] map_of_tagged split: option.split)
  qed
qed

section \<open>Prefix and substring search\<close>

lemma search_node:
  "search_word (TrieNode e ds cs) v = (case v of [] \<Rightarrow> if e then ds else []
     | c # v' \<Rightarrow> (case map_of cs c of None \<Rightarrow> [] | Some n \<Rightarrow> search_word n v'))"
  by (cases v) (simp_all add: search_word_Nil search_word_Cons)

lemma collect_hits:
  assumes "order_ok ord" and "trie_ok t"
  shows "below cur (collectWordsFromNode ord t cur) \<and>
    (\<forall>v. hits_of (cur @ v) (collectWordsFromNode ord t cur) = search_word t v)"
  using assms(2)
proof (induction t arbitrary: cur)
  case (TrieNode e ds cs)
  note ok = trie_okD [OF TrieNode.prems, simplified]
  have IH: "below (cur @ [c]) (collectWordsFromNode ord n (cur @ [c]))"
    "hits_of (cur @ c # v) (collectWordsFromNode ord n (cur @ [c])) = search_word n v"
    if "(c, n) \<in> set cs" for c n v
    using TrieNode.IH [OF that, of n "cur @ [c]"] ok(3) [OF that] by simp_all
  note walk = hits_of_visits [OF assms(1) ok(1), of cur "\<lambda>c n. collectWordsFromNode ord n (cur @ [c])"]
  have "hits_of (cur @ v) (collectWordsFromNode ord (TrieNode e ds cs) cur) = search_word (TrieNode e ds cs) v" for v
    using IH walk(1) [of v] by (cases v) (auto simp: search_node split: option.split dest: map_of_SomeD)
  then show ?case using IH walk(2) by simp
qed

lemma descend_search: "search_word t (p @ v) = (case descend t p of None \<Rightarrow> [] | Some n \<Rightarrow> search_word n v)"
  by (induction t p rule: descend.induct) (auto simp: search_word_Cons split: option.split)

lemma descend_ok: "trie_ok t \<Longrightarrow> descend t p = Some n \<Longrightarrow> trie_ok n"
  by (induction t p rule: descend.induct) (auto split: option.splits dest: trie_okD)

lemma searchByPrefix_hits:
  assumes "order_ok ord" and "trie_ok t"
  shows "hits_of w (searchByPrefix ord t p) = (if prefix p w then search_word t w else [])"
proof (cases "descend t p")
  case None
  then show ?thesis by (auto simp: searchByPrefix_def prefix_def descend_search)
next
  case (Some n)
  note c = collect_hits [OF assms(1) descend_ok [OF assms(2) Some], of p]
  show ?thesis
    using c hits_of_outside [of p "collectWordsFromNode ord n p" w]
    by (auto simp: searchByPrefix_def Some prefix_def descend_search)
qed

text \<open>The substring search is the full walk restricted to the words that contain the text.\<close>

lemma contains_iff: "contains s sub \<longleftrightarrow> sublist sub s"
proof
  assume "contains s sub"
  then obtain i where "prefix sub (drop i s)"
    by (auto simp: contains_def list_ex_iff starts_with_prefix)
  then show "sublist sub s"
    by (metis append_take_drop_id prefix_def sublist_appendI)
next
  assume "sublist sub s"
  then obtain a b where "s = a @ sub @ b" by (auto simp: sublist_def)
  then show "contains s sub"
    by (auto simp: contains_def list_ex_iff starts_with_prefix intro!: bexI [of _ "length a"])
qed

lemma concat_filter: "filter P (concat xss) = concat (map (filter P) xss)"
  by (induction xss) simp_all

lemma substring_walk:
  "substringSearchHelper ord t sub cur = filter (\<lambda>h. contains (fst h) sub) (collectWordsFromNode ord t cur)"
proof (induction t arbitrary: cur)
  case (TrieNode e ds cs)
  let ?P = "\<lambda>h. contains (fst h) sub"
  let ?rs = "map (\<lambda>(c, n). (c, collectWordsFromNode ord n (cur @ [c]))) cs"
  have "map (\<lambda>(c, n). (c, substringSearchHelper ord n sub (cur @ [c]))) cs =
      map (\<lambda>(c, hs). (c, filter ?P hs)) ?rs"
    using TrieNode by auto
  then have "in_order ord (map (\<lambda>(c, n). (c, substringSearchHelper ord n sub (cur @ [c]))) cs) =
      map (\<lambda>(c, hs). (c, filter ?P hs)) (in_order ord ?rs)"
    by (simp only: in_order_map)
  moreover have "filter ?P (node_hits cur ds) = (if contains cur sub then node_hits cur ds else [])"
    by (auto simp: node_hits_def filter_map comp_def)
  ultimately show ?case by (simp add: concat_filter comp_def split_def)
qed

lemma hits_of_filter: "hits_of w (filter (\<lambda>h. P (fst h)) hs) = (if P w then hits_of w hs else [])"
  by (induction hs) (auto simp: hits_of_def)

lemma substringSearch_hits:
  assumes "order_ok ord" and "trie_ok t"
  shows "hits_of w (substringSearch ord t sub) = (if sublist sub w then search_word t w else [])"
  using collect_hits [OF assms, of "[]"]
  by (simp add: substringSearch_def substring_walk hits_of_filter contains_iff)

section \<open>Fuzzy prefix search\<close>

text \<open>The number of positions in which two texts of the same length differ.\<close>

fun hamming :: "string \<Rightarrow> string \<Rightarrow> int" where
  "hamming (c # v) (x # p) = (if c \<noteq> x then 1 else 0) + hamming v p"
| "hamming _ _ = 0"

lemma hamming_nonneg: "0 \<le> hamming v p"
  by (induction v p rule: hamming.induct) auto

lemma fuzzyPrefixHelper_hits:
  assumes "order_ok ord" and "trie_ok t"
  shows "below cur (fuzzyPrefixHelper ord t cur p i ed m) \<and>
    (\<forall>v. hits_of (cur @ v) (fuzzyPrefixHelper ord t cur p i ed m) =
      (if length p \<le> i + length v \<and> ed + hamming v (drop i p) \<le> m then search_word t v else []))"
  using assms(2)
proof (induction t arbitrary: cur i ed)
  case (TrieNode e ds cs)
  note ok = trie_okD [OF TrieNode.prems, simplified]
  let ?f = "\<lambda>c n. if i < length p then fuzzyPrefixHelper ord n (cur @ [c]) p (i + 1)
      (ed + (if c \<noteq> p ! i then 1 else 0)) m else fuzzyPrefixHelper ord n (cur @ [c]) p i ed m"
  have ham: "hamming (c # v) (drop i p) =
      (if i < length p then (if c \<noteq> p ! i then 1 else 0) + hamming v (drop (i + 1) p) else hamming v (drop i p))"
    for c v by (auto simp: Cons_nth_drop_Suc [symmetric])
  have IH: "below (cur @ [c]) (?f c n)"
    "hits_of (cur @ c # v) (?f c n) =
      (if length p \<le> i + length (c # v) \<and> ed + hamming (c # v) (drop i p) \<le> m then search_word n v else [])"
    if "(c, n) \<in> set cs" for c n v
    using TrieNode.IH [OF that, of n "cur @ [c]"] ok(3) [OF that]
    unfolding ham by (auto simp: add.assoc)
  note walk = hits_of_visits [OF assms(1) ok(1), of cur ?f]
  show ?case
  proof (cases "ed > m")
    case True
    then show ?thesis using hamming_nonneg [of _ "drop i p"] by (auto simp: not_le) (smt (verit))
  next
    case False
    let ?rs = "concat (map snd (in_order ord (map (\<lambda>(c, n). (c, ?f c n)) cs)))"
    have unf: "fuzzyPrefixHelper ord (TrieNode e ds cs) cur p i ed m =
        (if i \<ge> length p \<and> e then node_hits cur ds else []) @ ?rs"
      using False by simp
    have "hits_of (cur @ v) (fuzzyPrefixHelper ord (TrieNode e ds cs) cur p i ed m) =
        (if length p \<le> i + length v \<and> ed + hamming v (drop i p) \<le> m then search_word (TrieNode e ds cs) v else [])"
      for v
    proof (cases v)
      case Nil
      then show ?thesis unfolding unf using False walk(1) [OF IH(1), of "[]"] by (simp add: search_node)
    next
      case (Cons c v')
      show ?thesis
      proof (cases "map_of cs c")
        case None
        then show ?thesis unfolding unf using walk(1) [OF IH(1), of v] Cons by (simp add: search_node)
      next
        case (Some n)
        have "hits_of (cur @ v) ?rs = hits_of (cur @ c # v') (?f c n)"
          using walk(1) [OF IH(1), of v] Cons Some by simp
        then show ?thesis
          unfolding unf by (simp only: hits_of_simps IH(2) [OF map_of_SomeD [OF Some]] Cons)
            (simp add: search_node Some)
      qed
    qed
    moreover have "below cur (fuzzyPrefixHelper ord (TrieNode e ds cs) cur p i ed m)"
      unfolding unf using walk(2) [OF IH(1)] by simp
    ultimately show ?thesis by blast
  qed
qed

section \<open>Fuzzy search\<close>

text \<open>
  The cost of a word against a query: a substituted letter and an inserted letter cost one; what
  is left of the query at the end of the word costs nothing.
\<close>

fun fuzzy_cost :: "string \<Rightarrow> string \<Rightarrow> int" where
  "fuzzy_cost [] q = 0"
| "fuzzy_cost (c # v) [] = 1 + fuzzy_cost v []"
| "fuzzy_cost (c # v) (x # q) = min ((if x = c then 0 else 1) + fuzzy_cost v q) (1 + fuzzy_cost v (x # q))"

lemma fuzzy_cost_nonneg: "0 \<le> fuzzy_cost v q"
  by (induction v q rule: fuzzy_cost.induct) auto

lemma fuzzy_cost_prefix: "prefix v q \<Longrightarrow> fuzzy_cost v q = 0"
proof (induction v arbitrary: q)
  case (Cons c v)
  then obtain q' where q: "q = c # q'" "prefix v q'" by (auto simp: prefix_def)
  with Cons.IH have "fuzzy_cost v q' = 0" by simp
  then show ?case using fuzzy_cost_nonneg [of v "c # q'"] q by simp
qed simp

text \<open>
  One step of the walk adds the words of a set: each that was not reported before is reported
  with all its data.
\<close>

definition grows :: "(string \<Rightarrow> word_data list) \<Rightarrow> string set \<Rightarrow> fuzzy_state \<Rightarrow> fuzzy_state \<Rightarrow> bool" where
  "grows D S st st' \<longleftrightarrow> set (snd st') = set (snd st) \<union> S \<and>
     (\<forall>w. hits_of w (fst st') = hits_of w (fst st) @ (if w \<in> S - set (snd st) then D w else []))"

lemma grows_none [intro]: "grows D {} st st"
  by (simp add: grows_def)

lemma grows_trans: "grows D S st st1 \<Longrightarrow> grows D T st1 st2 \<Longrightarrow> grows D (S \<union> T) st st2"
  by (auto simp: grows_def)

lemma grows_report: "D cur = ds \<Longrightarrow> grows D {cur} st (report cur ds st)"
  by (auto simp: grows_def report_def)

lemma grows_fold:
  assumes "\<And>c f st. (c, f) \<in> set fs \<Longrightarrow> grows D (S c) st (f st)"
  shows "grows D (\<Union>c \<in> fst ` set fs. S c) st (fold snd fs st)"
  using assms
proof (induction fs arbitrary: st)
  case (Cons cf fs)
  obtain c f where cf: "cf = (c, f)" by (cases cf)
  have "grows D (S c) st (f st)" using Cons.prems cf by simp
  moreover have "grows D (\<Union>c \<in> fst ` set fs. S c) (f st) (fold snd fs (f st))"
    using Cons by simp
  ultimately show ?case using cf by (simp add: grows_trans)
qed (simp add: grows_none)

definition reached :: "trie \<Rightarrow> string \<Rightarrow> string \<Rightarrow> int \<Rightarrow> int \<Rightarrow> string set" where
  "reached t cur q ed m = {cur @ v | v. search_word t v \<noteq> [] \<and> ed + fuzzy_cost v q \<le> m}"

lemma reached_node:
  assumes "e \<longleftrightarrow> ds \<noteq> []" and "ed \<le> m"
  shows "reached (TrieNode e ds cs) cur q ed m = (if e then {cur} else {}) \<union>
    (\<Union>c \<in> fst ` set cs. {cur @ c # v | v. search_word (the (map_of cs c)) v \<noteq> [] \<and> ed + fuzzy_cost (c # v) q \<le> m})"
    (is "?l = ?r")
proof (intro set_eqI iffI)
  fix w assume "w \<in> ?l"
  then obtain v where v: "w = cur @ v" "search_word (TrieNode e ds cs) v \<noteq> []" "ed + fuzzy_cost v q \<le> m"
    by (auto simp: reached_def)
  show "w \<in> ?r"
  proof (cases v)
    case Nil
    with v show ?thesis by (simp add: search_node split: if_splits)
  next
    case (Cons c v')
    with v obtain n where n: "map_of cs c = Some n" "search_word n v' \<noteq> []"
      by (auto simp: search_node split: option.splits)
    then have "c \<in> fst ` set cs" by (metis map_of_eq_None_iff option.distinct(1))
    with n v Cons show ?thesis by auto
  qed
next
  fix w assume "w \<in> ?r"
  then consider "e" "w = cur" | c v where "c \<in> fst ` set cs" "w = cur @ c # v"
      "search_word (the (map_of cs c)) v \<noteq> []" "ed + fuzzy_cost (c # v) q \<le> m"
    by (auto split: if_splits)
  then show "w \<in> ?l"
  proof cases
    case 1
    with assms show ?thesis by (auto simp: reached_def search_node intro!: exI [of _ "[]"])
  next
    case 2
    obtain n where "map_of cs c = Some n" using 2(1) by (metis map_of_eq_None_iff not_None_eq)
    with 2 show ?thesis by (auto simp: reached_def search_node intro!: exI [of _ "c # v"])
  qed
qed

lemma reached_child:
  assumes "ed \<le> m" and "trie_ok n"
  shows "{cur @ c # v | v. search_word n v \<noteq> [] \<and> ed + fuzzy_cost (c # v) (drop i q) \<le> m} =
    (if i < length q then reached n (cur @ [c]) (drop (i + 1) q) (ed + (if i < length q \<and> q ! i = c then 0 else 1)) m
     else {}) \<union> (if ed + 1 \<le> m then reached n (cur @ [c]) (drop i q) (ed + 1) m else {})"
proof (cases "i < length q")
  case True
  then have d: "drop i q = q ! i # drop (i + 1) q" by (simp add: Cons_nth_drop_Suc)
  have "ed + fuzzy_cost (c # v) (drop i q) \<le> m \<longleftrightarrow>
      ed + (if q ! i = c then 0 else 1) + fuzzy_cost v (drop (i + 1) q) \<le> m \<or>
      (ed + 1 \<le> m \<and> ed + 1 + fuzzy_cost v (drop i q) \<le> m)" for v
    using fuzzy_cost_nonneg [of v "drop i q"] by (auto simp: d min_le_iff_disj add.assoc)
  with True show ?thesis by (auto simp: reached_def)
next
  case False
  then show ?thesis using fuzzy_cost_nonneg by (auto simp: reached_def) (smt (verit) fuzzy_cost_nonneg)+
qed

lemma fuzzySearchHelper_grows:
  assumes "order_ok ord" and "trie_ok t" and "\<forall>v. D (cur @ v) = search_word t v"
  shows "grows D (reached t cur (drop i q) ed m) st (fuzzySearchHelper ord t q cur i ed m st)"
  using assms(2,3)
proof (induction t arbitrary: cur i ed st)
  case (TrieNode e ds cs)
  note ok = trie_okD [OF TrieNode.prems(1), simplified]
  show ?case
  proof (cases "ed > m")
    case True
    moreover have "reached (TrieNode e ds cs) cur (drop i q) ed m = {}"
      using True fuzzy_cost_nonneg by (auto simp: reached_def) (smt (verit) fuzzy_cost_nonneg)
    ultimately show ?thesis by (simp add: grows_none)
  next
    case False
    let ?f = "\<lambda>c n. (if ed + 1 \<le> m then fuzzySearchHelper ord n q (cur @ [c]) i (ed + 1) m else (\<lambda>s. s)) \<circ>
        (if i < length q then fuzzySearchHelper ord n q (cur @ [c]) (i + 1)
           (ed + (if i < length q \<and> q ! i = c then 0 else 1)) m else (\<lambda>s. s))"
    let ?S = "\<lambda>c. {cur @ c # v | v. search_word (the (map_of cs c)) v \<noteq> [] \<and> ed + fuzzy_cost (c # v) (drop i q) \<le> m}"
    define walks where "walks = in_order ord (map (\<lambda>(c, n). (c, ?f c n)) cs)"
    have unf: "fuzzySearchHelper ord (TrieNode e ds cs) q cur i ed m st =
        (let st2 = fold snd walks (if i = length q \<and> e then report cur ds st else st)
         in if e then report cur ds st2 else st2)"
      using False by (simp add: walks_def Let_def comp_def)
    have child: "grows D (?S c) s (f s)" if mem: "(c, f) \<in> set walks" for c f s
    proof -
      obtain n where n: "(c, n) \<in> set cs" "f = ?f c n"
        using in_order_tagged [of c f ord ?f cs, OF mem [unfolded walks_def]] by blast
      then have m: "map_of cs c = Some n" using ok(1) by (simp add: map_of_eq_Some_iff)
      have D: "\<forall>v. D ((cur @ [c]) @ v) = search_word n v"
        using TrieNode.prems(2) m by (metis append.assoc append_Cons append_Nil search_node list.simps(5) option.simps(5))
      have IH: "grows D (reached n (cur @ [c]) (drop i' q) ed' m) s' (fuzzySearchHelper ord n q (cur @ [c]) i' ed' m s')"
        for i' ed' s'
        by (rule TrieNode.IH [OF n(1) _ ok(3) [OF n(1)] D]) simp
      let ?ed = "ed + (if i < length q \<and> q ! i = c then 0 else 1)"
      have "grows D (if i < length q then reached n (cur @ [c]) (drop (i + 1) q) ?ed m else {}) s
          ((if i < length q then fuzzySearchHelper ord n q (cur @ [c]) (i + 1) ?ed m else (\<lambda>s. s)) s)"
        using IH by (simp add: grows_none)
      from grows_trans [OF this, of "if ed + 1 \<le> m then reached n (cur @ [c]) (drop i q) (ed + 1) m else {}"]
      show ?thesis
        unfolding n(2) m option.sel reached_child [OF False [unfolded not_less] ok(3) [OF n(1)]] comp_def
        using IH by (simp add: grows_none)
    qed
    have "D cur = ds" if e using TrieNode.prems(2) [rule_format, of "[]"] that by (simp add: search_node)
    then have rep: "grows D (if b \<and> e then {cur} else {}) s (if b \<and> e then report cur ds s else s)" for b s
      by (simp add: grows_report grows_none)
    have letters: "fst ` set walks = fst ` set cs"
      using order_ok_set [OF assms(1), of "map fst cs"] map_fst_in_order [OF assms(1), of "map (\<lambda>(c, n). (c, ?f c n)) cs"]
      by (metis walks_def list.set_map map_fst_tagged)
    let ?R = "reached (TrieNode e ds cs) cur (drop i q) ed m"
    have fld: "grows D (\<Union>c \<in> fst ` set cs. ?S c) s (fold snd walks s)" for s
      using grows_fold [of walks D ?S s] child unfolding letters by blast
    have "grows D (((if i = length q \<and> e then {cur} else {}) \<union> (\<Union>c \<in> fst ` set cs. ?S c)) \<union> (if True \<and> e then {cur} else {})) st
        (fuzzySearchHelper ord (TrieNode e ds cs) q cur i ed m st)"
      using grows_trans [OF grows_trans [OF rep fld] rep [of True]]
      unfolding unf Let_def by simp
    moreover have "((if i = length q \<and> e then {cur} else {}) \<union> (\<Union>c \<in> fst ` set cs. ?S c)) \<union> (if True \<and> e then {cur} else {}) = ?R"
      using reached_node [OF ok(2), of ed m cs cur "drop i q"] False by auto
    ultimately show ?thesis by simp
  qed
qed

lemma fuzzySearch_hits:
  assumes "order_ok ord" and "trie_ok t"
  shows "hits_of w (fuzzySearch ord t q m) = (if fuzzy_cost w q \<le> m then search_word t w else [])"
  using fuzzySearchHelper_grows [OF assms, where D = "search_word t" and cur = "[]" and q = q and i = 0 and ed = 0 and m = m and st = "([], [])"]
  by (auto simp: grows_def fuzzySearch_def reached_def)

section \<open>Deletion\<close>

lemma search_modify_other:
  assumes "\<And>n. children (f n) = children n" and "w \<noteq> p"
  shows "search_word (modify_at p f t) w = search_word t w"
  using assms
proof (induction p f t arbitrary: w rule: modify_at.induct)
  case (1 f t)
  then show ?case by (cases w) (simp_all add: search_word_Cons)
next
  case (2 c p f t)
  then show ?case
    by (cases w) (auto simp: search_word_Cons search_word_Nil update_conv split: option.splits)
qed

lemma search_modify_same:
  "search_word (modify_at p f t) p = (case descend t p of None \<Rightarrow> [] | Some n \<Rightarrow> search_word (f n) [])"
  by (induction p f t rule: modify_at.induct)
    (auto simp: search_word_Cons update_conv split: option.splits)

lemma search_erase:
  "search_word (modify_at p (erase_child c) t) w = (if prefix (p @ [c]) w then [] else search_word t w)"
proof (induction p "erase_child c" t arbitrary: w rule: modify_at.induct)
  case (1 t)
  then show ?case by (cases w) (auto simp: erase_child_def search_word_Cons search_word_Nil delete_conv)
next
  case (2 a p t)
  then show ?case
    by (cases w) (auto simp: search_word_Cons search_word_Nil update_conv split: option.splits)
qed

lemma trie_ok_modify:
  assumes "\<And>n. trie_ok n \<Longrightarrow> trie_ok (f n)" and "trie_ok t"
  shows "trie_ok (modify_at p f t)"
  using assms
proof (induction p f t rule: modify_at.induct)
  case (1 f t)
  then show ?case by simp
next
  case (2 c p f t)
  then show ?case by (auto intro!: trie_ok_update_child split: option.split dest: trie_okD)
qed

lemma trie_ok_erase: "trie_ok t \<Longrightarrow> trie_ok (erase_child c t)"
proof -
  assume ok: "trie_ok t"
  have "(k, n) \<in> set (AList.delete c (children t)) \<Longrightarrow> (k, n) \<in> set (children t)" for k n
    by (auto simp: AList.delete_eq)
  then show "trie_ok (erase_child c t)"
    using trie_okD [OF ok] unfolding erase_child_def
    by (subst trie_ok_node) (auto intro: distinct_delete)
qed

lemma trie_ok_remove_metadata: "trie_ok t \<Longrightarrow> trie_ok (remove_metadata cat user t)"
proof -
  assume ok: "trie_ok t"
  show "trie_ok (remove_metadata cat user t)"
    unfolding remove_metadata_def Let_def
    using trie_okD [OF ok] by (subst trie_ok_node) auto
qed

text \<open>The words the clean-up of \<open>word\<close> may cut off: below a node of its path, through a child
  with the letter \<^emph>\<open>before\<close> the one that leads on.\<close>

definition cut_off :: "string \<Rightarrow> string \<Rightarrow> bool" where
  "cut_off word w = list_ex (\<lambda>i. prefix (take i word @ [word ! (i - 1)]) w) [1..<length word]"

lemma cleanup_ok: "trie_ok t \<Longrightarrow> trie_ok (cleanup word i t)"
  by (induction word i t rule: cleanup.induct)
    (auto simp: trie_ok_modify trie_ok_erase split: option.split)

lemma search_cleanup:
  assumes "i \<le> length word"
  shows "search_word (cleanup word i t) w = search_word t w \<or>
    (cut_off word w \<and> search_word (cleanup word i t) w = [])"
  using assms
proof (induction word i t rule: cleanup.induct)
  case (2 word i t)
  show ?case
  proof (cases "descend t (take (Suc i) word)")
    case (Some n)
    let ?t = "if i > 0 then modify_at (take i word) (erase_child (word ! (i - 1))) t else t"
    have e: "search_word ?t w = search_word t w \<or> (cut_off word w \<and> search_word ?t w = [])"
      using 2(2) by (auto simp: search_erase cut_off_def list_ex_iff)
    show ?thesis
    proof (cases "children n = [] \<and> \<not> isEndOfWord n")
      case True
      have "cleanup word (Suc i) t = cleanup word i ?t" using Some True by simp
      with 2(1) [OF Some True] 2(2) e show ?thesis by auto
    next
      case False
      then have "cleanup word (Suc i) t = t" using Some by auto
      then show ?thesis by simp
    qed
  qed simp
qed simp

lemma remove_metadata_search:
  "search_word (remove_metadata cat user n) [] =
    (if isEndOfWord n then filter (\<lambda>d. \<not> meta_matches cat user d) (metadata n) else [])"
  by (auto simp: search_word_Nil remove_metadata_def meta_matches_def Let_def)

lemma deleteWord_ok: "trie_ok t \<Longrightarrow> trie_ok (deleteWord word cat user t)"
  by (auto simp: deleteWord_def trie_ok_modify trie_ok_remove_metadata cleanup_ok split: option.split)

lemma children_remove_metadata: "children (remove_metadata cat user n) = children n"
  by (simp add: remove_metadata_def Let_def)

lemma search_removed:
  assumes "descend t word = Some n" and "isEndOfWord n"
  shows "search_word (modify_at word (remove_metadata cat user) t) w =
    (if w = word then filter (\<lambda>d. \<not> meta_matches cat user d) (search_word t word) else search_word t w)"
  using assms search_modify_other [of "remove_metadata cat user" w word t]
  by (simp add: search_modify_same remove_metadata_search children_remove_metadata search_word_def [of t])

lemma cleanup_nothing: "search_word t word \<noteq> [] \<Longrightarrow> cleanup word (length word) t = t"
  by (cases "length word") (auto simp: search_word_def split: option.splits if_splits)

lemma descend_modify: "descend (modify_at p f t) p = map_option f (descend t p)"
  by (induction p f t rule: modify_at.induct) (auto simp: update_conv split: option.splits)

end
