(* ===== verification/Trie_Props.thy ===== *)
theory Trie_Props
  imports Trie_Laws
begin

text \<open>
  The properties of the word index, for every index that some sequence of insertions, deletions
  and updates builds from the empty one.
\<close>

datatype trie_op =
    Insert string string string
  | Delete string string string
  | Update string string string string

fun trie_step :: "trie_op \<Rightarrow> trie \<Rightarrow> trie" where
  "trie_step (Insert w cat user) t = insert_word w \<lparr>category = cat, userData = user\<rparr> t"
| "trie_step (Delete w cat user) t = deleteWord w cat user t"
| "trie_step (Update old new cat user) t = updateWord old new cat user t"

definition built :: "trie_op list \<Rightarrow> trie" where
  "built ops = fold trie_step ops empty_trie"

lemma trie_steps_ok: "trie_ok t \<Longrightarrow> trie_ok (fold trie_step ops t)"
proof (induction ops arbitrary: t)
  case (Cons op ops)
  then show ?case
    by (cases op) (simp_all add: insert_word_ok deleteWord_ok updateWord_def)
qed simp

lemmas built_trie_ok = trie_steps_ok [OF trie_ok_empty]

text \<open>C23: every index the operations build is well formed: the letters of the children of a node
  are distinct, and a node ends a word exactly when it has data.\<close>

theorem built_ok: "trie_ok (built ops)"
  by (simp add: built_def trie_steps_ok)

text \<open>After an insertion the exact search for the word finds what it found before and the new
  data at the end; every other word is found as before.\<close>

theorem insert_then_search:
  "search_word (insert_word w d (built ops)) v =
    (if v = w then search_word (built ops) w @ [d] else search_word (built ops) v)"
  by (rule search_insert) (simp add: built_def built_trie_ok)

text \<open>C26: prefix, substring and fuzzy prefix search report, whatever the order in which nodes are
  visited, each stored word once with exactly its data: the words with the prefix, the words that
  contain the text, and the words whose beginning differs from the prefix in at most the given
  number of letters.\<close>

theorem walks_exact:
  assumes "order_ok ord"
  shows "hits_of w (searchByPrefix ord (built ops) p) = (if prefix p w then search_word (built ops) w else []) \<and>
    hits_of w (substringSearch ord (built ops) p) = (if sublist p w then search_word (built ops) w else []) \<and>
    hits_of w (fuzzyPrefixSearch ord (built ops) p m) =
      (if length p \<le> length w \<and> hamming w p \<le> m then search_word (built ops) w else [])"
  using searchByPrefix_hits [OF assms built_trie_ok] substringSearch_hits [OF assms built_trie_ok]
    fuzzyPrefixHelper_hits [OF assms built_trie_ok, of "[]" ops p 0 0 m]
  by (simp_all add: built_def fuzzyPrefixSearch_def)

definition fruit :: "trie_op list" where
  "fruit = [Insert ''apple'' ''fruit'' ''red'', Insert ''apply'' ''verb'' ''use'', Insert ''ape'' ''animal'' ''x'']"

theorem walks_exact_witness:
  "hits_of ''apply'' (searchByPrefix rev (built fruit) ''ap'') = [\<lparr>category = ''verb'', userData = ''use''\<rparr>] \<and>
   hits_of ''apply'' (substringSearch rev (built fruit) ''pl'') = [\<lparr>category = ''verb'', userData = ''use''\<rparr>] \<and>
   hits_of ''apply'' (fuzzyPrefixSearch rev (built fruit) ''axp'' 1) = [\<lparr>category = ''verb'', userData = ''use''\<rparr>]"
proof -
  have s: "search_word (built fruit) ''apply'' = [\<lparr>category = ''verb'', userData = ''use''\<rparr>]" by code_simp
  have h: "hamming ''apply'' ''axp'' = 1" by code_simp
  have sub: "sublist ''pl'' ''apply''"
    by (rule sublist_appendI [of "''pl''" "''ap''" "''y''", simplified])
  have "order_ok rev" by simp
  note f = walks_exact [OF this, of "''apply''" fruit]
  from f [of "''ap''"] f [of "''pl''"] f [of "''axp''" 1] show ?thesis
    using s h sub by (simp del: sublist_code)
qed

text \<open>C24: fuzzy search reports each stored word whose cost against the query is within the bound,
  once and with all its data. The cost counts substituted and inserted letters only: what the word
  leaves of the query is free, so every stored prefix of the query is reported even with bound 0.\<close>

theorem fuzzySearch_exact:
  assumes "order_ok ord"
  shows "hits_of w (fuzzySearch ord (built ops) q m) =
      (if fuzzy_cost w q \<le> m then search_word (built ops) w else []) \<and>
    (prefix w q \<longrightarrow> hits_of w (fuzzySearch ord (built ops) q 0) = search_word (built ops) w)"
  using fuzzySearch_hits [OF assms built_trie_ok, of w ops q] fuzzy_cost_prefix [of w q]
  by (simp_all add: built_def)

theorem fuzzySearch_exact_witness:
  "hits_of ''ape'' (fuzzySearch rev (built fruit) ''apt'' 1) = [\<lparr>category = ''animal'', userData = ''x''\<rparr>] \<and>
   hits_of ''ape'' (fuzzySearch rev (built fruit) ''aperture'' 0) = [\<lparr>category = ''animal'', userData = ''x''\<rparr>]"
proof -
  have s: "search_word (built fruit) ''ape'' = [\<lparr>category = ''animal'', userData = ''x''\<rparr>]" by code_simp
  have c: "fuzzy_cost ''ape'' ''apt'' \<le> 1" by code_simp
  have "order_ok rev" by simp
  note f = fuzzySearch_exact [OF this, of "''ape''"]
  from f [of fruit "''apt''" 1] f [of fruit "''aperture''" 0] show ?thesis
    using s c by simp
qed

text \<open>C25: a deletion removes exactly the matching data of the word and leaves every other word
  alone that the clean-up cannot cut off.\<close>

theorem deleteWord_exact:
  assumes "w = word \<or> \<not> cut_off word w"
  shows "search_word (deleteWord word cat user (built ops)) w =
    (if w = word then filter (\<lambda>d. \<not> meta_matches cat user d) (search_word (built ops) word)
     else search_word (built ops) w)"
proof (cases "descend (built ops) word")
  case None
  then show ?thesis by (simp add: deleteWord_def search_word_def)
next
  case (Some n)
  let ?t = "if isEndOfWord n then modify_at word (remove_metadata cat user) (built ops) else built ops"
  have t: "search_word ?t v = (if v = word then filter (\<lambda>d. \<not> meta_matches cat user d) (search_word (built ops) word)
      else search_word (built ops) v)" for v
    using search_removed [OF Some] Some by (simp add: search_word_def [of "built ops" word])
  have d: "deleteWord word cat user (built ops) = cleanup word (length word) ?t"
    by (simp add: deleteWord_def Some)
  show ?thesis
  proof (cases "w = word")
    case False
    with assms search_cleanup [of "length word" word ?t w] show ?thesis unfolding d t by auto
  next
    case True
    show ?thesis
    proof (cases "search_word ?t word = []")
      case empty: True
      with search_cleanup [of "length word" word ?t word] True show ?thesis
        unfolding d using t [of word] by auto
    next
      case False
      with True t [of word] show ?thesis unfolding d cleanup_nothing [OF False] by simp
    qed
  qed
qed

theorem deleteWord_exact_witness:
  "search_word (deleteWord ''ape'' [] [] (built fruit)) ''ape'' = [] \<and>
   search_word (deleteWord ''apply'' [] [] (built fruit)) ''ape'' = [\<lparr>category = ''animal'', userData = ''x''\<rparr>]"
proof -
  have s: "search_word (built fruit) ''ape'' = [\<lparr>category = ''animal'', userData = ''x''\<rparr>]" by code_simp
  have "\<not> cut_off ''apply'' ''ape''" by code_simp
  with deleteWord_exact [of "''ape''" "''apply''" "[]" "[]" fruit]
    deleteWord_exact [of "''ape''" "''ape''" "[]" "[]" fruit]
  show ?thesis by (simp add: s meta_matches_def)
qed

text \<open>The clean-up erases the wrong letter: when the word had no data left and its node no
  child, every word that goes on with the \<^emph>\<open>last but one\<close> letter of the deleted word in the place
  of its last letter is lost. Deleting \<open>ape\<close> loses \<open>apple\<close> and \<open>apply\<close>.\<close>

theorem delete_loses_words:
  assumes "descend (built ops) word = Some n" and "isEndOfWord n" and "children n = []"
    and "list_all (meta_matches cat user) (metadata n)"
    and "length word = Suc (Suc k)" and "prefix (take (Suc k) word @ [word ! k]) w"
  shows "search_word (deleteWord word cat user (built ops)) w = []"
proof -
  let ?t = "modify_at word (remove_metadata cat user) (built ops)"
  let ?t1 = "modify_at (take (Suc k) word) (erase_child (word ! k)) ?t"
  have "filter (\<lambda>d. \<not> meta_matches cat user d) (metadata n) = []"
    using assms(4) by (simp add: list_all_iff filter_empty_conv)
  then have gone: "remove_metadata cat user n = TrieNode False [] []"
    using assms(3) by (simp add: remove_metadata_def Let_def)
  have "descend ?t (take (Suc (Suc k)) word) = Some (TrieNode False [] [])"
    using assms(1,5) by (simp add: descend_modify gone)
  then have "deleteWord word cat user (built ops) = cleanup word (Suc k) ?t1"
    using assms(1,2,5) by (simp add: deleteWord_def)
  moreover have "search_word ?t1 w = []"
    using assms(6) by (simp add: search_erase)
  ultimately show ?thesis
    using search_cleanup [of "Suc k" word ?t1 w] assms(5) by (auto simp del: cleanup.simps)
qed

theorem delete_loses_words_witness:
  "search_word (built fruit) ''apple'' \<noteq> [] \<and>
   search_word (deleteWord ''ape'' [] [] (built fruit)) ''apple'' = []"
proof
  show "search_word (built fruit) ''apple'' \<noteq> []" by code_simp
  let ?n = "TrieNode True [\<lparr>category = ''animal'', userData = ''x''\<rparr>] []"
  have d: "descend (built fruit) ''ape'' = Some ?n" by code_simp
  show "search_word (deleteWord ''ape'' [] [] (built fruit)) ''apple'' = []"
    by (rule delete_loses_words [OF d, where k = 1]) (simp_all add: meta_matches_def)
qed

end
