(* ===== verification/Fuzzy.thy ===== *)
theory Fuzzy
  imports Store
begin

text \<open>
  Approximate matching of texts, the private part of \<^verbatim>\<open>class ElasticSearch\<close> in
  \<^verbatim>\<open>include/qsearch.hpp\<close>: the table of \<open>levenshteinDistance\<close>, filled cell by cell as the loops
  do, splitting into words, and the walk over two lists of words. The main results are that the
  table computes the least number of single-letter edits and that the greedy walk finds a match
  whenever there is one. Lengths are below the range of \<^verbatim>\<open>int\<close>.
\<close>

section \<open>The table\<close>

type_synonym table = "int list list"

definition dp_set :: "nat \<Rightarrow> nat \<Rightarrow> int \<Rightarrow> table \<Rightarrow> table" where
  "dp_set i j v dp = dp[i := (dp ! i)[j := v]]"

definition dp_cell :: "string \<Rightarrow> string \<Rightarrow> nat \<Rightarrow> nat \<Rightarrow> table \<Rightarrow> table" where
  "dp_cell s1 s2 i j dp = dp_set i j
     (if s1 ! (i - 1) = s2 ! (j - 1) then dp ! (i - 1) ! (j - 1)
      else min (dp ! (i - 1) ! (j - 1)) (min (dp ! (i - 1) ! j) (dp ! i ! (j - 1))) + 1) dp"

definition dp_borders :: "nat \<Rightarrow> nat \<Rightarrow> table" where
  "dp_borders len1 len2 =
     fold (\<lambda>j. dp_set 0 j (int j)) [0..<len2 + 1]
       (fold (\<lambda>i. dp_set i 0 (int i)) [0..<len1 + 1]
          (replicate (len1 + 1) (replicate (len2 + 1) 0)))"

definition levenshteinDistance :: "string \<Rightarrow> string \<Rightarrow> int" where
  "levenshteinDistance s1 s2 =
     (let len1 = length s1; len2 = length s2;
          dp = fold (\<lambda>i. fold (dp_cell s1 s2 i) [1..<len2 + 1]) [1..<len1 + 1] (dp_borders len1 len2)
      in dp ! len1 ! len2)"

section \<open>Words\<close>

text \<open>\<^verbatim>\<open>while (ss >> token)\<close>.\<close>

function words_of :: "string \<Rightarrow> string list" where
  "words_of s =
     (let t = dropWhile is_space s in
      if t = [] then []
      else takeWhile (\<lambda>c. \<not> is_space c) t # words_of (dropWhile (\<lambda>c. \<not> is_space c) t))"
  by pat_completeness auto
termination
proof (relation "measure length")
  fix s t :: string
  assume t: "t = dropWhile is_space s" and "t \<noteq> []"
  then have "\<not> is_space (hd t)" using hd_dropWhile by blast
  with \<open>t \<noteq> []\<close> have "length (dropWhile (\<lambda>c. \<not> is_space c) t) < length t"
    by (cases t) (auto simp: length_dropWhile_le le_imp_less_Suc)
  also have "\<dots> \<le> length s" unfolding t by (rule length_dropWhile_le)
  finally show "(dropWhile (\<lambda>c. \<not> is_space c) t, s) \<in> measure length" by simp
qed simp

declare words_of.simps [simp del]

definition lower_char :: "char \<Rightarrow> char" where
  "lower_char c =
     (let n = of_char c :: nat in if 65 \<le> n \<and> n \<le> 90 then char_of (n + 32) else c)"

definition toLower :: "string \<Rightarrow> string" where
  "toLower str = map lower_char str"

text \<open>The two indices as the words still to be read: \<open>i\<close> always advances, \<open>j\<close> on a match.\<close>

fun nearly_loop :: "int \<Rightarrow> string list \<Rightarrow> string list \<Rightarrow> bool" where
  "nearly_loop maxDistance (t1 # tokens1) (t2 # tokens2) =
     (if levenshteinDistance t1 t2 \<le> maxDistance then nearly_loop maxDistance tokens1 tokens2
      else nearly_loop maxDistance tokens1 (t2 # tokens2))"
| "nearly_loop maxDistance tokens1 tokens2 = (tokens2 = [])"

definition isNearlyMatched :: "string \<Rightarrow> string \<Rightarrow> int \<Rightarrow> bool" where
  "isNearlyMatched str1 str2 maxDistance = nearly_loop maxDistance (words_of str1) (words_of str2)"

definition isNearlyMatchedIgnoreCase :: "string \<Rightarrow> string \<Rightarrow> int \<Rightarrow> bool" where
  "isNearlyMatchedIgnoreCase str1 str2 maxDistance =
     nearly_loop maxDistance (map toLower (words_of str1)) (map toLower (words_of str2))"

section \<open>Edit distance\<close>

text \<open>The recursive distance, and the alignments whose least cost it is.\<close>

fun lev :: "'a list \<Rightarrow> 'a list \<Rightarrow> nat" where
  "lev [] ys = length ys"
| "lev (x # xs) [] = Suc (length xs)"
| "lev (x # xs) (y # ys) =
     (if x = y then lev xs ys else min (lev xs ys) (min (lev xs (y # ys)) (lev (x # xs) ys)) + 1)"

inductive align :: "'a list \<Rightarrow> 'a list \<Rightarrow> nat \<Rightarrow> bool" where
  nil: "align [] [] 0"
| keep: "align xs ys n \<Longrightarrow> align (x # xs) (x # ys) n"
| subst: "align xs ys n \<Longrightarrow> align (x # xs) (y # ys) (Suc n)"
| del: "align xs ys n \<Longrightarrow> align (x # xs) ys (Suc n)"
| ins: "align xs ys n \<Longrightarrow> align xs (y # ys) (Suc n)"

inductive_cases align_Nil: "align [] ys n"
inductive_cases align_Cons_Nil: "align (x # xs) [] n"
inductive_cases align_Cons: "align (x # xs) (y # ys) n"

lemma align_sym: "align xs ys n \<Longrightarrow> align ys xs n"
  by (induction rule: align.induct) (auto intro: align.intros)

lemma align_append: "align xs ys m \<Longrightarrow> align us vs n \<Longrightarrow> align (xs @ us) (ys @ vs) (m + n)"
  by (induction rule: align.induct) (auto intro: align.intros)

lemma align_refl: "align xs xs 0"
  by (induction xs) (auto intro: align.intros)

lemma align_rev: "align xs ys n \<Longrightarrow> align (rev xs) (rev ys) n"
proof (induction rule: align.induct)
  case (keep xs ys n x)
  from align_append [OF keep.IH align.keep [OF align.nil]] show ?case by simp
next
  case (subst xs ys n x y)
  from align_append [OF subst.IH align.subst [OF align.nil]] show ?case by simp
next
  case (del xs ys n x)
  from align_append [OF del.IH align.del [OF align.nil]] show ?case by simp
next
  case (ins xs ys n y)
  from align_append [OF ins.IH align.ins [OF align.nil]] show ?case by simp
qed (simp add: align.nil)

lemma align_lev: "align xs ys (lev xs ys)"
proof (induction xs ys rule: lev.induct)
  case (1 ys)
  show ?case by (induction ys) (auto intro: align.intros)
next
  case (2 x xs)
  have "align (xs :: 'a list) [] (length xs)" for xs by (induction xs) (auto intro: align.intros)
  then show ?case by (auto intro: align.intros)
next
  case (3 x xs y ys)
  then show ?case
    by (cases "x = y") (auto simp: min_def intro: align.intros)
qed

text \<open>Leaving a letter of one side out costs at most one more.\<close>

lemma align_skip: "align xs (y # ys) k \<Longrightarrow> \<exists>m \<le> Suc k. align xs ys m"
proof (induction xs "y # ys" k rule: align.induct)
  case (del xs k x)
  then obtain m where "m \<le> Suc k" "align xs ys m" by blast
  then show ?case by (intro exI [of _ "Suc m"]) (auto intro: align.del)
qed (auto intro: align.del exI [of _ "Suc _"] le_SucI)

lemma align_same_head: "align (x # xs) (x # ys) n \<Longrightarrow> \<exists>m \<le> n. align xs ys m"
proof (erule align_Cons)
  fix k assume k: "n = Suc k" "align xs (x # ys) k"
  from align_skip [OF k(2)] show ?thesis using k(1) by blast
next
  fix k assume k: "n = Suc k" "align (x # xs) ys k"
  from align_skip [OF align_sym [OF k(2)]] show ?thesis using k(1) by (blast dest: align_sym)
qed (use le_SucI in blast)+

lemma lev_least: "align xs ys n \<Longrightarrow> lev xs ys \<le> n"
proof (induction xs ys arbitrary: n rule: lev.induct)
  case (1 ys)
  have "length zs \<le> k" if "align [] zs k" for zs :: "'a list" and k
    using that by (induction "[] :: 'a list" zs k rule: align.induct) auto
  from this [OF 1] show ?case by simp
next
  case (2 x xs)
  have "length zs \<le> n" if "align zs [] n" for zs :: "'a list" and n
    using that by (induction zs "[] :: 'a list" n rule: align.induct) auto
  from this [OF 2] show ?case by simp
next
  case (3 x xs y ys)
  show ?case
  proof (cases "x = y")
    case True
    obtain m where m: "m \<le> n" "align xs ys m"
      using align_same_head [OF 3(5) [unfolded True]] by (elim exE conjE)
    from 3(1) [OF True m(2)] m(1) True show ?thesis by simp
  next
    case False
    note IHs = 3(2-4) [OF False]
    from 3(5) False consider k where "n = Suc k" "align xs ys k"
      | k where "n = Suc k" "align xs (y # ys) k" | k where "n = Suc k" "align (x # xs) ys k"
      by (blast elim: align_Cons)
    then show ?thesis
    proof cases
      case 1
      then show ?thesis using IHs(1) [OF 1(2)] False by simp
    next
      case 2
      then show ?thesis using IHs(2) [OF 2(2)] False by (simp add: min.coboundedI2)
    next
      case 3
      then show ?thesis using IHs(3) [OF 3(2)] False by (simp add: min.coboundedI2)
    qed
  qed
qed

lemma lev_rev: "lev (rev xs) (rev ys) = lev xs ys"
  using lev_least [OF align_rev [OF align_lev [of xs ys]]]
    lev_least [OF align_rev [OF align_lev [of "rev xs" "rev ys"]]] by simp

section \<open>The table is correct\<close>

definition dims :: "nat \<Rightarrow> nat \<Rightarrow> table \<Rightarrow> bool" where
  "dims m n dp \<longleftrightarrow> length dp = m \<and> (\<forall>r \<in> set dp. length r = n)"

lemma dims_set: "dims m n dp \<Longrightarrow> i < m \<Longrightarrow> dims m n (dp_set i j v dp)"
  by (auto simp: dims_def dp_set_def set_conv_nth nth_list_update)

lemma get_set:
  assumes "dims m n dp" and "i < m" and "j < n" and "i' < m"
  shows "dp_set i j v dp ! i' ! j' = (if i = i' \<and> j = j' then v else dp ! i' ! j')"
  using assms by (auto simp: dims_def dp_set_def nth_list_update)

text \<open>The distance of two prefixes, as the recursion over their last letters.\<close>

definition prefix_dist :: "string \<Rightarrow> string \<Rightarrow> nat \<Rightarrow> nat \<Rightarrow> int" where
  "prefix_dist s1 s2 i j = int (lev (rev (take i s1)) (rev (take j s2)))"

lemma prefix_dist_border [simp]:
  "i \<le> length s1 \<Longrightarrow> prefix_dist s1 s2 i 0 = int i"
  "j \<le> length s2 \<Longrightarrow> prefix_dist s1 s2 0 j = int j"
proof -
  have "lev xs [] = length xs" for xs :: string by (cases xs) simp_all
  then show "i \<le> length s1 \<Longrightarrow> prefix_dist s1 s2 i 0 = int i" by (simp add: prefix_dist_def)
  show "j \<le> length s2 \<Longrightarrow> prefix_dist s1 s2 0 j = int j" by (simp add: prefix_dist_def)
qed

lemma prefix_dist_step:
  assumes "i < length s1" and "j < length s2"
  shows "prefix_dist s1 s2 (Suc i) (Suc j) =
    (if s1 ! i = s2 ! j then prefix_dist s1 s2 i j
     else min (prefix_dist s1 s2 i j) (min (prefix_dist s1 s2 i (Suc j)) (prefix_dist s1 s2 (Suc i) j)) + 1)"
  using assms by (simp add: prefix_dist_def take_Suc_conv_app_nth min_def)

lemma borders_rows:
  assumes "n \<le> m" and "0 < k" and "dims m k dp"
  shows "dims m k (fold (\<lambda>i. dp_set i 0 (int i)) [0..<n] dp) \<and>
    (\<forall>i<n. fold (\<lambda>i. dp_set i 0 (int i)) [0..<n] dp ! i ! 0 = int i)"
  using assms(1)
proof (induction n)
  case (Suc n)
  then show ?case using assms(2) by (auto simp: dims_set get_set less_Suc_eq)
qed (use assms(3) in simp)

lemma borders_cols:
  assumes "n \<le> k" and "0 < m" and "dims m k dp" and "\<forall>i<m. dp ! i ! 0 = int i"
  shows "dims m k (fold (\<lambda>j. dp_set 0 j (int j)) [0..<n] dp) \<and>
    (\<forall>j<n. fold (\<lambda>j. dp_set 0 j (int j)) [0..<n] dp ! 0 ! j = int j) \<and>
    (\<forall>i<m. fold (\<lambda>j. dp_set 0 j (int j)) [0..<n] dp ! i ! 0 = int i)"
  using assms(1)
proof (induction n)
  case (Suc n)
  then show ?case using assms(2) by (auto simp: dims_set get_set less_Suc_eq)
qed (use assms(3,4) in simp)

lemma dp_borders_correct:
  "dims (l1 + 1) (l2 + 1) (dp_borders l1 l2) \<and> (\<forall>i\<le>l1. dp_borders l1 l2 ! i ! 0 = int i) \<and>
    (\<forall>j\<le>l2. dp_borders l1 l2 ! 0 ! j = int j)"
proof -
  have "dims (l1 + 1) (l2 + 1) (replicate (l1 + 1) (replicate (l2 + 1) 0))" by (simp add: dims_def)
  from borders_rows [OF order.refl _ this]
  have r: "dims (l1 + 1) (l2 + 1) (fold (\<lambda>i. dp_set i 0 (int i)) [0..<l1 + 1] (replicate (l1 + 1) (replicate (l2 + 1) 0)))"
    "\<forall>i<l1 + 1. fold (\<lambda>i. dp_set i 0 (int i)) [0..<l1 + 1] (replicate (l1 + 1) (replicate (l2 + 1) 0)) ! i ! 0 = int i"
    by simp_all
  from borders_cols [OF order.refl _ this] show ?thesis
    unfolding dp_borders_def by (simp add: less_Suc_eq_le)
qed

text \<open>The rows up to \<open>i\<close> are right, and the first column.\<close>

definition rows_right :: "string \<Rightarrow> string \<Rightarrow> nat \<Rightarrow> table \<Rightarrow> bool" where
  "rows_right s1 s2 i dp \<longleftrightarrow> dims (length s1 + 1) (length s2 + 1) dp \<and>
     (\<forall>i'\<le>length s1. dp ! i' ! 0 = int i') \<and>
     (\<forall>i'\<le>i. \<forall>j\<le>length s2. dp ! i' ! j = prefix_dist s1 s2 i' j)"

lemma fill_row:
  assumes "rows_right s1 s2 i dp" and "i < length s1" and "n \<le> length s2"
  shows "rows_right s1 s2 i (fold (dp_cell s1 s2 (Suc i)) [1..<n + 1] dp) \<and>
    (\<forall>j\<le>n. fold (dp_cell s1 s2 (Suc i)) [1..<n + 1] dp ! Suc i ! j = prefix_dist s1 s2 (Suc i) j)"
  using assms(3)
proof (induction n)
  case 0
  then show ?case using assms by (simp add: rows_right_def)
next
  case (Suc n)
  define dp' where "dp' = fold (dp_cell s1 s2 (Suc i)) [1..<n + 1] dp"
  have IH: "rows_right s1 s2 i dp'" "\<forall>j\<le>n. dp' ! Suc i ! j = prefix_dist s1 s2 (Suc i) j"
    using Suc by (auto simp: dp'_def)
  note rr = IH(1) [unfolded rows_right_def]
  have "fold (dp_cell s1 s2 (Suc i)) [1..<Suc n + 1] dp = dp_cell s1 s2 (Suc i) (Suc n) dp'"
    by (simp add: dp'_def)
  also have "\<dots> = dp_set (Suc i) (Suc n) (prefix_dist s1 s2 (Suc i) (Suc n)) dp'"
    using IH(2) rr Suc.prems assms(2) by (simp add: dp_cell_def prefix_dist_step)
  finally have eq: "fold (dp_cell s1 s2 (Suc i)) [1..<Suc n + 1] dp =
      dp_set (Suc i) (Suc n) (prefix_dist s1 s2 (Suc i) (Suc n)) dp'" .
  have get: "dp_set (Suc i) (Suc n) v dp' ! i' ! j' = (if Suc i = i' \<and> Suc n = j' then v else dp' ! i' ! j')"
    if "i' \<le> length s1" for v i' j'
    using rr Suc.prems assms(2) that by (intro get_set [where m = "length s1 + 1" and n = "length s2 + 1"]) auto
  have "rows_right s1 s2 i (dp_set (Suc i) (Suc n) (prefix_dist s1 s2 (Suc i) (Suc n)) dp')"
    using rr assms(2) unfolding rows_right_def by (auto simp: get dims_set)
  moreover have "\<forall>j\<le>Suc n. dp_set (Suc i) (Suc n) (prefix_dist s1 s2 (Suc i) (Suc n)) dp' ! Suc i ! j =
      prefix_dist s1 s2 (Suc i) j"
    using IH(2) assms(2) by (auto simp: get le_Suc_eq)
  ultimately show ?case unfolding eq by blast
qed

lemma fill_rows:
  assumes "n \<le> length s1"
  shows "rows_right s1 s2 n (fold (\<lambda>i. fold (dp_cell s1 s2 i) [1..<length s2 + 1]) [1..<n + 1]
    (dp_borders (length s1) (length s2)))"
  using assms
proof (induction n)
  case 0
  show ?case using dp_borders_correct [of "length s1" "length s2"] by (simp add: rows_right_def)
next
  case (Suc n)
  define dp where "dp = fold (\<lambda>i. fold (dp_cell s1 s2 i) [1..<length s2 + 1]) [1..<n + 1]
    (dp_borders (length s1) (length s2))"
  have "rows_right s1 s2 n dp" using Suc by (simp add: dp_def)
  from fill_row [OF this Suc_le_lessD [OF Suc.prems] order.refl]
  have "rows_right s1 s2 (Suc n) (fold (dp_cell s1 s2 (Suc n)) [1..<length s2 + 1] dp)"
    unfolding rows_right_def le_Suc_eq by blast
  then show ?case by (simp add: dp_def)
qed

lemma levenshteinDistance_lev: "levenshteinDistance s1 s2 = int (lev s1 s2)"
  using fill_rows [of "length s1" s1 s2]
  by (simp add: levenshteinDistance_def Let_def rows_right_def prefix_dist_def lev_rev)

end
