(* ===== verification/Elastic.thy ===== *)
theory Elastic
  imports Fuzzy Numbers
begin

text \<open>
  The document index of \<^verbatim>\<open>include/qsearch.hpp\<close>, \<^verbatim>\<open>class ElasticSearch\<close>: a JSON value that holds,
  for every tenant, each index as a list of documents under its name and the number of documents
  under the name with \<open>_size\<close> appended. An operation returns a result or an exception and the
  changed value; reading a member creates it, as \<^verbatim>\<open>operator[]\<close> does. \<open>persistIndex\<close>, which
  copies the printed value to a memory-mapped file, is in \<open>Elastic_File\<close>.
\<close>

section \<open>Lists in a writable value\<close>

text \<open>\<^verbatim>\<open>operator[](unsigned)\<close>: any other value becomes an empty list, a short list is extended by
  nulls.\<close>

definition w_elems :: "wvalue \<Rightarrow> wvalue list" where
  "w_elems w = (case w of WList ws \<Rightarrow> ws | _ \<Rightarrow> [])"

definition w_extend :: "nat \<Rightarrow> wvalue \<Rightarrow> wvalue list" where
  "w_extend i w = w_elems w @ replicate (Suc i - length (w_elems w)) WNull"

definition w_list_set :: "nat \<Rightarrow> wvalue \<Rightarrow> wvalue \<Rightarrow> wvalue" where
  "w_list_set i v w = WList ((w_extend i w)[i := v])"

text \<open>What a move leaves behind: the type tag and the number stay, the contents are gone.\<close>

fun w_moved :: "wvalue \<Rightarrow> wvalue" where
  "w_moved (WString s) = WString []"
| "w_moved (WList ws) = WList []"
| "w_moved (WObject m) = WObject []"
| "w_moved w = w"

section \<open>Loading\<close>

definition load_index :: "lib \<Rightarrow> string \<Rightarrow> wvalue res" where
  "load_index L file =
     (let data = (if file = [] then replicate 4096 NUL else file) in
      if hd data \<noteq> NUL then wvalue_of L (load data) else Inr WNull)"

section \<open>Documents\<close>

type_synonym 'a index_op = "wvalue \<Rightarrow> 'a res \<times> wvalue"

definition size_key :: "string \<Rightarrow> string" where
  "size_key name = name @ ''_size''"

text \<open>\<^verbatim>\<open>std::stoi(crow::json::dump(index[tenant][name + "_size"]))\<close>, which creates the member.\<close>

definition read_size :: "lib \<Rightarrow> string \<Rightarrow> string \<Rightarrow> int index_op" where
  "read_size L tenant name idx =
     (let t = w_get idx tenant; n = w_get t (size_key name) in
      (stoi (dump_json L n), w_set idx tenant (w_set t (size_key name) n)))"

text \<open>A negative counter makes \<^verbatim>\<open>w[size]\<close> write outside the list.\<close>

definition indexDocument :: "lib \<Rightarrow> string \<Rightarrow> string \<Rightarrow> wvalue \<Rightarrow> unit index_op" where
  "indexDocument L tenant name doc idx =
     (let t = w_get idx tenant; idx0 = w_set idx tenant t in
      if w_count t name then
        (case read_size L tenant name idx0 of
           (Inl e, idx1) \<Rightarrow> (Inl e, idx1)
         | (Inr n, idx1) \<Rightarrow>
             if n < 0 then (Inl Undefined, idx1)
             else
               (let t1 = w_get idx1 tenant;
                    w = w_list_set (nat n) doc (w_get t1 name) in
                (Inr (), w_set idx1 tenant
                   (w_set (w_set t1 name w) (size_key name) (WNumber (double_of_int (wrap32 (n + 1))))))))
      else
        (Inr (), w_set idx0 tenant
           (w_set (w_set t name (w_list_set 0 doc (WList []))) (size_key name) (WNumber (double_of_int 1)))))"

definition clearIndex :: "string \<Rightarrow> string \<Rightarrow> bool index_op" where
  "clearIndex tenant name idx =
     (let t = w_get idx tenant in
      if w_count t name then
        (Inr True, w_set idx tenant
           (w_set (w_set t name (WList [])) (size_key name) (WNumber (double_of_int 0))))
      else (Inr False, w_set idx tenant t))"

text \<open>The number of conditions a document meets; \<open>text\<close> reads a member as text.\<close>

fun match_count ::
    "(string \<Rightarrow> string option res) \<Rightarrow> int \<Rightarrow> bool \<Rightarrow> (string \<times> string) list \<Rightarrow> nat \<Rightarrow> nat res" where
  "match_count txt fuzziness ignoreCase [] n = Inr n"
| "match_count txt fuzziness ignoreCase ((key, query) # conditions) n =
     res_bind (txt key) (\<lambda>v. case v of
        None \<Rightarrow> match_count txt fuzziness ignoreCase conditions n
      | Some value \<Rightarrow>
          match_count txt fuzziness ignoreCase conditions
            (if (if \<not> ignoreCase then isNearlyMatched value query fuzziness
                 else isNearlyMatchedIgnoreCase value query fuzziness) then n + 1 else n))"

definition selects :: "bool \<Rightarrow> (string \<times> string) list \<Rightarrow> nat \<Rightarrow> bool" where
  "selects must conditions n = ((must \<and> n = length conditions) \<or> (\<not> must \<and> n > 0))"

text \<open>In an update the text of a member is its printed form, so a string keeps its quotes.\<close>

definition printed_member :: "lib \<Rightarrow> wvalue \<Rightarrow> string \<Rightarrow> string option res" where
  "printed_member L doc key = Inr (if w_count doc key then Some (dump_json L (w_get doc key)) else None)"

text \<open>
  The update loop from position \<open>i\<close>: \<open>n\<close> documents remain. The new document is moved into the
  first match; later matches get what the move left behind.
\<close>

fun update_loop ::
    "lib \<Rightarrow> (string \<times> string) list \<Rightarrow> int \<Rightarrow> bool \<Rightarrow> bool \<Rightarrow> nat \<Rightarrow> nat \<Rightarrow> wvalue \<Rightarrow> wvalue \<Rightarrow> int \<Rightarrow>
     (int \<times> wvalue) res" where
  "update_loop L conditions fuzziness must ignoreCase i 0 docs newDoc ret = Inr (ret, docs)"
| "update_loop L conditions fuzziness must ignoreCase i (Suc n) docs newDoc ret =
     (let ds = w_extend i docs in
      res_bind (match_count (printed_member L (ds ! i)) fuzziness ignoreCase conditions 0) (\<lambda>m.
        if selects must conditions m
        then update_loop L conditions fuzziness must ignoreCase (Suc i) n (WList (ds[i := newDoc]))
               (w_moved newDoc) (ret + 1)
        else update_loop L conditions fuzziness must ignoreCase (Suc i) n (WList ds) newDoc ret))"

definition updateDocument ::
    "lib \<Rightarrow> string \<Rightarrow> string \<Rightarrow> wvalue \<Rightarrow> (string \<times> string) list \<Rightarrow> int \<Rightarrow> bool \<Rightarrow> bool \<Rightarrow> int index_op" where
  "updateDocument L tenant name newDoc conditions fuzziness must ignoreCase idx =
     (if \<not> w_count idx tenant then (Inr 0, idx)
      else if \<not> w_count (w_get idx tenant) name then (Inr 0, idx)
      else
        (case read_size L tenant name idx of
           (Inl e, idx1) \<Rightarrow> (Inl e, idx1)
         | (Inr n, idx1) \<Rightarrow>
             if n < 1 then (Inr 0, idx1)
             else
               (let t1 = w_get idx1 tenant in
                case update_loop L conditions fuzziness must ignoreCase 0 (nat n) (w_get t1 name) newDoc 0 of
                  Inl e \<Rightarrow> (Inl e, idx1)
                | Inr (ret, docs) \<Rightarrow> (Inr ret, w_set idx1 tenant (w_set t1 name docs)))))"

definition deleteDocument ::
    "lib \<Rightarrow> string \<Rightarrow> string \<Rightarrow> (string \<times> string) list \<Rightarrow> int \<Rightarrow> bool \<Rightarrow> bool \<Rightarrow> int index_op" where
  "deleteDocument L tenant name conditions fuzziness must ignoreCase =
     updateDocument L tenant name (WObject []) conditions fuzziness must ignoreCase"

section \<open>Search\<close>

text \<open>In a search a member must be a string; any other one, or a document that is no object,
  throws.\<close>

definition string_member :: "rvalue \<Rightarrow> string \<Rightarrow> string option res" where
  "string_member doc key =
     res_bind (r_has doc key) (\<lambda>has.
       if has then res_bind (res_bind (r_get doc key) r_s) (\<lambda>s. Inr (Some s)) else Inr None)"

fun search_docs ::
    "lib \<Rightarrow> (string \<times> string) list \<Rightarrow> int \<Rightarrow> bool \<Rightarrow> bool \<Rightarrow> (string \<times> rvalue) list \<Rightarrow> wvalue list \<Rightarrow>
     wvalue list res" where
  "search_docs L conditions fuzziness must ignoreCase [] results = Inr results"
| "search_docs L conditions fuzziness must ignoreCase ((u, d) # docs) results =
     (let doc = (if conditions = [] then d else sort_members d) in
      res_bind (match_count (string_member doc) fuzziness ignoreCase conditions 0) (\<lambda>m.
      res_bind (if selects must conditions m
                then res_bind (wvalue_of_rvalue L doc) (\<lambda>w. Inr (results @ [w])) else Inr results) (\<lambda>results'.
        search_docs L conditions fuzziness must ignoreCase docs results')))"

definition searchMultiple ::
    "lib \<Rightarrow> string \<Rightarrow> string \<Rightarrow> (string \<times> string) list \<Rightarrow> int \<Rightarrow> bool \<Rightarrow> bool \<Rightarrow> wvalue \<Rightarrow> wvalue list res" where
  "searchMultiple L tenant name conditions fuzziness must ignoreCase idx =
     (if \<not> w_count idx tenant then Inr []
      else if \<not> w_count (w_get idx tenant) name then Inr []
      else case load (dump_json L (w_get (w_get idx tenant) name)) of
          None \<Rightarrow> Inl RuntimeError
        | Some docs \<Rightarrow> res_bind (r_members docs) (\<lambda>ds.
            search_docs L conditions fuzziness must ignoreCase ds []))"

end
