(* ===== verification/Elastic_Props.thy ===== *)
theory Elastic_Props
  imports Elastic Store_Props
begin

text \<open>
  The document index: the counter kept beside each list is its length, indexing appends, and an
  update replaces the matching documents, though only the first by the new one.
\<close>

lemma size_key_ne [simp]: "size_key name \<noteq> name" "name \<noteq> size_key name"
  by (simp_all add: size_key_def)

lemma w_get_set [simp]: "w_get (w_set w k v) k' = (if k' = k then v else w_get w k')"
  by (auto simp: w_get_def w_set_def w_members_def update_conv)

lemma w_count_iff: "w_count w k \<longleftrightarrow> map_of (w_members w) k \<noteq> None"
  by (simp add: w_count_def map_of_eq_None_iff)

lemma w_count_set [simp]: "w_count (w_set w k v) k' \<longleftrightarrow> k' = k \<or> w_count w k'"
proof -
  have "w_members (w_set w k v) = AList.update k v (w_members w)"
    by (simp add: w_set_def w_members_def)
  then show ?thesis by (simp add: w_count_iff update_conv)
qed

section \<open>The counters\<close>

definition docs_of :: "wvalue \<Rightarrow> string \<Rightarrow> string \<Rightarrow> wvalue list" where
  "docs_of idx tenant name = w_elems (w_get (w_get idx tenant) name)"

definition counted :: "wvalue \<Rightarrow> string \<Rightarrow> string \<Rightarrow> bool" where
  "counted idx tenant name =
     (if w_count (w_get idx tenant) name then
        w_get (w_get idx tenant) name = WList (docs_of idx tenant name) \<and>
        w_get (w_get idx tenant) (size_key name) = WNumber (double_of_int (int (length (docs_of idx tenant name))))
      else True)"

lemma counted_size:
  assumes "counted idx tenant name" and "w_count (w_get idx tenant) name"
    and "int (length (docs_of idx tenant name)) \<le> INT_MAX"
  shows "read_size L tenant name idx = (Inr (int (length (docs_of idx tenant name))),
    w_set idx tenant (w_set (w_get idx tenant) (size_key name)
      (WNumber (double_of_int (int (length (docs_of idx tenant name)))))))"
  using assms by (simp add: read_size_def counted_def Let_def stoi_dump_int)

lemma w_list_set_append: "w_list_set (length ws) v (WList ws) = WList (ws @ [v])"
  by (simp add: w_list_set_def w_extend_def w_elems_def list_update_append)

lemma docs_of_absent: "\<not> w_count (w_get idx tenant) name \<Longrightarrow> docs_of idx tenant name = []"
  by (simp add: w_count_iff docs_of_def w_get_def [of _ name] w_elems_def)

lemma counted_set:
  assumes "w_get t name = WList ws" and "w_get t (size_key name) = WNumber (double_of_int (int (length ws)))"
  shows "counted (w_set idx tenant t) tenant name" and "docs_of (w_set idx tenant t) tenant name = ws"
  using assms by (simp_all add: counted_def docs_of_def w_elems_def)

text \<open>The tenant's member after a document was indexed.\<close>

lemma indexDocument_counted:
  assumes "counted idx tenant name" and "int (length (docs_of idx tenant name)) < INT_MAX"
  shows "\<exists>idx0 t0. indexDocument L tenant name doc idx =
      (Inr (), w_set idx0 tenant (w_set (w_set t0 name (WList (docs_of idx tenant name @ [doc])))
         (size_key name) (WNumber (double_of_int (int (length (docs_of idx tenant name @ [doc]))))))) \<and>
    (\<forall>k. k \<noteq> tenant \<longrightarrow> w_get idx0 k = w_get idx k) \<and>
    (\<forall>k. k \<noteq> size_key name \<longrightarrow> w_get t0 k = w_get (w_get idx tenant) k)"
proof (cases "w_count (w_get idx tenant) name")
  case True
  let ?t = "w_get idx tenant" and ?n = "int (length (docs_of idx tenant name))"
  let ?idx0 = "w_set idx tenant ?t" and ?size = "WNumber (double_of_int (int (length (docs_of idx tenant name))))"
  have l: "w_get ?t name = WList (docs_of idx tenant name)" and sz: "w_get ?t (size_key name) = ?size"
    using assms(1) True by (simp_all add: counted_def)
  have w: "wrap32 (1 + ?n) = 1 + ?n"
    using assms(2) by (intro wrap32_id) (auto simp: INT_MIN_def)
  have "read_size L tenant name ?idx0 = (Inr ?n, w_set ?idx0 tenant (w_set ?t (size_key name) ?size))"
    using stoi_dump_int [of ?n L] assms(2) by (simp add: read_size_def sz Let_def)
  then have eq: "indexDocument L tenant name doc idx = (Inr (),
      w_set (w_set ?idx0 tenant (w_set ?t (size_key name) ?size)) tenant
        (w_set (w_set (w_set ?t (size_key name) ?size) name (WList (docs_of idx tenant name @ [doc])))
           (size_key name) (WNumber (double_of_int (int (length (docs_of idx tenant name @ [doc])))))))"
    using True by (simp add: indexDocument_def Let_def l w w_list_set_append add.commute)
  show ?thesis by (intro exI conjI, rule eq) simp_all
next
  case False
  have eq: "indexDocument L tenant name doc idx = (Inr (),
      w_set (w_set idx tenant (w_get idx tenant)) tenant
        (w_set (w_set (w_get idx tenant) name (WList (docs_of idx tenant name @ [doc])))
           (size_key name) (WNumber (double_of_int (int (length (docs_of idx tenant name @ [doc])))))))"
    using False w_list_set_append [of "[]" doc] docs_of_absent [OF False]
    by (simp add: indexDocument_def Let_def)
  show ?thesis by (intro exI conjI, rule eq) simp_all
qed

text \<open>Indexing a document appends it to its index and keeps the counter equal to the number of
  documents; all other members of the index value stay as they are.\<close>

theorem index_appends:
  assumes "counted idx tenant name" and "int (length (docs_of idx tenant name)) < INT_MAX"
  shows "\<exists>idx'. indexDocument L tenant name doc idx = (Inr (), idx') \<and>
    docs_of idx' tenant name = docs_of idx tenant name @ [doc] \<and> counted idx' tenant name \<and>
    (\<forall>tenant' name'. (tenant', name') \<notin> {(tenant, name), (tenant, size_key name)} \<longrightarrow>
       w_get (w_get idx' tenant') name' = w_get (w_get idx tenant') name')"
proof -
  obtain idx0 t0 where i: "indexDocument L tenant name doc idx =
      (Inr (), w_set idx0 tenant (w_set (w_set t0 name (WList (docs_of idx tenant name @ [doc])))
         (size_key name) (WNumber (double_of_int (int (length (docs_of idx tenant name @ [doc])))))))"
    and idx0: "\<And>k. k \<noteq> tenant \<Longrightarrow> w_get idx0 k = w_get idx k"
    and t0: "\<And>k. k \<noteq> size_key name \<Longrightarrow> w_get t0 k = w_get (w_get idx tenant) k"
    using indexDocument_counted [OF assms, of L doc] by metis
  show ?thesis
    by (intro exI conjI allI impI, rule i, rule counted_set(2), simp, simp, rule counted_set(1), simp, simp)
      (auto simp: idx0 t0)
qed

theorem index_appends_witness:
  "\<exists>idx'. indexDocument mem_lib ''app'' ''notes'' WTrue WNull = (Inr (), idx') \<and>
    docs_of idx' ''app'' ''notes'' = [WTrue]"
proof -
  have "counted WNull ''app'' ''notes''" and d: "docs_of WNull ''app'' ''notes'' = []" by code_simp+
  moreover have "int (length (docs_of WNull ''app'' ''notes'')) < INT_MAX" by (simp add: d INT_MAX_def)
  ultimately show ?thesis
    using index_appends [of WNull "''app''" "''notes''" mem_lib WTrue] by auto
qed

section \<open>Updates\<close>

definition meets :: "lib \<Rightarrow> int \<Rightarrow> bool \<Rightarrow> wvalue \<Rightarrow> string \<times> string \<Rightarrow> bool" where
  "meets L fuzziness ignoreCase doc c =
     (w_count doc (fst c) \<and>
      (if \<not> ignoreCase then isNearlyMatched (dump_json L (w_get doc (fst c))) (snd c) fuzziness
       else isNearlyMatchedIgnoreCase (dump_json L (w_get doc (fst c))) (snd c) fuzziness))"

lemma match_count_meets:
  "match_count (printed_member L doc) fuzziness ignoreCase conditions n =
    Inr (n + length (filter (meets L fuzziness ignoreCase doc) conditions))"
  by (induction conditions arbitrary: n) (auto simp: printed_member_def meets_def)

definition chosen :: "lib \<Rightarrow> (string \<times> string) list \<Rightarrow> int \<Rightarrow> bool \<Rightarrow> bool \<Rightarrow> wvalue \<Rightarrow> bool" where
  "chosen L conditions fuzziness must ignoreCase doc =
     (if must then list_all (meets L fuzziness ignoreCase doc) conditions
      else list_ex (meets L fuzziness ignoreCase doc) conditions)"

lemma length_filter_all: "length (filter P xs) = length xs \<longleftrightarrow> list_all P xs"
proof
  assume "length (filter P xs) = length xs"
  then have "\<not> (\<exists>x \<in> set xs. \<not> P x)" using length_filter_less [of _ xs P] by auto
  then show "list_all P xs" by (simp add: list_all_iff)
qed (simp add: list_all_iff)

lemma selects_chosen:
  "selects must conditions (length (filter (meets L fuzziness ignoreCase doc) conditions)) \<longleftrightarrow>
    chosen L conditions fuzziness must ignoreCase doc"
  by (auto simp: selects_def chosen_def length_filter_all list_ex_iff filter_empty_conv)

text \<open>The list after an update: the first match is the new document, the others are what moving it
  leaves behind.\<close>

fun replaced :: "(wvalue \<Rightarrow> bool) \<Rightarrow> wvalue \<Rightarrow> wvalue list \<Rightarrow> wvalue list" where
  "replaced p new [] = []"
| "replaced p new (d # ds) = (if p d then new # replaced p (w_moved new) ds else d # replaced p new ds)"

lemma update_loop_replaced:
  "update_loop L conditions fuzziness must ignoreCase (length pre) (length ds) (WList (pre @ ds)) new ret =
    Inr (ret + int (length (filter (chosen L conditions fuzziness must ignoreCase) ds)),
         WList (pre @ replaced (chosen L conditions fuzziness must ignoreCase) new ds))"
proof (induction ds arbitrary: pre new ret)
  case (Cons d ds)
  have e: "w_extend (length pre) (WList (pre @ d # ds)) = pre @ d # ds"
    by (simp add: w_extend_def w_elems_def)
  show ?case
    using Cons [of "pre @ [d]" new ret] Cons [of "pre @ [new]" "w_moved new" "ret + 1"]
    by (simp add: Let_def e match_count_meets selects_chosen list_update_append)
qed simp

text \<open>C29: an update returns the number of matching documents; the first of them becomes the new
  document, every further one only what moving the new document leaves behind (an empty object
  for an object), and the others do not change, nor does any other member of the index value, the
  counter of the documents among them. A string is matched in its printed form, with its quotes.\<close>

theorem update_replaces:
  assumes "counted idx tenant name" and "w_count idx tenant" and "w_count (w_get idx tenant) name"
    and "int (length (docs_of idx tenant name)) \<le> INT_MAX"
  shows "\<exists>idx'. updateDocument L tenant name new conditions fuzziness must ignoreCase idx =
      (Inr (int (length (filter (chosen L conditions fuzziness must ignoreCase) (docs_of idx tenant name)))), idx') \<and>
    docs_of idx' tenant name =
      replaced (chosen L conditions fuzziness must ignoreCase) new (docs_of idx tenant name) \<and>
    (\<forall>tenant' name'. (tenant', name') \<noteq> (tenant, name) \<longrightarrow>
      w_get (w_get idx' tenant') name' = w_get (w_get idx tenant') name')"
proof -
  let ?ds = "docs_of idx tenant name" and ?t = "w_get idx tenant"
  let ?size = "WNumber (double_of_int (int (length ?ds)))"
  have l: "w_get ?t name = WList ?ds" and sz: "w_get ?t (size_key name) = ?size"
    using assms(1,3) by (simp_all add: counted_def)
  show ?thesis
  proof (cases "?ds = []")
    case True
    then show ?thesis
      using assms(2,3) counted_size [OF assms(1,3,4), of L] sz
      by (simp add: updateDocument_def docs_of_def l [unfolded True])
  next
    case False
    then have "\<not> int (length ?ds) < 1" by (simp add: Suc_le_eq)
    then have "updateDocument L tenant name new conditions fuzziness must ignoreCase idx =
        (Inr (int (length (filter (chosen L conditions fuzziness must ignoreCase) ?ds))),
         w_set (w_set idx tenant (w_set ?t (size_key name) ?size)) tenant
           (w_set (w_set ?t (size_key name) ?size) name
              (WList (replaced (chosen L conditions fuzziness must ignoreCase) new ?ds))))"
      using assms(2,3) counted_size [OF assms(1,3,4), of L]
        update_loop_replaced [of L conditions fuzziness must ignoreCase "[]" ?ds new 0]
      by (simp add: updateDocument_def Let_def l)
    then show ?thesis using sz by (simp add: docs_of_def w_elems_def)
  qed
qed

definition two_notes :: wvalue where
  "two_notes = (let d = w_set WNull ''t'' (WString ''x'') in
     snd (indexDocument mem_lib ''app'' ''notes'' d (snd (indexDocument mem_lib ''app'' ''notes'' d WNull))))"

theorem update_replaces_witness:
  "\<exists>idx'. updateDocument mem_lib ''app'' ''notes'' (w_set WNull ''t'' (WString ''y'')) [(''t'', ''x'')] 2 True False
       two_notes = (Inr 2, idx') \<and>
     docs_of idx' ''app'' ''notes'' = [w_set WNull ''t'' (WString ''y''), WObject []] \<and>
     (\<forall>tenant' name'. (tenant', name') \<noteq> (''app'', ''notes'') \<longrightarrow>
       w_get (w_get idx' tenant') name' = w_get (w_get two_notes tenant') name')"
proof -
  have c: "counted two_notes ''app'' ''notes''" "w_count two_notes ''app''"
    "w_count (w_get two_notes ''app'') ''notes''" by code_simp+
  have l: "int (length (docs_of two_notes ''app'' ''notes'')) \<le> INT_MAX" by code_simp
  have f: "int (length (filter (chosen mem_lib [(''t'', ''x'')] 2 True False) (docs_of two_notes ''app'' ''notes''))) = 2"
    by code_simp
  have r: "replaced (chosen mem_lib [(''t'', ''x'')] 2 True False) (w_set WNull ''t'' (WString ''y''))
      (docs_of two_notes ''app'' ''notes'') = [w_set WNull ''t'' (WString ''y''), WObject []]"
    by code_simp
  from update_replaces [OF c l, of mem_lib "w_set WNull ''t'' (WString ''y'')" "[(''t'', ''x'')]" 2 True False]
  show ?thesis unfolding f r .
qed

text \<open>The document and the conditions of the update the documentation shows: with no edits allowed the
  update matches nothing, because the quotes of the printed title and the case of its letters count,
  while a search with the same conditions finds the document as soon as case is ignored. With two
  edits the update finds it, too.\<close>

definition shown_note :: wvalue where
  "shown_note = WObject [(''content'', WString ''This is a test query document''),
     (''timestamp'', WString ''2025-02-24''), (''title'', WString ''Elasticsearch with C++'')]"

definition shown_conditions :: "(string \<times> string) list" where
  "shown_conditions = [(''title'', ''ElasticSearch''), (''content'', ''query'')]"

definition shown_index :: wvalue where
  "shown_index = snd (indexDocument mem_lib ''app1'' ''articles'' shown_note WNull)"

theorem shown_update_matches_nothing:
  "fst (updateDocument mem_lib ''app1'' ''articles'' WNull shown_conditions 0 True False shown_index) = Inr 0 \<and>
    fst (updateDocument mem_lib ''app1'' ''articles'' WNull shown_conditions 0 True True shown_index) = Inr 0 \<and>
    searchMultiple mem_lib ''app1'' ''articles'' shown_conditions 0 True True shown_index = Inr [shown_note] \<and>
    fst (updateDocument mem_lib ''app1'' ''articles'' WNull shown_conditions 2 True False shown_index) = Inr 1"
  by code_simp

text \<open>An index whose name is that of another with \<open>_size\<close> appended collides with its counter:
  indexing into it ends with an exception the handlers do not catch.\<close>

theorem counter_name_collides:
  "fst (indexDocument mem_lib ''app'' ''notes_size'' WTrue two_notes) = Inl InvalidArgument"
  by code_simp

end
