(* ===== verification/Search_Routes.thy ===== *)
theory Search_Routes
  imports Trie_Props Elastic_Props
begin

text \<open>
  The HTTP routes of the word index and the document index, \<^verbatim>\<open>QSearch::BuildHttpRoutes\<close> of
  \<^verbatim>\<open>src/qsearch.cpp\<close>. A handler gets a request and the two indices and returns the JSON reply, or
  the exception that leaves it, with the changed indices. A parameter \<open>body\<close> of the URL takes the
  place of the request body. Output to the console is left out.
\<close>

section \<open>Requests\<close>

record web_request =
  req_body :: string
  url_param :: "string \<Rightarrow> string option"

record search_state =
  words :: trie
  docs :: wvalue

type_synonym 'a search_op = "search_state \<Rightarrow> 'a res \<times> search_state"

definition body_of :: "web_request \<Rightarrow> string" where
  "body_of req = (case url_param req ''body'' of None \<Rightarrow> req_body req | Some b \<Rightarrow> b)"

definition error_reply :: "string \<Rightarrow> wvalue" where
  "error_reply msg = w_set WNull ''error'' (WString msg)"

definition with_body :: "web_request \<Rightarrow> (rvalue \<Rightarrow> wvalue search_op) \<Rightarrow> wvalue search_op" where
  "with_body req f s =
     (case load (body_of req) of
        None \<Rightarrow> (Inr (error_reply ''invalid parameters''), s)
      | Some x \<Rightarrow> f x s)"

definition string_of :: "rvalue \<Rightarrow> string \<Rightarrow> string res" where
  "string_of x k = res_bind (r_get x k) r_s"

text \<open>\<^verbatim>\<open>int maxEdits = x["maxedits"].d()\<close>.\<close>

definition max_edits :: "lib \<Rightarrow> rvalue \<Rightarrow> int res" where
  "max_edits L x = res_bind (res_bind (r_get x ''maxedits'') (r_d L)) double_to_int"

text \<open>The handler's \<^verbatim>\<open>catch (const std::runtime_error&)\<close>.\<close>

definition on_error :: "'a res \<Rightarrow> ('a \<Rightarrow> 'b res) \<Rightarrow> 'b \<Rightarrow> 'b res" where
  "on_error r ok failed =
     (case r of Inr a \<Rightarrow> ok a | Inl e \<Rightarrow> if e = RuntimeError then Inr failed else Inl e)"

section \<open>Word index\<close>

definition fuzzy_insert :: "web_request \<Rightarrow> wvalue search_op" where
  "fuzzy_insert req = with_body req (\<lambda>x s.
     case res_bind (string_of x ''word'') (\<lambda>w. res_bind (string_of x ''tag'') (\<lambda>t.
            res_bind (string_of x ''meta'') (\<lambda>m. Inr (w, t, m)))) of
       Inr (w, t, m) \<Rightarrow>
         (Inr (w_set WNull ''result'' WTrue), s\<lparr>words := insert_word w \<lparr>category = t, userData = m\<rparr> (words s)\<rparr>)
     | Inl e \<Rightarrow>
         if e = RuntimeError
         then (Inr (w_set (error_reply ''word/tag/meta missing or not properly formatted'') ''result'' WTrue), s)
         else (Inl e, s))"

definition hit_json :: "string \<times> word_data \<Rightarrow> wvalue" where
  "hit_json h = w_set (w_set (w_set WNull ''word'' (WString (fst h)))
     ''tag'' (WString (category (snd h)))) ''meta'' (WString (userData (snd h)))"

text \<open>A query: the hits as the result, or an error with an empty result.\<close>

definition hits_reply :: "string \<Rightarrow> hits res \<Rightarrow> wvalue res" where
  "hits_reply msg r = on_error r (\<lambda>hs. Inr (w_set WNull ''result'' (WList (map hit_json hs))))
     (w_set (error_reply msg) ''result'' (WList []))"

definition fuzzy_query :: "visit_order \<Rightarrow> lib \<Rightarrow> web_request \<Rightarrow> wvalue search_op" where
  "fuzzy_query ord L req = with_body req (\<lambda>x s.
     (hits_reply ''word/maxedits missing or not properly formatted''
        (res_bind (string_of x ''word'') (\<lambda>w. res_bind (max_edits L x) (\<lambda>m.
           Inr (fuzzySearch ord (words s) w m)))), s))"

definition fuzzy_match :: "web_request \<Rightarrow> wvalue search_op" where
  "fuzzy_match req = with_body req (\<lambda>x s.
     (hits_reply ''parameter 'word' missing''
        (res_bind (string_of x ''word'') (\<lambda>w. Inr (map (Pair w) (search_word (words s) w)))), s))"

definition fuzzy_prefix :: "visit_order \<Rightarrow> lib \<Rightarrow> web_request \<Rightarrow> wvalue search_op" where
  "fuzzy_prefix ord L req = with_body req (\<lambda>x s.
     (hits_reply ''word/maxedits missing or not properly formatted''
        (res_bind (string_of x ''word'') (\<lambda>w. res_bind (max_edits L x) (\<lambda>m.
           Inr (if m = -1 then searchByPrefix ord (words s) w else fuzzyPrefixSearch ord (words s) w m)))), s))"

definition fuzzy_substring :: "visit_order \<Rightarrow> web_request \<Rightarrow> wvalue search_op" where
  "fuzzy_substring ord req = with_body req (\<lambda>x s.
     (hits_reply ''word missing or not properly formatted''
        (res_bind (string_of x ''word'') (\<lambda>w. Inr (substringSearch ord (words s) w))), s))"

definition optional_string :: "rvalue \<Rightarrow> string \<Rightarrow> string res" where
  "optional_string x k = res_bind (r_has x k) (\<lambda>has. if has then string_of x k else Inr [])"

text \<open>A change of the index by parameters that may be missing.\<close>

definition change_words :: "string \<Rightarrow> (trie \<Rightarrow> trie) res \<Rightarrow> wvalue search_op" where
  "change_words msg r s =
     (case r of
        Inr f \<Rightarrow> (Inr (w_set WNull ''result'' WTrue), s\<lparr>words := f (words s)\<rparr>)
      | Inl e \<Rightarrow>
          if e = RuntimeError then (Inr (w_set (error_reply msg) ''result'' WFalse), s) else (Inl e, s))"

definition fuzzy_delete :: "web_request \<Rightarrow> wvalue search_op" where
  "fuzzy_delete req = with_body req (\<lambda>x. change_words ''Arguments not properly formatted''
     (res_bind (string_of x ''word'') (\<lambda>w. res_bind (optional_string x ''tag'') (\<lambda>t.
      res_bind (optional_string x ''meta'') (\<lambda>m. Inr (deleteWord w t m))))))"

definition fuzzy_update :: "web_request \<Rightarrow> wvalue search_op" where
  "fuzzy_update req = with_body req (\<lambda>x. change_words ''oldword/word/tag/meta missing or not properly formatted''
     (res_bind (string_of x ''oldword'') (\<lambda>old. res_bind (string_of x ''word'') (\<lambda>w.
      res_bind (string_of x ''tag'') (\<lambda>t. res_bind (string_of x ''meta'') (\<lambda>m.
        Inr (updateWord old w t m)))))))"

section \<open>Document index\<close>

text \<open>An operation of the index inside a handler's \<^verbatim>\<open>try\<close>.\<close>

definition on_docs :: "'a index_op \<Rightarrow> 'a search_op" where
  "on_docs f s = (let (r, idx) = f (docs s) in (r, s\<lparr>docs := idx\<rparr>))"

definition elastic_index :: "lib \<Rightarrow> web_request \<Rightarrow> wvalue search_op" where
  "elastic_index L req = with_body req (\<lambda>x s.
     let (r, s') =
       (case res_bind (string_of x ''app'') (\<lambda>tenant. res_bind (string_of x ''index'') (\<lambda>name.
               res_bind (res_bind (r_get x ''doc'') (wvalue_of_rvalue L)) (\<lambda>doc. Inr (tenant, name, doc)))) of
          Inl e \<Rightarrow> (Inl e, s)
        | Inr (tenant, name, doc) \<Rightarrow> on_docs (indexDocument L tenant name doc) s) in
     (on_error r (\<lambda>u. Inr (w_set WNull ''result'' WTrue))
        (w_set (error_reply ''app/index/doc missing or not properly formatted'') ''result'' WTrue), s'))"

definition w_bool :: "bool \<Rightarrow> wvalue" where
  "w_bool b = (if b then WTrue else WFalse)"

definition elastic_clear :: "web_request \<Rightarrow> wvalue search_op" where
  "elastic_clear req = with_body req (\<lambda>x s.
     let (r, s') =
       (case res_bind (string_of x ''app'') (\<lambda>tenant. res_bind (string_of x ''index'') (\<lambda>name. Inr (tenant, name))) of
          Inl e \<Rightarrow> (Inl e, s)
        | Inr (tenant, name) \<Rightarrow> on_docs (clearIndex tenant name) s) in
     (on_error r (\<lambda>b. Inr (w_set WNull ''result'' (w_bool b)))
        (w_set (error_reply ''app/index/doc missing or not properly formatted'') ''result'' WFalse), s'))"

fun condition_list :: "(string \<times> rvalue) list \<Rightarrow> (string \<times> string) list res" where
  "condition_list [] = Inr []"
| "condition_list ((k, item) # items) =
     res_bind (r_s item) (\<lambda>v. res_bind (condition_list items) (\<lambda>cs. Inr ((k, v) # cs)))"

definition conditions_of :: "rvalue \<Rightarrow> (string \<times> string) list res" where
  "conditions_of x = res_bind (r_has x ''conditions'') (\<lambda>has.
     if \<not> has then Inr []
     else res_bind (r_get x ''conditions'') (\<lambda>c. case c of RObject kvs \<Rightarrow> condition_list kvs | _ \<Rightarrow> Inr []))"

definition optional_bool :: "rvalue \<Rightarrow> string \<Rightarrow> bool res" where
  "optional_bool x k = res_bind (r_has x k) (\<lambda>has. if has then res_bind (r_get x k) r_b else Inr False)"

definition fuzziness_of :: "lib \<Rightarrow> rvalue \<Rightarrow> int \<Rightarrow> int res" where
  "fuzziness_of L x dflt = res_bind (r_has x ''fuzziness'') (\<lambda>has.
     if has then res_bind (res_bind (r_get x ''fuzziness'') (r_i L)) (\<lambda>i. Inr (wrap32 i)) else Inr dflt)"

text \<open>\<open>route_elastic_action_callback\<close>: 0 searches, 1 updates, -1 deletes.\<close>

definition elastic_run :: "lib \<Rightarrow> int \<Rightarrow> rvalue \<Rightarrow> wvalue search_op" where
  "elastic_run L action x s =
     (case res_bind (string_of x ''app'') (\<lambda>tenant. res_bind (string_of x ''index'') (\<lambda>name.
             res_bind (conditions_of x) (\<lambda>cs. res_bind (optional_bool x ''must'') (\<lambda>must.
             res_bind (optional_bool x ''ignorecase'') (\<lambda>ic. Inr (tenant, name, cs, must, ic)))))) of
        Inl e \<Rightarrow> (Inl e, s)
      | Inr (tenant, name, cs, must, ic) \<Rightarrow>
          (case fuzziness_of L x (if action = 0 then 2 else 0) of
             Inl e \<Rightarrow> (Inl e, s)
           | Inr fz \<Rightarrow>
               if action = 0 then
                 (res_bind (searchMultiple L tenant name cs fz must ic (docs s)) (\<lambda>rs.
                    Inr (w_set WNull ''result'' (WList rs))), s)
               else if action = 1 then
                 (case r_has x ''doc'' of
                    Inl e \<Rightarrow> (Inl e, s)
                  | Inr False \<Rightarrow> (Inr (w_set WNull ''result'' (WNumber (double_of_int 0))), s)
                  | Inr True \<Rightarrow>
                      (case res_bind (r_get x ''doc'') (wvalue_of_rvalue L) of
                         Inl e \<Rightarrow> (Inl e, s)
                       | Inr doc \<Rightarrow>
                           (let (r, s') = on_docs (updateDocument L tenant name doc cs fz must ic) s in
                            (res_bind r (\<lambda>n. Inr (w_set WNull ''result'' (WNumber (double_of_int n)))), s'))))
               else
                 (let (r, s') = on_docs (deleteDocument L tenant name cs fz must ic) s in
                  (res_bind r (\<lambda>n. Inr (w_set WNull ''result'' (WNumber (double_of_int n)))), s'))))"

definition elastic_action :: "lib \<Rightarrow> int \<Rightarrow> web_request \<Rightarrow> wvalue search_op" where
  "elastic_action L action req = with_body req (\<lambda>x s.
     let (r, s') = elastic_run L action x s in
     (on_error r Inr
        (error_reply ''app/index/conditions/fuzziness/must/ignorecase missing or not properly formatted''), s'))"

definition elastic_search :: "lib \<Rightarrow> web_request \<Rightarrow> wvalue search_op" where
  "elastic_search L = elastic_action L 0"

definition elastic_update :: "lib \<Rightarrow> web_request \<Rightarrow> wvalue search_op" where
  "elastic_update L = elastic_action L 1"

definition elastic_delete :: "lib \<Rightarrow> web_request \<Rightarrow> wvalue search_op" where
  "elastic_delete L = elastic_action L (-1)"

end
