(* ===== verification/Search_Props.thy ===== *)
theory Search_Props
  imports Search_Routes
begin

text \<open>What a client of the search routes sees.\<close>

lemma search_inserted:
  "search_word (insert_word w d (built ops)) w = search_word (built ops) w @ [d]"
  using search_insert [OF built_trie_ok] by (simp add: built_def)

text \<open>A word inserted by one request is found by a match request for it, after everything that
  was stored for the word before.\<close>

theorem insert_request_then_match:
  assumes "words s = built ops"
    and "load (body_of req) = Some x" and "string_of x ''word'' = Inr w"
    and "string_of x ''tag'' = Inr t" and "string_of x ''meta'' = Inr m"
    and "load (body_of req') = Some y" and "string_of y ''word'' = Inr w"
  shows "fst (fuzzy_insert req s) = Inr (w_set WNull ''result'' WTrue) \<and>
    fst (fuzzy_match req' (snd (fuzzy_insert req s))) =
      Inr (w_set WNull ''result'' (WList (map (\<lambda>d. hit_json (w, d))
        (search_word (built ops) w @ [\<lparr>category = t, userData = m\<rparr>]))))"
  using assms
  by (simp add: fuzzy_insert_def fuzzy_match_def with_body_def hits_reply_def on_error_def
      search_inserted comp_def)

definition post_body :: "string \<Rightarrow> web_request" where
  "post_body b = \<lparr>req_body = b, url_param = (\<lambda>k. None)\<rparr>"

theorem insert_request_then_match_witness:
  "fst (fuzzy_match (post_body ''{\"word\":\"ape\"}'')
     (snd (fuzzy_insert (post_body ''{\"word\":\"ape\",\"tag\":\"t\",\"meta\":\"m\"}'')
        \<lparr>words = built [], docs = WNull\<rparr>))) =
   Inr (w_set WNull ''result'' (WList [hit_json (''ape'', \<lparr>category = ''t'', userData = ''m''\<rparr>)]))"
proof -
  let ?x = "RObject [(''word'', RString ''ape''), (''tag'', RString ''t''), (''meta'', RString ''m'')]"
  have x: "load (body_of (post_body ''{\"word\":\"ape\",\"tag\":\"t\",\"meta\":\"m\"}'')) = Some ?x"
    "string_of ?x ''word'' = Inr ''ape''" "string_of ?x ''tag'' = Inr ''t''" "string_of ?x ''meta'' = Inr ''m''"
    by code_simp+
  have y: "load (body_of (post_body ''{\"word\":\"ape\"}'')) = Some (RObject [(''word'', RString ''ape'')])"
    "string_of (RObject [(''word'', RString ''ape'')]) ''word'' = Inr ''ape''" by code_simp+
  have s: "search_word (built []) ''ape'' = []" by code_simp
  have "words \<lparr>words = built [], docs = WNull\<rparr> = built []" by simp
  from insert_request_then_match [OF this x y] show ?thesis by (simp add: s)
qed

text \<open>An insertion that fails still reports success: without a word, tag or meta text the reply
  has an error and \<open>result\<close> true, and nothing is stored.\<close>

theorem failed_insert_reports_success:
  assumes "load (body_of req) = Some x"
    and "string_of x ''word'' = Inl RuntimeError \<or> string_of x ''tag'' = Inl RuntimeError \<or>
      string_of x ''meta'' = Inl RuntimeError"
  shows "\<exists>reply. fuzzy_insert req s = (Inr reply, s) \<and> w_get reply ''result'' = WTrue \<and> w_count reply ''error''"
proof -
  have r: "(\<exists>v. string_of x k = Inr v) \<or> string_of x k = Inl RuntimeError" for k
  proof (cases "r_get x k")
    case (Inl e)
    then show ?thesis by (cases x) (auto simp: string_of_def split: option.splits)
  next
    case (Inr v)
    then show ?thesis by (cases v) (auto simp: string_of_def)
  qed
  let ?p = "res_bind (string_of x ''word'') (\<lambda>w. res_bind (string_of x ''tag'') (\<lambda>t.
    res_bind (string_of x ''meta'') (\<lambda>m. Inr (w, t, m))))"
  have "?p = Inl RuntimeError"
    using assms(2) r [of "''word''"] r [of "''tag''"] r [of "''meta''"] by auto
  then show ?thesis
    using assms(1) by (simp add: fuzzy_insert_def with_body_def error_reply_def)
qed

theorem failed_insert_reports_success_witness:
  "\<exists>reply. fuzzy_insert (post_body ''{\"word\":\"ape\"}'') \<lparr>words = built [], docs = WNull\<rparr> =
       (Inr reply, \<lparr>words = built [], docs = WNull\<rparr>) \<and>
     w_get reply ''result'' = WTrue \<and> w_count reply ''error''"
proof -
  have l: "load (body_of (post_body ''{\"word\":\"ape\"}'')) = Some (RObject [(''word'', RString ''ape'')])"
    by code_simp
  have t: "string_of (RObject [(''word'', RString ''ape'')]) ''tag'' = Inl RuntimeError" by code_simp
  show ?thesis
    by (rule failed_insert_reports_success [OF l]) (rule disjI2, rule disjI1, rule t)
qed

end
