(* ===== verification/Fuzzy_Props.thy ===== *)
theory Fuzzy_Props
  imports Fuzzy
begin

text \<open>
  What approximate matching means: the distance is the least number of single-letter edits, and
  two texts match when the words of the second match some of the words of the first in order.
\<close>

section \<open>Edits\<close>

inductive edit :: "string \<Rightarrow> string \<Rightarrow> bool" where
  substitute: "edit (u @ x # v) (u @ y # v)"
| delete: "edit (u @ x # v) (u @ v)"
| insert: "edit (u @ v) (u @ x # v)"

lemma edit_align: "edit s t \<Longrightarrow> align s t 1"
proof (induction rule: edit.induct)
  case (substitute u x v y)
  from align_append [OF align_refl align.subst [OF align_refl]] show ?case by simp
next
  case (delete u x v)
  from align_append [OF align_refl align.del [OF align_refl]] show ?case by simp
next
  case (insert u v x)
  from align_append [OF align_refl align.ins [OF align_refl]] show ?case by simp
qed

lemma edit_Cons: "edit s t \<Longrightarrow> edit (c # s) (c # t)"
proof (induction rule: edit.induct)
  case (substitute u x v y)
  show ?case using edit.substitute [of "c # u" x v y] by simp
next
  case (delete u x v)
  show ?case using edit.delete [of "c # u" x v] by simp
next
  case (insert u v x)
  show ?case using edit.insert [of "c # u" v x] by simp
qed

lemma edits_Cons: "(edit ^^ n) s t \<Longrightarrow> (edit ^^ n) (c # s) (c # t)"
proof (induction n arbitrary: t)
  case (Suc n)
  then obtain r where "(edit ^^ n) s r" "edit r t" by auto
  with Suc.IH show ?case by (auto intro: edit_Cons)
qed simp

lemma align_edits: "align s t n \<Longrightarrow> \<exists>k\<le>n. (edit ^^ k) s t"
proof (induction rule: align.induct)
  case nil
  then show ?case by (intro exI [of _ 0]) simp
next
  case (keep xs ys n x)
  then show ?case by (blast intro: edits_Cons)
next
  case (subst xs ys n x y)
  then obtain k where k: "k \<le> n" "(edit ^^ k) (y # xs) (y # ys)" by (blast intro: edits_Cons)
  moreover have "edit (x # xs) (y # xs)" using edit.substitute [of "[]" x xs y] by simp
  ultimately have "(edit ^^ Suc k) (x # xs) (y # ys)" by (blast intro: relpowp_Suc_I2)
  with k(1) show ?case by (intro exI [of _ "Suc k"]) simp
next
  case (del xs ys n x)
  then obtain k where k: "k \<le> n" "(edit ^^ k) xs ys" by blast
  moreover have "edit (x # xs) xs" using edit.delete [of "[]" x xs] by simp
  ultimately have "(edit ^^ Suc k) (x # xs) ys" by (blast intro: relpowp_Suc_I2)
  with k(1) show ?case by (intro exI [of _ "Suc k"]) simp
next
  case (ins xs ys n y)
  then obtain k where k: "k \<le> n" "(edit ^^ k) xs ys" by blast
  moreover have "edit ys (y # ys)" using edit.insert [of "[]" ys y] by simp
  ultimately have "(edit ^^ Suc k) xs (y # ys)" by auto
  with k(1) show ?case by (intro exI [of _ "Suc k"]) simp
qed

lemma align_less: "align xs ys n \<Longrightarrow> n \<le> k \<Longrightarrow> lev xs ys \<le> k"
  using lev_least by fastforce

text \<open>Alignments compose; each step of the second is followed through the first.\<close>

lemma align_trans: "align a b m \<Longrightarrow> align b c n \<Longrightarrow> \<exists>k\<le>m + n. align a c k"
proof (induction a b m arbitrary: c n rule: align.induct)
  case nil
  then show ?case by auto
next
  case (keep xs ys m x)
  note IH = keep.IH
  from keep.prems show ?case
  proof (induction "x # ys" c n rule: align.induct)
    case (keep zs n)
    with IH show ?case by (blast intro: align.keep)
  next
    case (subst zs n z)
    with IH obtain k where "k \<le> m + n" "align xs zs k" by blast
    then show ?case by (intro exI [of _ "Suc k"]) (simp add: align.subst)
  next
    case (del zs n)
    with IH obtain k where "k \<le> m + n" "align xs zs k" by blast
    then show ?case by (intro exI [of _ "Suc k"]) (simp add: align.del)
  next
    case (ins zs n z)
    then obtain k where "k \<le> m + n" "align (x # xs) zs k" by blast
    then show ?case by (intro exI [of _ "Suc k"]) (simp add: align.ins)
  qed
next
  case (subst xs ys m x y)
  note IH = subst.IH
  from subst.prems show ?case
  proof (induction "y # ys" c n rule: align.induct)
    case (keep zs n)
    with IH obtain k where "k \<le> m + n" "align xs zs k" by blast
    then show ?case by (intro exI [of _ "Suc k"]) (simp add: align.subst)
  next
    case (subst zs n z)
    with IH obtain k where "k \<le> m + n" "align xs zs k" by blast
    then show ?case by (intro exI [of _ "Suc k"]) (simp add: align.subst)
  next
    case (del zs n)
    with IH obtain k where "k \<le> m + n" "align xs zs k" by blast
    then show ?case by (intro exI [of _ "Suc k"]) (simp add: align.del)
  next
    case (ins zs n z)
    then obtain k where "k \<le> Suc m + n" "align (x # xs) zs k" by blast
    then show ?case by (intro exI [of _ "Suc k"]) (simp add: align.ins)
  qed
next
  case (del xs ys m x)
  then obtain k where "k \<le> m + n" "align xs c k" by blast
  then show ?case by (intro exI [of _ "Suc k"]) (simp add: align.del)
next
  case (ins xs ys m y)
  note IH = ins.IH
  from ins.prems show ?case
  proof (induction "y # ys" c n rule: align.induct)
    case (keep zs n)
    with IH obtain k where "k \<le> m + n" "align xs zs k" by blast
    then show ?case by (intro exI [of _ "Suc k"]) (simp add: align.ins)
  next
    case (subst zs n z)
    with IH obtain k where "k \<le> m + n" "align xs zs k" by blast
    then show ?case by (intro exI [of _ "Suc k"]) (simp add: align.ins)
  next
    case (del zs n)
    with IH obtain k where "k \<le> m + n" "align xs zs k" by blast
    then show ?case by (intro exI [of _ k]) simp
  next
    case (ins zs n z)
    then obtain k where "k \<le> Suc m + n" "align xs zs k" by blast
    then show ?case by (intro exI [of _ "Suc k"]) (simp add: align.ins)
  qed
qed

lemma edits_align: "(edit ^^ n) s t \<Longrightarrow> \<exists>k\<le>n. align s t k"
proof (induction n arbitrary: t)
  case 0
  then show ?case using align_refl by auto
next
  case (Suc n)
  then obtain r where r: "(edit ^^ n) s r" "edit r t" by auto
  from Suc.IH [OF r(1)] obtain k where k: "k \<le> n" "align s r k" by blast
  from align_trans [OF k(2) edit_align [OF r(2)]] obtain j where "j \<le> k + 1" "align s t j" by blast
  with k(1) show ?case by (intro exI [of _ j]) simp
qed

text \<open>C27: the table computes the edit distance: it is at most \<open>k\<close> exactly when at most \<open>k\<close>
  substitutions, deletions and insertions of single letters turn one text into the other.\<close>

theorem levenshtein_least_edits:
  "levenshteinDistance s1 s2 \<le> int k \<longleftrightarrow> (\<exists>n\<le>k. (edit ^^ n) s1 s2)"
proof
  assume "levenshteinDistance s1 s2 \<le> int k"
  then have "lev s1 s2 \<le> k" by (simp add: levenshteinDistance_lev)
  with align_edits [OF align_lev [of s1 s2]] show "\<exists>n\<le>k. (edit ^^ n) s1 s2" by (meson le_trans)
next
  assume "\<exists>n\<le>k. (edit ^^ n) s1 s2"
  then obtain n j where "n \<le> k" "j \<le> n" "align s1 s2 j" using edits_align by meson
  then show "levenshteinDistance s1 s2 \<le> int k"
    using align_less [of s1 s2 j k] by (simp add: levenshteinDistance_lev)
qed

section \<open>Matching word by word\<close>

definition near :: "int \<Rightarrow> string \<Rightarrow> string \<Rightarrow> bool" where
  "near d a b = (levenshteinDistance a b \<le> d)"

lemma subseq_of_Nil: "subseq us [] \<longleftrightarrow> us = []"
  by (cases us) simp_all

lemma nearly_loop_iff: "nearly_loop d ts1 ts2 \<longleftrightarrow> (\<exists>us. subseq us ts1 \<and> list_all2 (near d) us ts2)"
proof (induction d ts1 ts2 rule: nearly_loop.induct)
  case (1 d t1 ts1 t2 ts2)
  show ?case
  proof (cases "near d t1 t2")
    case True
    have "\<exists>us'. subseq us' ts1 \<and> list_all2 (near d) us' ts2"
      if sub: "subseq us (t1 # ts1)" and all: "list_all2 (near d) us (t2 # ts2)" for us
    proof -
      obtain u us' where us: "us = u # us'" "list_all2 (near d) us' ts2"
        using all by (cases us) auto
      then have "subseq us' ts1" using sub by (auto split: if_splits dest: subseq_Cons')
      with us show ?thesis by blast
    qed
    moreover have "\<exists>us. subseq us (t1 # ts1) \<and> list_all2 (near d) us (t2 # ts2)"
      if "subseq us' ts1" "list_all2 (near d) us' ts2" for us'
      using that True by (intro exI [of _ "t1 # us'"]) simp
    moreover have "nearly_loop d (t1 # ts1) (t2 # ts2) = nearly_loop d ts1 ts2"
      using True by (simp add: near_def)
    ultimately show ?thesis using True 1(1) unfolding near_def [symmetric] by blast
  next
    case False
    have "subseq us (t1 # ts1) \<longleftrightarrow> subseq us ts1" if "list_all2 (near d) us (t2 # ts2)" for us
      using that False by (cases us) auto
    moreover have "nearly_loop d (t1 # ts1) (t2 # ts2) = nearly_loop d ts1 (t2 # ts2)"
      using False by (simp add: near_def)
    ultimately show ?thesis using False 1(2) unfolding near_def [symmetric] by blast
  qed
qed (auto simp: subseq_of_Nil intro: exI [of _ "[]"])

text \<open>C28: \<open>isNearlyMatched\<close> holds exactly when some of the words of the first text, in order but
  not necessarily next to each other, are within the distance of the words of the second: the
  greedy walk misses no match.\<close>

theorem nearly_matched_iff:
  "isNearlyMatched s1 s2 d \<longleftrightarrow>
    (\<exists>us. subseq us (words_of s1) \<and> list_all2 (\<lambda>a b. levenshteinDistance a b \<le> d) us (words_of s2))"
  using nearly_loop_iff [of d "words_of s1" "words_of s2"]
  by (simp add: isNearlyMatched_def near_def [abs_def])

end
