(* ===== verification/Task_Queue.thy ===== *)
theory Task_Queue
  imports Main "HOL-Library.Multiset"
begin

text \<open>
  The task queue of \<^verbatim>\<open>include/quarkstaskqueue.hpp\<close> and \<^verbatim>\<open>src/quarkstaskqueue.cpp\<close> as a transition
  system: producers that push tasks under the mutex and notify afterwards, and worker threads that
  wait on the condition variable, take a task and execute it. A step is one critical section, one
  notification or the execution of one task. A worker waiting in \<^verbatim>\<open>cv.wait\<close> is woken by
  notifications only, which take effect in the order in which they were sent (spurious wake-ups, and
  notifications that overtake one another, both of which the standard permits, are left out). A task is
  represented by its number; \<open>finished\<close> lists the lines \<open>Execute\<close> writes.
\<close>

section \<open>State and steps\<close>

datatype worker = Checking | Waiting | Running nat | Exited

datatype notification = NotifyOne | NotifyAll

record task_queue =
  pending :: "nat list"
  queueStopped :: bool
  workers :: "worker list"
  notifications :: "notification list"
  finished :: "nat list"

datatype action =
    PushTask nat | PushTasks "nat list" | StopQueue
  | Wake nat | WakeNone | WakeAll
  | Take nat nat | Sleep nat | Quit nat | Execute nat nat

definition start_queue :: "nat \<Rightarrow> task_queue" where
  "start_queue n = \<lparr>pending = [], queueStopped = False, workers = replicate n Checking,
     notifications = [], finished = []\<rparr>"

definition set_worker :: "nat \<Rightarrow> worker \<Rightarrow> task_queue \<Rightarrow> task_queue" where
  "set_worker i w s = s\<lparr>workers := (workers s)[i := w]\<rparr>"

definition worker_is :: "task_queue \<Rightarrow> nat \<Rightarrow> worker \<Rightarrow> bool" where
  "worker_is s i w = (i < length (workers s) \<and> workers s ! i = w)"

inductive step :: "action \<Rightarrow> task_queue \<Rightarrow> task_queue \<Rightarrow> bool" where
  push: "step (PushTask t) s (s\<lparr>pending := pending s @ [t], notifications := notifications s @ [NotifyOne]\<rparr>)"
| push_batch:
    "step (PushTasks ts) s (s\<lparr>pending := pending s @ ts, notifications := notifications s @ [NotifyAll]\<rparr>)"
| stop: "step StopQueue s (s\<lparr>queueStopped := True\<rparr>)"
| wake: "notifications s = NotifyOne # ns \<Longrightarrow> worker_is s i Waiting \<Longrightarrow>
    step (Wake i) s (set_worker i Checking (s\<lparr>notifications := ns\<rparr>))"
| wake_none: "notifications s = NotifyOne # ns \<Longrightarrow> Waiting \<notin> set (workers s) \<Longrightarrow>
    step WakeNone s (s\<lparr>notifications := ns\<rparr>)"
| wake_all: "notifications s = NotifyAll # ns \<Longrightarrow>
    step WakeAll s (s\<lparr>notifications := ns,
      workers := map (\<lambda>w. if w = Waiting then Checking else w) (workers s)\<rparr>)"
| take: "worker_is s i Checking \<Longrightarrow> \<not> queueStopped s \<Longrightarrow> pending s = t # ts \<Longrightarrow>
    step (Take i t) s (set_worker i (Running t) (s\<lparr>pending := ts\<rparr>))"
| sleep: "worker_is s i Checking \<Longrightarrow> \<not> queueStopped s \<Longrightarrow> pending s = [] \<Longrightarrow>
    step (Sleep i) s (set_worker i Waiting s)"
| quit: "worker_is s i Checking \<Longrightarrow> queueStopped s \<Longrightarrow> step (Quit i) s (set_worker i Exited s)"
| execute: "worker_is s i (Running t) \<Longrightarrow>
    step (Execute i t) s (set_worker i Checking (s\<lparr>finished := finished s @ [t]\<rparr>))"

code_pred (modes: i \<Rightarrow> i \<Rightarrow> o \<Rightarrow> bool as step_next) step .

inductive_cases step_elims: "step a s s'"

text \<open>The steps of the workers and of the condition variable, which need no producer.\<close>

fun internal :: "action \<Rightarrow> bool" where
  "internal (PushTask t) = False"
| "internal (PushTasks ts) = False"
| "internal StopQueue = False"
| "internal a = True"

inductive runs :: "action list \<Rightarrow> task_queue \<Rightarrow> task_queue \<Rightarrow> bool" where
  none: "runs [] s s"
| more: "step a s s' \<Longrightarrow> runs as s' s'' \<Longrightarrow> runs (a # as) s s''"

inductive_cases runs_Cons: "runs (a # as) s s'"

section \<open>What a run pushed and started\<close>

fun pushed :: "action list \<Rightarrow> nat list" where
  "pushed [] = []"
| "pushed (PushTask t # as) = t # pushed as"
| "pushed (PushTasks ts # as) = ts @ pushed as"
| "pushed (a # as) = pushed as"

fun started :: "action list \<Rightarrow> nat list" where
  "started [] = []"
| "started (Take i t # as) = t # started as"
| "started (a # as) = started as"

fun running :: "worker list \<Rightarrow> nat list" where
  "running [] = []"
| "running (Running t # ws) = t # running ws"
| "running (w # ws) = running ws"

lemma running_append: "running (us @ ws) = running us @ running ws"
  by (induction us rule: running.induct) simp_all

lemma running_mid: "running (us @ w # ws) = running us @ running [w] @ running ws"
  by (cases w) (simp_all add: running_append)

lemma running_update:
  assumes "i < length ws"
  shows "mset (running (ws[i := w])) + mset (running [ws ! i]) = mset (running ws) + mset (running [w])"
proof -
  have "running ws = running (take i ws) @ running [ws ! i] @ running (drop (Suc i) ws)"
    by (subst id_take_nth_drop [OF assms]) (rule running_mid)
  moreover have "running (ws[i := w]) = running (take i ws) @ running [w] @ running (drop (Suc i) ws)"
    unfolding upd_conv_take_nth_drop [OF assms] by (rule running_mid)
  ultimately show ?thesis by (simp add: ac_simps)
qed

lemma running_woken: "running (map (\<lambda>w. if w = Waiting then Checking else w) ws) = running ws"
  by (induction ws rule: running.induct) auto

lemma step_order: "step a s s' \<Longrightarrow> pending s @ pushed [a] = started [a] @ pending s'"
  by (induction rule: step.induct) (simp_all add: set_worker_def)

lemma step_tasks:
  "step a s s' \<Longrightarrow>
    mset (running (workers s)) + mset (finished s) + mset (started [a]) =
    mset (running (workers s')) + mset (finished s')"
proof (induction rule: step.induct)
  case (wake s ns i)
  then show ?case using running_update [of i "workers s" Checking] by (simp add: worker_is_def set_worker_def)
next
  case (wake_all s ns)
  then show ?case by (simp add: running_woken)
next
  case (take s i t ts)
  then show ?case using running_update [of i "workers s" "Running t"] by (simp add: worker_is_def set_worker_def)
next
  case (sleep s i)
  then show ?case using running_update [of i "workers s" Waiting] by (simp add: worker_is_def set_worker_def)
next
  case (quit s i)
  then show ?case using running_update [of i "workers s" Exited] by (simp add: worker_is_def set_worker_def)
next
  case (execute s i t)
  then show ?case using running_update [of i "workers s" Checking] by (simp add: worker_is_def set_worker_def)
qed simp_all

lemma pushed_Cons: "pushed (a # as) = pushed [a] @ pushed as"
  by (cases a) simp_all

lemma started_Cons: "started (a # as) = started [a] @ started as"
  by (cases a) simp_all

lemma runs_order: "runs as s s' \<Longrightarrow> pending s @ pushed as = started as @ pending s'"
proof (induction rule: runs.induct)
  case (more a s s' as s'')
  have "pending s @ pushed (a # as) = (pending s @ pushed [a]) @ pushed as" by (simp add: pushed_Cons [of a as])
  also have "\<dots> = started [a] @ (pending s' @ pushed as)" by (simp add: step_order [OF more(1)])
  also have "\<dots> = started (a # as) @ pending s''" by (simp add: more(3) started_Cons [of a as])
  finally show ?case .
qed simp

lemma runs_tasks:
  "runs as s s' \<Longrightarrow>
    mset (running (workers s)) + mset (finished s) + mset (started as) =
    mset (running (workers s')) + mset (finished s')"
proof (induction rule: runs.induct)
  case (more a s s' as s'')
  then show ?case using step_tasks [OF more(1)] by (simp add: started_Cons [of a as] ac_simps)
qed simp

end
