(* ===== verification/Task_Queue_Props.thy ===== *)
theory Task_Queue_Props
  imports Task_Queue
begin

text \<open>
  What the task queue guarantees: every task is executed at most once, in the order pushed; no
  wake-up is lost while the queue runs, so the workers always get it empty; and stopping it
  strands the workers that wait.
\<close>

section \<open>Invariant and measure\<close>

definition awake :: "worker \<Rightarrow> bool" where
  "awake w = (case w of Checking \<Rightarrow> True | Running t \<Rightarrow> True | _ \<Rightarrow> False)"

definition queue_inv :: "task_queue \<Rightarrow> bool" where
  "queue_inv s \<longleftrightarrow> workers s \<noteq> [] \<and> (Exited \<in> set (workers s) \<longrightarrow> queueStopped s) \<and>
     (pending s \<noteq> [] \<and> \<not> queueStopped s \<longrightarrow> notifications s \<noteq> [] \<or> list_ex awake (workers s))"

lemma awake_simps [simp]: "awake Checking" "awake (Running t)" "\<not> awake Waiting" "\<not> awake Exited"
  by (simp_all add: awake_def)

lemma not_waiting_awake: "w \<noteq> Waiting \<Longrightarrow> w \<noteq> Exited \<Longrightarrow> awake w"
  by (cases w) simp_all

lemma awake_updated: "i < length ws \<Longrightarrow> awake w \<Longrightarrow> list_ex awake (ws[i := w])"
  by (auto simp: list_ex_iff set_conv_nth intro!: exI [of _ i])

lemma set_updated: "x \<in> set (ws[i := w]) \<Longrightarrow> x = w \<or> x \<in> set ws"
  using set_update_subset_insert [of ws i w] by blast

lemma step_inv: "step a s s' \<Longrightarrow> queue_inv s \<Longrightarrow> queue_inv s'"
proof (induction rule: step.induct)
  case (wake_none s ns)
  have "list_ex awake (workers s)" if "\<not> queueStopped s"
  proof -
    have "workers s \<noteq> []" using wake_none(3) by (simp add: queue_inv_def)
    then obtain w where "w \<in> set (workers s)" by (cases "workers s") auto
    moreover from this have "w \<noteq> Waiting" "w \<noteq> Exited" using wake_none that by (auto simp: queue_inv_def)
    ultimately show ?thesis by (auto simp: list_ex_iff intro!: bexI [of _ w] not_waiting_awake)
  qed
  with wake_none show ?case by (auto simp: queue_inv_def)
next
  case (wake_all s ns)
  have "list_ex awake (map (\<lambda>w. if w = Waiting then Checking else w) (workers s))" if "\<not> queueStopped s"
  proof -
    have "workers s \<noteq> []" using wake_all(2) by (simp add: queue_inv_def)
    then obtain w where w: "w \<in> set (workers s)" by (cases "workers s") auto
    then have "awake (if w = Waiting then Checking else w)"
      using wake_all(2) that by (auto simp: queue_inv_def intro: not_waiting_awake)
    then show ?thesis
      unfolding list_ex_iff set_map by (rule bexI [OF _ imageI [OF w]])
  qed
  with wake_all show ?case by (auto simp: queue_inv_def)
qed (auto simp: queue_inv_def set_worker_def worker_is_def awake_updated dest!: set_updated)

lemma runs_inv: "runs as s s' \<Longrightarrow> queue_inv s \<Longrightarrow> queue_inv s'"
  by (induction rule: runs.induct) (simp_all add: step_inv)

lemma start_inv: "queue_inv (start_queue (Suc n))"
  by (simp add: queue_inv_def start_queue_def)

fun load_of :: "worker \<Rightarrow> nat" where
  "load_of Checking = 1"
| "load_of (Running t) = 2"
| "load_of w = 0"

definition weight :: "task_queue \<Rightarrow> nat" where
  "weight s = 2 * length (pending s) +
     sum_list (map (\<lambda>n. case n of NotifyOne \<Rightarrow> 2 | NotifyAll \<Rightarrow> Suc (length (workers s))) (notifications s)) +
     sum_list (map load_of (workers s))"

lemma load_updated:
  "i < length ws \<Longrightarrow> sum_list (map load_of (ws[i := w])) + load_of (ws ! i) = sum_list (map load_of ws) + load_of w"
proof (induction ws arbitrary: i)
  case (Cons x ws)
  then show ?case by (cases i) simp_all
qed simp

lemma load_woken:
  "sum_list (map load_of (map (\<lambda>w. if w = Waiting then Checking else w) ws)) \<le> sum_list (map load_of ws) + length ws"
  by (induction ws) auto

lemma step_weight: "step a s s' \<Longrightarrow> internal a \<Longrightarrow> weight s' < weight s"
proof (induction rule: step.induct)
  case (wake s ns i)
  then show ?case using load_updated [of i "workers s" Checking]
    by (simp add: weight_def set_worker_def worker_is_def)
next
  case (wake_all s ns)
  then show ?case using load_woken [of "workers s"] by (simp add: weight_def comp_def)
next
  case (take s i t ts)
  then show ?case using load_updated [of i "workers s" "Running t"]
    by (simp add: weight_def set_worker_def worker_is_def)
next
  case (sleep s i)
  then show ?case using load_updated [of i "workers s" Waiting]
    by (simp add: weight_def set_worker_def worker_is_def)
next
  case (quit s i)
  then show ?case using load_updated [of i "workers s" Exited]
    by (simp add: weight_def set_worker_def worker_is_def)
next
  case (execute s i t)
  then show ?case using load_updated [of i "workers s" Checking]
    by (simp add: weight_def set_worker_def worker_is_def)
qed (simp_all add: weight_def)

lemma runs_weight: "runs as s s' \<Longrightarrow> list_all internal as \<Longrightarrow> length as + weight s' \<le> weight s"
proof (induction rule: runs.induct)
  case (more a s s' as s'')
  then show ?case using step_weight [OF more(1)] by simp
qed simp

section \<open>Quiescence\<close>

definition quiescent :: "task_queue \<Rightarrow> bool" where
  "quiescent s \<longleftrightarrow> (\<forall>a s'. internal a \<longrightarrow> \<not> step a s s')"

lemma quiescent_notifications:
  assumes "quiescent s"
  shows "notifications s = []"
proof (cases "notifications s")
  case (Cons n ns)
  show ?thesis
  proof (cases n)
    case NotifyAll
    with Cons assms step.wake_all [of s ns] show ?thesis by (auto simp: quiescent_def)
  next
    case NotifyOne
    show ?thesis
    proof (cases "Waiting \<in> set (workers s)")
      case True
      then obtain i where "worker_is s i Waiting" by (auto simp: worker_is_def in_set_conv_nth)
      with Cons NotifyOne assms step.wake [of s ns i] show ?thesis by (auto simp: quiescent_def)
    next
      case False
      with Cons NotifyOne assms step.wake_none [of s ns] show ?thesis by (auto simp: quiescent_def)
    qed
  qed
qed simp

lemma quiescent_asleep:
  assumes "quiescent s" and "w \<in> set (workers s)"
  shows "\<not> awake w"
proof
  assume w: "awake w"
  obtain i where i: "worker_is s i w" using assms(2) by (auto simp: worker_is_def in_set_conv_nth)
  show False
  proof (cases w)
    case Checking
    with i assms(1) step.take [of s i] step.sleep [of s i] step.quit [of s i] show False
      by (cases "queueStopped s"; cases "pending s") (auto simp: quiescent_def)
  next
    case (Running t)
    with i assms(1) step.execute [of s i t] show False by (auto simp: quiescent_def)
  qed (use w in simp_all)
qed

lemma running_asleep: "\<forall>w \<in> set ws. \<not> awake w \<Longrightarrow> running ws = []"
  by (induction ws rule: running.induct) auto

lemma internal_runs:
  "runs bs s s' \<Longrightarrow> list_all internal bs \<Longrightarrow> queueStopped s' = queueStopped s \<and> pushed bs = []"
proof (induction rule: runs.induct)
  case (more a s s' as s'')
  have "queueStopped s' = queueStopped s \<and> pushed [a] = []"
    using more(1,4) by (cases rule: step.cases) (simp_all add: set_worker_def)
  with more show ?case by (simp add: pushed_Cons [of a as])
qed simp

lemma runs_append: "runs as s s' \<Longrightarrow> runs bs s' s'' \<Longrightarrow> runs (as @ bs) s s''"
  by (induction rule: runs.induct) (auto intro: runs.more)

lemma pushed_append: "pushed (as @ bs) = pushed as @ pushed bs"
  by (induction as rule: pushed.induct) simp_all

section \<open>Properties\<close>

text \<open>C31: whatever the interleaving, the tasks are started in the order in which they were pushed,
  each at most once, and every started task is being executed or has finished.\<close>

theorem tasks_in_order:
  assumes "runs as (start_queue n) s"
  shows "pushed as = started as @ pending s \<and>
    mset (started as) = mset (running (workers s)) + mset (finished s)"
proof -
  have "running (replicate n Checking) = []" by (induction n) simp_all
  then show ?thesis
    using runs_order [OF assms] runs_tasks [OF assms] by (simp add: start_queue_def)
qed

theorem tasks_in_order_witness:
  "\<exists>s. runs [PushTask 7, Take 0 7, PushTasks [8, 9]] (start_queue 1) s \<and>
     [7, 8, 9] = [7] @ pending s \<and> mset [7] = mset (running (workers s)) + mset (finished s)"
proof -
  have "\<exists>s. runs [PushTask 7, Take 0 7, PushTasks [8, 9]] (start_queue 1) s"
    by (intro exI, rule runs.more, rule step.push, rule runs.more, rule step.take [where ts = "[]"])
      (simp_all add: start_queue_def worker_is_def, rule runs.more, rule step.push_batch, rule runs.none)
  then obtain s where s: "runs [PushTask 7, Take 0 7, PushTasks [8, 9]] (start_queue 1) s" by blast
  from tasks_in_order [OF s] s show ?thesis by auto
qed

text \<open>C32: no wake-up is lost. As long as the queue is not stopped, the steps of the workers come to an
  end whatever their order, and when none is possible every pushed task has been executed.\<close>

theorem queue_drains:
  assumes "runs as (start_queue (Suc n)) s" and "\<not> queueStopped s"
    and "runs bs s s'" and "list_all internal bs"
  shows "length bs \<le> weight s \<and>
    (quiescent s' \<longrightarrow> pending s' = [] \<and> mset (finished s') = mset (pushed as))"
proof -
  have i: "queueStopped s' = queueStopped s" "pushed bs = []" using internal_runs [OF assms(3,4)] by auto
  have r: "runs (as @ bs) (start_queue (Suc n)) s'" by (rule runs_append [OF assms(1,3)])
  have inv: "queue_inv s'" using runs_inv [OF r] start_inv by blast
  have "pending s' = [] \<and> mset (finished s') = mset (pushed as)" if q: "quiescent s'"
  proof -
    have "\<not> list_ex awake (workers s')" using quiescent_asleep [OF q] by (auto simp: list_ex_iff)
    then have p: "pending s' = []"
      using inv i(1) assms(2) quiescent_notifications [OF q] by (auto simp: queue_inv_def)
    have "running (workers s') = []" using quiescent_asleep [OF q] by (intro running_asleep) blast
    moreover have "running (replicate (Suc n) Checking) = []" by (induction n) simp_all
    ultimately have "mset (started (as @ bs)) = mset (finished s')"
      using runs_tasks [OF r] by (simp add: start_queue_def)
    then show ?thesis using runs_order [OF r] p i(2) by (simp add: pushed_append start_queue_def)
  qed
  then show ?thesis using runs_weight [OF assms(3,4)] by auto
qed

text \<open>A queue with one worker that has found nothing to do.\<close>

definition one_waiting :: task_queue where
  "one_waiting = (start_queue 1)\<lparr>workers := [Waiting]\<rparr>"

lemma run_to_waiting: "runs [Sleep 0] (start_queue 1) one_waiting"
proof -
  have "step (Sleep 0) (start_queue 1) (set_worker 0 Waiting (start_queue 1))"
    by (rule step.sleep) (simp_all add: start_queue_def worker_is_def)
  then have "step (Sleep 0) (start_queue 1) one_waiting"
    by (simp add: one_waiting_def set_worker_def start_queue_def)
  then show ?thesis by (rule runs.more) (rule runs.none)
qed

lemma one_waiting_quiescent: "quiescent one_waiting"
proof -
  have "\<not> step a one_waiting s'" if "internal a" for a s'
    using that by (auto simp: one_waiting_def start_queue_def worker_is_def elim!: step.cases)
  then show ?thesis by (simp add: quiescent_def)
qed

text \<open>The same queue after it was given one task.\<close>

definition one_done :: task_queue where
  "one_done = one_waiting\<lparr>finished := [7]\<rparr>"

lemma one_done_quiescent: "quiescent one_done"
proof -
  have "\<not> step a one_done s'" if "internal a" for a s'
    using that by (auto simp: one_done_def one_waiting_def start_queue_def worker_is_def elim!: step.cases)
  then show ?thesis by (simp add: quiescent_def)
qed

definition one_pushed :: task_queue where
  "one_pushed = one_waiting\<lparr>pending := [7], notifications := [NotifyOne]\<rparr>"

lemma run_to_pushed: "runs [Sleep 0, PushTask 7] (start_queue 1) one_pushed"
proof -
  have "step (PushTask 7) one_waiting one_pushed"
    using step.push [of 7 one_waiting] by (simp add: one_pushed_def one_waiting_def start_queue_def)
  then have "runs [PushTask 7] one_waiting one_pushed" by (rule runs.more) (rule runs.none)
  from runs_append [OF run_to_waiting this] show ?thesis by simp
qed

lemma run_to_done: "runs [Wake 0, Take 0 7, Execute 0 7, Sleep 0] one_pushed one_done"
proof -
  let ?a = "one_pushed\<lparr>workers := [Checking], notifications := []\<rparr>"
  let ?b = "one_pushed\<lparr>workers := [Running 7], notifications := [], pending := []\<rparr>"
  let ?c = "one_pushed\<lparr>workers := [Checking], notifications := [], pending := [], finished := [7]\<rparr>"
  note defs = one_pushed_def one_done_def one_waiting_def start_queue_def worker_is_def set_worker_def
  have "step (Wake 0) one_pushed ?a" using step.wake [of one_pushed "[]" 0] by (simp add: defs)
  moreover have "step (Take 0 7) ?a ?b" using step.take [of ?a 0 7 "[]"] by (simp add: defs)
  moreover have "step (Execute 0 7) ?b ?c" using step.execute [of ?b 0 7] by (simp add: defs)
  moreover have "step (Sleep 0) ?c one_done" using step.sleep [of ?c 0] by (simp add: defs)
  ultimately show ?thesis by (blast intro: runs.intros)
qed

theorem queue_drains_witness:
  "length [Wake 0, Take 0 7, Execute 0 7, Sleep 0] \<le> weight one_pushed \<and>
    quiescent one_done \<and> pending one_done = [] \<and> mset (finished one_done) = mset (pushed [Sleep 0, PushTask 7])"
proof -
  have r: "runs [Sleep 0, PushTask 7] (start_queue (Suc 0)) one_pushed" using run_to_pushed by simp
  have n: "\<not> queueStopped one_pushed" by (simp add: one_pushed_def one_waiting_def start_queue_def)
  have i: "list_all internal [Wake 0, Take 0 7, Execute 0 7, Sleep 0]" by simp
  show ?thesis using queue_drains [OF r n run_to_done i] one_done_quiescent by simp
qed

text \<open>\<open>StopQueue\<close> sets the flag but notifies nobody: when the workers of an idle queue wait, they
  all keep waiting after it, no step is left, and joining the threads never returns.\<close>

theorem stop_strands_workers:
  assumes "runs as (start_queue (Suc n)) s" and "\<not> queueStopped s" and "quiescent s"
    and "step StopQueue s s'"
  shows "quiescent s' \<and> workers s' \<noteq> [] \<and> (\<forall>w \<in> set (workers s'). w = Waiting)"
proof -
  have s': "s' = s\<lparr>queueStopped := True\<rparr>" using assms(4) by (auto elim: step.cases)
  have inv: "queue_inv s" using runs_inv [OF assms(1)] start_inv by blast
  have n: "notifications s = []" by (rule quiescent_notifications [OF assms(3)])
  have w: "w = Waiting" if "w \<in> set (workers s)" for w
    using quiescent_asleep [OF assms(3) that] inv assms(2) that
    by (cases w) (auto simp: queue_inv_def)
  then have nw: "\<not> worker_is s' i v" if "v \<noteq> Waiting" for i v
    using that unfolding worker_is_def s' by (metis nth_mem select_convs(3) surjective update_convs(2))
  have "\<not> step a s' r" if "internal a" for a r
    using that n nw by (auto simp: s' elim!: step.cases)
  then have "quiescent s'" by (simp add: quiescent_def)
  with w inv show ?thesis by (auto simp: s' queue_inv_def)
qed

theorem stop_strands_workers_witness:
  "step StopQueue one_waiting (one_waiting\<lparr>queueStopped := True\<rparr>) \<and>
    quiescent (one_waiting\<lparr>queueStopped := True\<rparr>) \<and> workers (one_waiting\<lparr>queueStopped := True\<rparr>) = [Waiting]"
proof -
  have r: "runs [Sleep 0] (start_queue (Suc 0)) one_waiting" using run_to_waiting by simp
  have n: "\<not> queueStopped one_waiting" by (simp add: one_waiting_def start_queue_def)
  from stop_strands_workers [OF r n one_waiting_quiescent step.stop] step.stop [of one_waiting]
  show ?thesis by (simp add: one_waiting_def)
qed

end
