(* ===== verification/Base64.thy ===== *)
theory Base64
  imports Prelude "HOL-Library.Word"
begin

text \<open>
  Base64, \<^verbatim>\<open>src/base64.cpp\<close>: encoding by groups of three bytes with the shifts and masks of the
  code on signed \<^verbatim>\<open>char\<close> values, decoding through the table of 256 entries. Reading outside a
  string or the table is undefined behaviour: encoding fewer than two bytes (the loop bound
  \<^verbatim>\<open>in_len - 2\<close> underflows), decoding the empty text, and decoding a byte above 127, whose
  \<^verbatim>\<open>char\<close> value is a negative index. The main result is the round trip.
\<close>

unbundle bit_operations_syntax

section \<open>Encoding\<close>

definition sEncodingTable :: string where
  "sEncodingTable = ''ABCDEFGHIJKLMNOPQRSTUVWXYZabcdefghijklmnopqrstuvwxyz0123456789+/''"

definition enc_char :: "int \<Rightarrow> char" where
  "enc_char v = sEncodingTable ! nat v"

text \<open>A \<^verbatim>\<open>char\<close> is signed.\<close>

definition schar :: "char \<Rightarrow> int" where
  "schar c = (let n = of_char c in if n < 128 then n else n - 256)"

definition enc1 :: "char \<Rightarrow> int" where
  "enc1 a = drop_bit 2 (schar a) AND 0x3F"

definition enc2 :: "char \<Rightarrow> char \<Rightarrow> int" where
  "enc2 a b = push_bit 4 (schar a AND 0x3) OR drop_bit 4 (schar b AND 0xF0)"

definition enc3 :: "char \<Rightarrow> char \<Rightarrow> int" where
  "enc3 b c = push_bit 2 (schar b AND 0xF) OR drop_bit 6 (schar c AND 0xC0)"

definition enc4 :: "char \<Rightarrow> int" where
  "enc4 c = schar c AND 0x3F"

fun encode_loop :: "string \<Rightarrow> string" where
  "encode_loop (a # b # c # r) =
     enc_char (enc1 a) # enc_char (enc2 a b) # enc_char (enc3 b c) # enc_char (enc4 c) # encode_loop r"
| "encode_loop [a, b] =
     [enc_char (enc1 a), enc_char (enc2 a b), enc_char (push_bit 2 (schar b AND 0xF)), CHR ''='']"
| "encode_loop [a] =
     [enc_char (enc1 a), enc_char (push_bit 4 (schar a AND 0x3)), CHR ''='', CHR ''='']"
| "encode_loop [] = []"

definition Base64_Encode :: "string \<Rightarrow> string res" where
  "Base64_Encode data = (if length data < 2 then Inl Undefined else Inr (encode_loop data))"

section \<open>Decoding\<close>

definition kDecodingTable :: "nat list" where
  "kDecodingTable =
     replicate 43 64 @ [62, 64, 64, 64, 63] @ [52..<62] @ replicate 7 64 @ [0..<26] @
     replicate 6 64 @ [26..<52] @ replicate 133 64"

text \<open>One letter of a group: the padding sign counts as zero.\<close>

definition dec_value :: "char \<Rightarrow> int res" where
  "dec_value c =
     (if c = CHR ''='' then Inr 0
      else if schar c < 0 then Inl Undefined else Inr (int (kDecodingTable ! nat (schar c))))"

definition triple_of :: "int \<Rightarrow> int \<Rightarrow> int \<Rightarrow> int \<Rightarrow> int" where
  "triple_of a b c d =
     (push_bit 18 a + push_bit 12 b + push_bit 6 c + d) mod 4294967296"

definition put_byte :: "nat \<Rightarrow> int \<Rightarrow> string \<Rightarrow> string" where
  "put_byte out_len v out = (if length out < out_len then out @ [char_of (v AND 0xFF)] else out)"

text \<open>\<open>out\<close> is the part of the result written so far, \<open>j\<close> its length.\<close>

fun decode_loop :: "nat \<Rightarrow> string \<Rightarrow> string \<Rightarrow> string res" where
  "decode_loop out_len (w # x # y # z # r) out =
     res_bind (dec_value w) (\<lambda>a. res_bind (dec_value x) (\<lambda>b.
     res_bind (dec_value y) (\<lambda>c. res_bind (dec_value z) (\<lambda>d.
       let t = triple_of a b c d in
       decode_loop out_len r
         (put_byte out_len (drop_bit 0 t) (put_byte out_len (drop_bit 8 t) (put_byte out_len (drop_bit 16 t) out)))))))"
| "decode_loop out_len _ out = Inr out"

definition Base64_Decode :: "string \<Rightarrow> string res" where
  "Base64_Decode input =
     (let in_len = length input in
      if in_len mod 4 \<noteq> 0 then Inr ''Input data size is not a multiple of 4''
      else if in_len = 0 then Inl Undefined
      else
        let out_len = in_len div 4 * 3
              - (if input ! (in_len - 1) = CHR ''='' then 1 else 0)
              - (if input ! (in_len - 2) = CHR ''='' then 1 else 0)
        in decode_loop out_len input [])"

section \<open>Shifts and masks\<close>

abbreviation byte :: "char \<Rightarrow> int" where
  "byte c \<equiv> of_char c"

lemma byte_range: "0 \<le> byte c" "byte c < 256"
proof -
  have "byte c = int (of_char c)" by (simp add: of_nat_of_char)
  then show "0 \<le> byte c" "byte c < 256" using nat_of_char_less_256 [of c] by linarith+
qed

lemma and_mask_mod:
  "(x :: int) AND 0x3F = x mod 64" "x AND 0x3 = x mod 4" "x AND 0xF = x mod 16" "x AND 0xFF = x mod 256"
  using take_bit_eq_mask [of 6 x] take_bit_eq_mask [of 2 x] take_bit_eq_mask [of 4 x] take_bit_eq_mask [of 8 x]
  by (simp_all add: take_bit_eq_mod mask_eq_exp_minus_1)

lemma drop_and_high:
  "drop_bit 4 ((x :: int) AND 0xF0) = x div 16 mod 16" "drop_bit 6 (x AND 0xC0) = x div 64 mod 4"
proof -
  have "drop_bit 4 (x AND 0xF0) = drop_bit 4 x AND 0xF" unfolding drop_bit_and by simp
  then show "drop_bit 4 (x AND 0xF0) = x div 16 mod 16" by (simp add: and_mask_mod drop_bit_eq_div)
  have "drop_bit 6 (x AND 0xC0) = drop_bit 6 x AND 0x3" unfolding drop_bit_and by simp
  then show "drop_bit 6 (x AND 0xC0) = x div 64 mod 4" by (simp add: and_mask_mod drop_bit_eq_div)
qed

lemma or_low:
  assumes "0 \<le> y" and "y < 2 ^ n"
  shows "push_bit n x OR y = x * 2 ^ n + (y :: int)"
proof -
  have "take_bit n y = y" using assms by (simp add: take_bit_int_eq_self)
  then have "\<not> bit (push_bit n x) k \<or> \<not> bit y k" for k
    by (metis bit_push_bit_iff_int bit_take_bit_iff linorder_not_le)
  then have "push_bit n x + y = push_bit n x OR y" by (intro disjunctive_add) blast
  then show ?thesis by (simp add: push_bit_eq_mult)
qed

lemma schar_parts:
  "schar c div 4 mod 64 = byte c div 4" "schar c div 16 mod 16 = byte c div 16"
  "schar c div 64 mod 4 = byte c div 64" "schar c mod 4 = byte c mod 4"
  "schar c mod 16 = byte c mod 16" "schar c mod 64 = byte c mod 64"
proof -
  obtain k where s: "schar c = byte c + 256 * k"
  proof
    show "schar c = byte c + 256 * (if byte c < 128 then 0 else - 1)" by (simp add: schar_def Let_def)
  qed
  have d: "(n + 256 * k) div 4 = n div 4 + 64 * k" "(n + 256 * k) div 16 = n div 16 + 16 * k"
    "(n + 256 * k) div 64 = n div 64 + 4 * k" for n :: int
    using div_mult_self4 [of 4 "64 * k" n] div_mult_self4 [of 16 "16 * k" n] div_mult_self4 [of 64 "4 * k" n]
    by (simp_all add: add.commute)
  have m: "(n + 256 * k) mod 4 = n mod 4" "(n + 256 * k) mod 16 = n mod 16" "(n + 256 * k) mod 64 = n mod 64" for n :: int
    using mod_mult_self2 [of n 4 "64 * k"] mod_mult_self2 [of n 16 "16 * k"] mod_mult_self2 [of n 64 "4 * k"]
    by simp_all
  show "schar c div 4 mod 64 = byte c div 4" "schar c div 16 mod 16 = byte c div 16"
    "schar c div 64 mod 4 = byte c div 64" "schar c mod 4 = byte c mod 4"
    "schar c mod 16 = byte c mod 16" "schar c mod 64 = byte c mod 64"
    using byte_range [of c] unfolding s d m by simp_all
qed

lemma enc_values:
  "enc1 a = byte a div 4"
  "enc2 a b = byte a mod 4 * 16 + byte b div 16"
  "enc3 b c = byte b mod 16 * 4 + byte c div 64"
  "enc4 c = byte c mod 64"
  "push_bit 4 (schar a AND 0x3) = byte a mod 4 * 16"
  "push_bit 2 (schar b AND 0xF) = byte b mod 16 * 4"
proof -
  have d: "byte b div 16 < 16" "byte c div 64 < 4" using byte_range(2) [of b] byte_range(2) [of c] by auto
  show "enc1 a = byte a div 4"
    by (simp add: enc1_def and_mask_mod drop_bit_eq_div schar_parts)
  show "enc2 a b = byte a mod 4 * 16 + byte b div 16"
    using or_low [of "byte b div 16" 4 "byte a mod 4"] d byte_range(1) [of b]
    unfolding enc2_def drop_and_high by (simp add: and_mask_mod schar_parts)
  show "enc3 b c = byte b mod 16 * 4 + byte c div 64"
    using or_low [of "byte c div 64" 2 "byte b mod 16"] d byte_range(1) [of c]
    unfolding enc3_def drop_and_high by (simp add: and_mask_mod schar_parts)
qed (simp_all add: enc4_def and_mask_mod schar_parts push_bit_eq_mult)

section \<open>Round trip\<close>

text \<open>Decoding a letter gives back the six bits it encodes.\<close>

lemma table_inverse:
  "list_all (\<lambda>v. sEncodingTable ! v \<noteq> CHR ''='' \<and> dec_value (sEncodingTable ! v) = Inr (int v)) [0..<64]"
  by code_simp

lemma dec_enc_char:
  assumes "0 \<le> v" and "v < 64"
  shows "enc_char v \<noteq> CHR ''='' \<and> dec_value (enc_char v) = Inr v"
proof -
  have "nat v \<in> set [0..<64]" using assms by simp
  with table_inverse assms(1) show ?thesis unfolding list_all_iff enc_char_def by auto
qed

lemma dec_pad [simp]: "dec_value (CHR ''='') = Inr 0"
  by (simp add: dec_value_def)

text \<open>The three bytes of a group from its four letters.\<close>

lemma triple_bytes:
  assumes "0 \<le> a" "a < 256" "0 \<le> b" "b < 256" "0 \<le> c" "c < 256"
  shows "triple_of (a div 4) (a mod 4 * 16 + b div 16) (b mod 16 * 4 + c div 64) (c mod 64) =
    a * 65536 + b * 256 + c"
proof -
  have gen: "q * 262144 + (r * 16 + q2) * 4096 + (r2 * 4 + q3) * 64 + r3 =
      (q * 4 + r) * 65536 + (q2 * 16 + r2) * 256 + (q3 * 64 + r3)" for q r q2 r2 q3 r3 :: int
    by (simp add: algebra_simps)
  have "(a div 4) * 262144 + (a mod 4 * 16 + b div 16) * 4096 + (b mod 16 * 4 + c div 64) * 64 + c mod 64 =
      a * 65536 + b * 256 + c"
    unfolding gen by simp
  moreover have "0 \<le> a * 65536 + b * 256 + c" "a * 65536 + b * 256 + c < 4294967296"
    using assms by linarith+
  ultimately show ?thesis by (simp add: triple_of_def push_bit_eq_mult)
qed

lemma byte_of_triple:
  assumes "0 \<le> (a :: int)" "a < 256" "0 \<le> (b :: int)" "b < 256" "0 \<le> (c :: int)" "c < 256"
  defines "t \<equiv> a * 65536 + b * 256 + c"
  shows "drop_bit 16 t AND 0xFF = a" "drop_bit 8 t AND 0xFF = b" "drop_bit 0 t AND 0xFF = c"
proof -
  have "(b * 256 + c) div 65536 = 0" "c div 256 = 0" using assms(1-6) by (simp_all add: div_pos_pos_trivial)
  then have "t div 65536 = a" "t div 256 = a * 256 + b"
    using div_mult_self1 [of 65536 "b * 256 + c" a] div_mult_self1 [of 256 c "a * 256 + b"]
    unfolding t_def by (simp_all add: algebra_simps)
  moreover have "t mod 256 = c"
    using mod_mult_self1 [of c "a * 256 + b" 256] assms(5,6) unfolding t_def by (simp add: algebra_simps)
  ultimately have "t div 65536 = a" "t div 256 mod 256 = b" "t mod 256 = c"
    using assms(3,4) by simp_all
  then show "drop_bit 16 t AND 0xFF = a" "drop_bit 8 t AND 0xFF = b" "drop_bit 0 t AND 0xFF = c"
    using assms(1,2) by (simp_all add: and_mask_mod drop_bit_eq_div)
qed

lemma byte_char [simp]: "char_of (byte c) = c"
  by simp

text \<open>A group whose letters decode to the six bits of three bytes; with padding the missing bytes
  count as zero.\<close>

lemma decode_group:
  assumes "dec_value w = Inr (enc1 a)" and "dec_value x = Inr (enc2 a b)"
    and "dec_value y = Inr (enc3 b c)" and "dec_value z = Inr (enc4 c)"
  shows "decode_loop n (w # x # y # z # r) out =
    decode_loop n r (put_byte n (byte c) (put_byte n (byte b) (put_byte n (byte a) out)))"
proof -
  note r = byte_range [of a] byte_range [of b] byte_range [of c]
  let ?t = "byte a * 65536 + byte b * 256 + byte c"
  have p: "put_byte n (drop_bit 16 ?t) o1 = put_byte n (byte a) o1"
    "put_byte n (drop_bit 8 ?t) o1 = put_byte n (byte b) o1"
    "put_byte n (drop_bit 0 ?t) o1 = put_byte n (byte c) o1" for o1
    using r unfolding put_byte_def byte_of_triple [OF r] by (simp_all add: and_mask_mod)
  show ?thesis
    unfolding decode_loop.simps(1) assms res_bind_simps Let_def
    unfolding enc_values triple_bytes [OF r] p by (rule refl)
qed

lemma enc_range:
  "0 \<le> enc1 a" "enc1 a < 64" "0 \<le> enc2 a b" "enc2 a b < 64" "0 \<le> enc3 b c" "enc3 b c < 64"
  "0 \<le> enc4 c" "enc4 c < 64"
proof -
  have "byte a div 4 < 64" "byte b div 16 < 16" "byte c div 64 < 4"
    using byte_range [of a] byte_range [of b] byte_range [of c] by auto
  moreover have "0 \<le> byte a mod 4" "byte a mod 4 < 4" "0 \<le> byte b mod 16" "byte b mod 16 < 16"
    "0 \<le> byte b div 16" "0 \<le> byte c div 64" "0 \<le> byte a div 4"
    using byte_range [of a] byte_range [of b] byte_range [of c] by auto
  ultimately show "0 \<le> enc1 a" "enc1 a < 64" "0 \<le> enc2 a b" "enc2 a b < 64"
    "0 \<le> enc3 b c" "enc3 b c < 64" "0 \<le> enc4 c" "enc4 c < 64"
    unfolding enc_values by auto
qed

lemmas dec_enc [simp] = dec_enc_char [OF enc_range(1,2), THEN conjunct2]
  dec_enc_char [OF enc_range(3,4), THEN conjunct2] dec_enc_char [OF enc_range(5,6), THEN conjunct2]
  dec_enc_char [OF enc_range(7,8), THEN conjunct2]

lemma enc_NUL:
  "enc2 a NUL = push_bit 4 (schar a AND 0x3)" "enc3 b NUL = push_bit 2 (schar b AND 0xF)"
  "enc3 NUL NUL = 0" "enc4 NUL = 0"
  unfolding enc_values by simp_all

lemma put_byte_room: "length out < n \<Longrightarrow> put_byte n (byte c) out = out @ [c]"
  by (simp add: put_byte_def and_mask_mod byte_range)

lemma put_byte_full: "length out = n \<Longrightarrow> put_byte n v out = out"
  by (simp add: put_byte_def)

lemma decode_encode_loop:
  "n = length out + length data \<Longrightarrow> decode_loop n (encode_loop data) out = Inr (out @ data)"
proof (induction data arbitrary: out rule: encode_loop.induct)
  case (1 a b c r)
  then show ?case
    by (simp add: decode_group [where a = a and b = b and c = c] put_byte_room del: decode_loop.simps)
next
  case (2 a b)
  have "dec_value (enc_char (push_bit 2 (schar b AND 0xF))) = Inr (enc3 b NUL)"
    using dec_enc(3) [of b NUL] by (simp only: enc_NUL)
  then have "decode_loop n (encode_loop [a, b]) out =
      decode_loop n [] (put_byte n (byte NUL) (put_byte n (byte b) (put_byte n (byte a) out)))"
    unfolding encode_loop.simps by (intro decode_group) (simp_all add: enc_NUL)
  then show ?case using 2 by (simp add: put_byte_room put_byte_full)
next
  case (3 a)
  have "dec_value (enc_char (push_bit 4 (schar a AND 0x3))) = Inr (enc2 a NUL)"
    using dec_enc(2) [of a NUL] by (simp only: enc_NUL)
  then have "decode_loop n (encode_loop [a]) out =
      decode_loop n [] (put_byte n (byte NUL) (put_byte n (byte NUL) (put_byte n (byte a) out)))"
    unfolding encode_loop.simps by (intro decode_group) (simp_all add: enc_NUL(1,3,4))
  then show ?case using 3 by (simp add: put_byte_room put_byte_full)
qed simp

text \<open>The length the decoder computes.\<close>

definition pads :: "string \<Rightarrow> nat" where
  "pads e = (if e ! (length e - 1) = CHR ''='' then 1 else 0) + (if e ! (length e - 2) = CHR ''='' then 1 else 0)"

lemma pads_append: "2 \<le> length e \<Longrightarrow> pads (p @ e) = pads e"
proof -
  assume e: "2 \<le> length e"
  then have "length (p @ e) - 1 = length p + (length e - 1)" "length (p @ e) - 2 = length p + (length e - 2)"
    by simp_all
  then show "pads (p @ e) = pads e" unfolding pads_def by (simp only: nth_append_length_plus)
qed

lemma enc_not_pad [simp]:
  "enc_char (enc1 a) \<noteq> CHR ''=''" "enc_char (enc2 a b) \<noteq> CHR ''=''"
  "enc_char (enc3 b c) \<noteq> CHR ''=''" "enc_char (enc4 c) \<noteq> CHR ''=''"
  using enc_range dec_enc_char by blast+

lemma encode_loop_length: "length (encode_loop data) = 4 * ((length data + 2) div 3)"
proof (induction data rule: encode_loop.induct)
  case (1 a b c r)
  have "(length r + 5) div 3 = Suc ((length r + 2) div 3)" by presburger
  with 1 show ?case by (simp add: add.commute)
qed simp_all

lemma out_len: "data \<noteq> [] \<Longrightarrow> length (encode_loop data) div 4 * 3 - pads (encode_loop data) = length data"
proof (induction data rule: encode_loop.induct)
  case (1 a b c r)
  let ?h = "[enc_char (enc1 a), enc_char (enc2 a b), enc_char (enc3 b c), enc_char (enc4 c)]"
  show ?case
  proof (cases "r = []")
    case True
    then show ?thesis by (simp add: pads_def)
  next
    case False
    then have l: "2 \<le> length (encode_loop r)" by (cases r) (simp_all add: encode_loop_length)
    have "encode_loop (a # b # c # r) = ?h @ encode_loop r" by simp
    then have p: "pads (encode_loop (a # b # c # r)) = pads (encode_loop r)" using pads_append [OF l, of ?h] by simp
    have "pads (encode_loop r) \<le> 2" by (simp add: pads_def)
    with 1 False l show ?thesis unfolding p by (simp add: encode_loop_length)
  qed
next
  case (2 a b)
  have "enc_char (push_bit 2 (schar b AND 0xF)) \<noteq> CHR ''=''"
    using enc_not_pad(3) [of b NUL] by (simp only: enc_NUL not_False_eq_True)
  then show ?case by (simp add: pads_def)
next
  case (3 a)
  then show ?case by (simp add: pads_def)
qed simp

text \<open>C33: decoding what was encoded gives the bytes back, for every string of at least two bytes.\<close>

theorem base64_roundtrip:
  assumes "2 \<le> length data"
  shows "\<exists>t. Base64_Encode data = Inr t \<and> length t = 4 * ((length data + 2) div 3) \<and>
    Base64_Decode t = Inr data"
proof -
  let ?t = "encode_loop data"
  have ne: "data \<noteq> []" using assms by auto
  have l: "length ?t mod 4 = 0" "length ?t \<noteq> 0" using assms by (simp_all add: encode_loop_length)
  have o: "length ?t div 4 * 3 - (if ?t ! (length ?t - 1) = CHR ''='' then 1 else 0)
      - (if ?t ! (length ?t - 2) = CHR ''='' then 1 else 0) = length data"
    using out_len [OF ne] by (simp add: pads_def)
  have "Base64_Decode ?t = Inr data"
    using l decode_encode_loop [of "length data" "[]" data] unfolding Base64_Decode_def Let_def o by simp
  then show ?thesis using assms encode_loop_length by (auto simp: Base64_Encode_def)
qed

theorem base64_roundtrip_witness:
  "\<exists>t. Base64_Encode ''ab'' = Inr t \<and> length t = 4 \<and> Base64_Decode t = Inr ''ab''"
  using base64_roundtrip [of "''ab''"] by simp

end
