(* ===== verification/Geohash.thy ===== *)
theory Geohash
  imports Crow_Json
begin

text \<open>
  Geohashes, \<^verbatim>\<open>src/geohash.cpp\<close>: \<open>geohash_encode\<close>, \<open>geohash_decode\<close>, \<open>get_neighbor\<close>,
  \<open>geohash_neighbors\<close> and \<open>geohash_dimensions_for_precision\<close>. The intervals are halved in doubles,
  which is exact for hashes of up to 12 letters, so they are rational numbers here. The buffers of
  \<open>get_neighbor\<close> are one byte too small; \<open>usable\<close> maps the size of a request to what \<^verbatim>\<open>malloc\<close>
  really provides, and writing beyond that is undefined.
\<close>

section \<open>Alphabet\<close>

definition char_map :: string where
  "char_map = ''0123456789bcdefghjkmnpqrstuvwxyz''"

text \<open>The result is unsigned: a letter that is not found gives the largest number.\<close>

definition NOT_FOUND :: int where "NOT_FOUND = 4294967295"

fun index_from :: "char \<Rightarrow> string \<Rightarrow> int \<Rightarrow> int" where
  "index_from c [] i = NOT_FOUND"
| "index_from c (x # xs) i = (if c = x then i else index_from c xs (i + 1))"

definition index_for_char :: "char \<Rightarrow> string \<Rightarrow> int" where
  "index_for_char c xs = index_from c xs 0"

section \<open>Encoding\<close>

type_synonym interval = "rat \<times> rat"

record bisection =
  lng_interval :: interval
  lat_interval :: interval
  is_even :: bool

definition whole_world :: bisection where
  "whole_world = \<lparr>lng_interval = (-180, 180), lat_interval = (-90, 90), is_even = True\<rparr>"

text \<open>Half of the current interval: the upper half when the bit is set. The two forms are those of
  the encoder, with the middle, and of the decoder, with the half width.\<close>

definition mid :: "interval \<Rightarrow> rat" where
  "mid iv = (fst iv + snd iv) / 2"

definition half_mid :: "bool \<Rightarrow> interval \<Rightarrow> interval" where
  "half_mid b iv = (if b then (mid iv, snd iv) else (fst iv, mid iv))"

definition half_delta :: "bool \<Rightarrow> interval \<Rightarrow> interval" where
  "half_delta b iv = (let delta = (snd iv - fst iv) / 2 in
     if b then (fst iv + delta, snd iv) else (fst iv, snd iv - delta))"

definition bisect_with :: "(bool \<Rightarrow> interval \<Rightarrow> interval) \<Rightarrow> bool \<Rightarrow> bisection \<Rightarrow> bisection" where
  "bisect_with half b s =
     (if is_even s then s\<lparr>lng_interval := half b (lng_interval s), is_even := False\<rparr>
      else s\<lparr>lat_interval := half b (lat_interval s), is_even := True\<rparr>)"

type_synonym encoding = "bisection \<times> nat \<times> string"

definition encode_bit :: "rat \<Rightarrow> rat \<Rightarrow> nat \<Rightarrow> encoding \<Rightarrow> encoding" where
  "encode_bit lat lng i e =
     (case e of (s, hashChar, hash) \<Rightarrow>
        let (interval, coord) = (if is_even s then (lng_interval s, lng) else (lat_interval s, lat));
            b = (coord > mid interval);
            hc = (if b then hashChar * 2 + 1 else hashChar * 2);
            s' = bisect_with half_mid b s
        in if i mod 5 = 0 then (s', 0, hash @ [char_map ! hc]) else (s', hc, hash))"

definition encode_letters :: "rat \<Rightarrow> rat \<Rightarrow> nat \<Rightarrow> encoding" where
  "encode_letters lat lng n = fold (encode_bit lat lng) [1..<5 * n + 1] (whole_world, 0, [])"

fun finite_value :: "double \<Rightarrow> rat option" where
  "finite_value (Fin r) = Some r"
| "finite_value NegZero = Some 0"
| "finite_value _ = None"

definition used_precision :: "int \<Rightarrow> nat" where
  "used_precision precision = (if precision < 1 \<or> precision > 12 then 6 else nat precision)"

text \<open>\<open>None\<close> is the null pointer, the result for coordinates out of range.\<close>

definition geohash_encode :: "double \<Rightarrow> double \<Rightarrow> int \<Rightarrow> string option" where
  "geohash_encode lat lng precision =
     (case (finite_value lat, finite_value lng) of
        (Some la, Some lo) \<Rightarrow>
          if la \<le> 90 \<and> la \<ge> -90 \<and> lo \<le> 180 \<and> lo \<ge> -180
          then Some (snd (snd (encode_letters la lo (used_precision precision)))) else None
      | _ \<Rightarrow> None)"

section \<open>Decoding\<close>

record geo_coord =
  latitude :: rat
  longitude :: rat
  north :: rat
  east :: rat
  south :: rat
  west :: rat
  dimension :: "rat \<times> rat"

text \<open>\<^verbatim>\<open>(char_mapIndex << j) & 0x0010\<close>; the test \<^verbatim>\<open>char_mapIndex < 0\<close> is never true, so a letter
  that is not in the map counts as five set bits.\<close>

definition letter_bit :: "nat \<Rightarrow> nat \<Rightarrow> bool" where
  "letter_bit idx j = odd (idx div 2 ^ (4 - j))"

definition decode_letter :: "nat \<Rightarrow> bisection \<Rightarrow> bisection" where
  "decode_letter idx s = fold (\<lambda>j. bisect_with half_delta (letter_bit idx j)) [0..<5] s"

definition letter_index :: "char \<Rightarrow> nat" where
  "letter_index c = nat (index_for_char c char_map)"

definition decode_letters :: "string \<Rightarrow> bisection \<Rightarrow> bisection" where
  "decode_letters hash s = fold (\<lambda>c. decode_letter (letter_index c)) hash s"

definition geohash_decode :: "string option \<Rightarrow> geo_coord" where
  "geohash_decode hash =
     (case hash of
        None \<Rightarrow> \<lparr>latitude = 0, longitude = 0, north = 0, east = 0, south = 0, west = 0, dimension = (0, 0)\<rparr>
      | Some h \<Rightarrow>
          if h = [] then \<lparr>latitude = 0, longitude = 0, north = 0, east = 0, south = 0, west = 0, dimension = (0, 0)\<rparr>
          else
            (let s = decode_letters h whole_world;
                 (lat_low, lat_high) = lat_interval s; (lng_low, lng_high) = lng_interval s in
             \<lparr>latitude = lat_high - (lat_high - lat_low) / 2,
              longitude = lng_high - (lng_high - lng_low) / 2,
              north = lat_high, east = lng_high, south = lat_low, west = lng_low, dimension = (0, 0)\<rparr>))"

section \<open>Neighbours\<close>

datatype direction = NORTH | EAST | SOUTH | WEST

fun even_neighbors :: "direction \<Rightarrow> string" where
  "even_neighbors NORTH = ''p0r21436x8zb9dcf5h7kjnmqesgutwvy''"
| "even_neighbors EAST = ''bc01fg45238967deuvhjyznpkmstqrwx''"
| "even_neighbors SOUTH = ''14365h7k9dcfesgujnmqp0r2twvyx8zb''"
| "even_neighbors WEST = ''238967debc01fg45kmstqrwxuvhjyznp''"

fun odd_neighbors :: "direction \<Rightarrow> string" where
  "odd_neighbors NORTH = ''bc01fg45238967deuvhjyznpkmstqrwx''"
| "odd_neighbors EAST = ''p0r21436x8zb9dcf5h7kjnmqesgutwvy''"
| "odd_neighbors SOUTH = ''238967debc01fg45kmstqrwxuvhjyznp''"
| "odd_neighbors WEST = ''14365h7k9dcfesgujnmqp0r2twvyx8zb''"

fun even_borders :: "direction \<Rightarrow> string" where
  "even_borders NORTH = ''prxz''"
| "even_borders EAST = ''bcfguvyz''"
| "even_borders SOUTH = ''028b''"
| "even_borders WEST = ''0145hjnp''"

fun odd_borders :: "direction \<Rightarrow> string" where
  "odd_borders NORTH = ''bcfguvyz''"
| "odd_borders EAST = ''prxz''"
| "odd_borders SOUTH = ''0145hjnp''"
| "odd_borders WEST = ''028b''"

text \<open>The result is a text and the usable size of the buffer it is in. The empty hash reads
  \<^verbatim>\<open>hash[-1]\<close>; a letter outside the alphabet reads \<^verbatim>\<open>char_map[-1]\<close>.\<close>

function get_neighbor :: "(nat \<Rightarrow> nat) \<Rightarrow> string \<Rightarrow> direction \<Rightarrow> (string \<times> nat) res" where
  "get_neighbor usable hash dir =
     (if hash = [] then Inl Undefined
      else
        let n = length hash; c = last hash;
            border = (if odd n then odd_borders dir else even_borders dir);
            neighbor = (if odd n then odd_neighbors dir else even_neighbors dir);
            i = index_for_char c neighbor
        in res_bind
             (if index_for_char c border \<noteq> NOT_FOUND then get_neighbor usable (butlast hash) dir
              else Inr (butlast hash, usable n)) (\<lambda>(base, size).
             if i = NOT_FOUND then Inl Undefined
             else if size < length base + 2 then Inl Undefined
             else Inr (base @ [char_map ! nat i], size)))"
  by pat_completeness auto
termination by (relation "measure (\<lambda>(u, h, d). length h)") auto

declare get_neighbor.simps [simp del]

definition geohash_neighbors :: "(nat \<Rightarrow> nat) \<Rightarrow> string \<Rightarrow> string list res" where
  "geohash_neighbors usable hash =
     res_bind (get_neighbor usable hash NORTH) (\<lambda>(n, u0).
     res_bind (get_neighbor usable n EAST) (\<lambda>(ne, u1).
     res_bind (get_neighbor usable hash EAST) (\<lambda>(e, u2).
     res_bind (get_neighbor usable e SOUTH) (\<lambda>(se, u3).
     res_bind (get_neighbor usable hash SOUTH) (\<lambda>(so, u4).
     res_bind (get_neighbor usable so WEST) (\<lambda>(sw, u5).
     res_bind (get_neighbor usable hash WEST) (\<lambda>(w, u6).
     res_bind (get_neighbor usable w NORTH) (\<lambda>(nw, u7).
       Inr [n, ne, e, se, so, sw, w, nw]))))))))"

section \<open>Dimensions\<close>

definition geohash_dimensions_for_precision :: "int \<Rightarrow> rat \<times> rat" where
  "geohash_dimensions_for_precision precision =
     (if precision > 0 then
        let lat_times_to_cut = nat (precision * 5 div 2);
            lng_times_to_cut = nat (precision * 5 div 2 + (if odd precision then 1 else 0))
        in (((\<lambda>h. h / 2) ^^ lat_times_to_cut) 180, ((\<lambda>w. w / 2) ^^ lng_times_to_cut) 360)
      else (0, 0))"

end
