(* ===== verification/Geo.thy ===== *)
theory Geo
  imports Scan Geohash
begin

text \<open>
  The geo operations of \<^verbatim>\<open>src/quarks.cpp\<close>: \<open>sanitizelatlng\<close>, \<open>Core::geoput\<close>, \<open>geodistance\<close>
  and \<open>Core::geonear\<close>. A point is stored under its geohash of eight letters, an underscore and its
  key; a query lists the keys that begin with the hash of the query point, cut to a precision, or
  with one of the eight hashes around it, and keeps the points within the radius. Rounding
  arithmetic and trigonometry on doubles are parameters. The hash is allocated with \<^verbatim>\<open>malloc\<close>
  and released with \<^verbatim>\<open>delete []\<close>; the model assumes that this does no harm.
\<close>

section \<open>Doubles\<close>

record float_ops =
  fp_add :: "double \<Rightarrow> double \<Rightarrow> double"
  fp_sub :: "double \<Rightarrow> double \<Rightarrow> double"
  fp_mul :: "double \<Rightarrow> double \<Rightarrow> double"
  fp_div :: "double \<Rightarrow> double \<Rightarrow> double"
  fp_sin :: "double \<Rightarrow> double"
  fp_cos :: "double \<Rightarrow> double"
  fp_acos :: "double \<Rightarrow> double"

fun double_less :: "double \<Rightarrow> double \<Rightarrow> bool" where
  "double_less (Fin a) (Fin b) = (a < b)"
| "double_less (Fin a) NegZero = (a < 0)"
| "double_less NegZero (Fin b) = (0 < b)"
| "double_less NegZero NegZero = False"
| "double_less NaN b = False"
| "double_less a NaN = False"
| "double_less NInf b = (b \<noteq> NInf)"
| "double_less a PInf = (a \<noteq> PInf)"
| "double_less PInf b = False"
| "double_less a NInf = False"

definition double_le :: "double \<Rightarrow> double \<Rightarrow> bool" where
  "double_le a b = (double_less a b \<or> double_eq a b)"

definition sanitize :: "rat \<Rightarrow> double \<Rightarrow> double" where
  "sanitize bound a =
     (if double_less (Fin bound) a then Fin bound else if double_less a (Fin (- bound)) then Fin (- bound) else a)"

definition sanitizelatlng :: "double \<Rightarrow> double \<Rightarrow> double \<times> double" where
  "sanitizelatlng lat lng = (sanitize 90 lat, sanitize 180 lng)"

text \<open>The double nearest to the literal.\<close>

definition pi_double :: double where
  "pi_double = Fin (884279719003555 / 281474976710656)"

definition toRad :: "float_ops \<Rightarrow> double \<Rightarrow> double" where
  "toRad F degree = fp_mul F (fp_div F degree (Fin 180)) pi_double"

definition geodistance :: "float_ops \<Rightarrow> double \<Rightarrow> double \<Rightarrow> double \<Rightarrow> double \<Rightarrow> double" where
  "geodistance F lat1 long1 lat2 long2 =
     (let dist = fp_add F
            (fp_mul F (fp_sin F (toRad F lat1)) (fp_sin F (toRad F lat2)))
            (fp_mul F (fp_mul F (fp_cos F (toRad F lat1)) (fp_cos F (toRad F lat2)))
               (fp_cos F (toRad F (fp_sub F long1 long2))));
          dist = fp_acos F dist
      in fp_mul F (Fin 6371) dist)"

section \<open>Storing a point\<close>

text \<open>An optional number of a body.\<close>

definition double_or :: "lib \<Rightarrow> rvalue \<Rightarrow> string \<Rightarrow> double \<Rightarrow> double res" where
  "double_or L x k d = res_bind (r_has x k) (\<lambda>has. if has then res_bind (r_get x k) (r_d L) else Inr d)"

text \<open>\<^verbatim>\<open>std::string\<close> made of the hash; the null pointer is undefined.\<close>

definition hash_string :: "double \<Rightarrow> double \<Rightarrow> string res" where
  "hash_string lat lng = (case geohash_encode lat lng 8 of Some h \<Rightarrow> Inr h | None \<Rightarrow> Inl Undefined)"

definition with_key :: "rvalue \<Rightarrow> (string \<times> wvalue) res" where
  "with_key x = res_bind (r_has x ''key'') (\<lambda>has.
     if has then res_bind (res_bind (r_get x ''key'') r_s) (\<lambda>k. Inr (k, w_set WNull ''key'' (WString k)))
     else Inr ([], WNull))"

definition with_value :: "lib \<Rightarrow> rvalue \<Rightarrow> wvalue \<Rightarrow> wvalue res" where
  "with_value L x w = res_bind (r_has x ''value'') (\<lambda>has.
     if has then res_bind (res_bind (r_get x ''value'') (wvalue_of_rvalue L)) (\<lambda>v. Inr (w_set w ''value'' v))
     else Inr w)"

definition geo_entry :: "lib \<Rightarrow> rvalue \<Rightarrow> (string \<times> wvalue) res" where
  "geo_entry L x =
     res_bind (with_key x) (\<lambda>(key, w).
     res_bind (with_value L x w) (\<lambda>w.
     res_bind (double_or L x ''lat'' (Fin 0)) (\<lambda>lat.
     res_bind (double_or L x ''lng'' (Fin 0)) (\<lambda>lng.
       let (lat, lng) = sanitizelatlng lat lng; w = w_set (w_set w ''lat'' (WNumber lat)) ''lng'' (WNumber lng) in
       res_bind (hash_string lat lng) (\<lambda>hash.
         Inr (hash @ ''_'' @ key, w_set w ''hash'' (WString hash)))))))"

definition geoput :: "'db rocks \<Rightarrow> lib \<Rightarrow> string \<Rightarrow> ('db, bool \<times> string) op" where
  "geoput R L body s =
     (case load body of
        None \<Rightarrow> (Inr (False, ''{\"error\": \"Invalid geoput body\"}''), s)
      | Some x \<Rightarrow>
          (case geo_entry L x of
             Inl e \<Rightarrow> (Inl e, s)
           | Inr (hash_key, w) \<Rightarrow> (let (r, s') = dump R L hash_key (dump_json L w) s in (Inr r, s'))))"

section \<open>Finding points\<close>

definition radius_precision :: "double \<Rightarrow> int" where
  "radius_precision radius =
     (if double_less radius (Fin 1) then 6 else if double_less radius (Fin 10) then 5
      else if double_less radius (Fin 40) then 4 else if double_less radius (Fin 300) then 3
      else if double_less radius (Fin 1000) then 2 else 1)"

definition near_precision :: "lib \<Rightarrow> rvalue \<Rightarrow> double \<Rightarrow> int res" where
  "near_precision L x radius = res_bind (r_has x ''precision'') (\<lambda>has.
     if has then res_bind (res_bind (r_get x ''precision'') (r_i L)) (\<lambda>i. Inr (wrap32 i))
     else Inr (radius_precision radius))"

definition keys_filter :: "rvalue \<Rightarrow> string res" where
  "keys_filter x = res_bind (r_has x ''keys'') (\<lambda>has.
     if has then res_bind (res_bind (r_get x ''keys'') r_s) (\<lambda>keys. Inr (''_'' @ keys)) else Inr [])"

text \<open>The buffer of \<open>hashNeighs\<close> has 128 bytes; \<open>strncpy\<close> fills all of the length it is given.\<close>

definition near_prefixes :: "(nat \<Rightarrow> nat) \<Rightarrow> string \<Rightarrow> int \<Rightarrow> string \<Rightarrow> string list res" where
  "near_prefixes usable hash precision keysFilter =
     (if precision < 0 \<or> 127 < precision then Inl Undefined
      else let cut = take (nat precision) hash in
        res_bind (geohash_neighbors usable cut) (\<lambda>neighs.
          Inr (map (\<lambda>h. h @ ''*'' @ keysFilter) (cut # neighs))))"

text \<open>The filter passed to \<open>getAll\<close>; the distance is added to the entries that pass.\<close>

definition near_filter ::
    "float_ops \<Rightarrow> lib \<Rightarrow> double \<Rightarrow> double \<Rightarrow> double \<Rightarrow> rvalue option \<Rightarrow> wvalue \<Rightarrow> (bool \<times> wvalue) res" where
  "near_filter F L lat lng radius input w =
     (case input of
        None \<Rightarrow> Inr (False, w)
      | Some x \<Rightarrow>
          res_bind (double_or L x ''lat'' (Fin 0)) (\<lambda>xlat.
          res_bind (double_or L x ''lng'' (Fin 0)) (\<lambda>xlng.
            let d = geodistance F lat lng xlat xlng in
            if double_le d radius then Inr (True, w_set w ''far'' (WNumber d)) else Inr (False, w))))"

text \<open>The parameters of a query: the point, the radius, the precision and the filter of the keys.\<close>

type_synonym near_query = "double \<times> double \<times> double \<times> int \<times> string"

definition near_params :: "lib \<Rightarrow> rvalue \<Rightarrow> near_query res" where
  "near_params L x =
     res_bind (double_or L x ''lat'' (Fin 0)) (\<lambda>lat.
     res_bind (double_or L x ''lng'' (Fin 0)) (\<lambda>lng.
     let (lat, lng) = sanitizelatlng lat lng in
     res_bind (double_or L x ''radius'' (Fin 5)) (\<lambda>radius.
     res_bind (near_precision L x radius) (\<lambda>precision.
     res_bind (keys_filter x) (\<lambda>keysFilter. Inr (lat, lng, radius, precision, keysFilter))))))"

type_synonym geo_reply = "(bool \<times> wvalue list) \<times> wvalue"

definition geonear ::
    "'db rocks \<Rightarrow> lib \<Rightarrow> float_ops \<Rightarrow> (nat \<Rightarrow> nat) \<Rightarrow> string \<Rightarrow> wvalue \<Rightarrow> wvalue list \<Rightarrow> int \<Rightarrow> int \<Rightarrow>
     'db core \<Rightarrow> geo_reply res" where
  "geonear R L F usable body out rs skip limit s =
     (case load body of
        None \<Rightarrow> Inr ((False, rs), w_set out ''error'' (WString ''invalid geonear body''))
      | Some x \<Rightarrow>
          res_bind (near_params L x) (\<lambda>(lat, lng, radius, precision, keysFilter).
          res_bind (hash_string lat lng) (\<lambda>hash.
          res_bind (near_prefixes usable hash precision keysFilter) (\<lambda>prefixes.
          res_bind (getAll_filtered R L prefixes rs (near_filter F L lat lng radius) skip limit s) (\<lambda>r.
            Inr (r, out))))))"

end
