(* ===== verification/Geohash_Props.thy ===== *)
theory Geohash_Props
  imports Geohash
begin

text \<open>
  Properties of the geohash functions: the box a hash decodes to contains the point it was made
  from and has the advertised size; a coarser hash is a prefix of a finer one; encoding the centre
  of a box gives its hash back; the tables of \<open>get_neighbor\<close> lead to the adjacent box.
\<close>

section \<open>Bits of a letter\<close>

definition bits_value :: "bool \<Rightarrow> bool \<Rightarrow> bool \<Rightarrow> bool \<Rightarrow> bool \<Rightarrow> nat" where
  "bits_value a b c d e = 16 * of_bool a + 8 * of_bool b + 4 * of_bool c + 2 * of_bool d + of_bool e"

lemma letter_bits:
  "letter_bit (bits_value a b c d e) 0 = a" "letter_bit (bits_value a b c d e) 1 = b"
  "letter_bit (bits_value a b c d e) 2 = c" "letter_bit (bits_value a b c d e) 3 = d"
  "letter_bit (bits_value a b c d e) 4 = e"
  by (cases a; cases b; cases c; cases d; cases e; simp add: bits_value_def letter_bit_def)+

lemma bits_value_less: "bits_value a b c d e < 32"
  by (cases a; cases b; cases c; cases d; cases e; simp add: bits_value_def)

lemma bits_of_value:
  "v < 32 \<Longrightarrow> v = bits_value (letter_bit v 0) (letter_bit v 1) (letter_bit v 2) (letter_bit v 3) (letter_bit v 4)"
proof -
  assume "v < 32"
  have step: "w = 2 * (w div 2) + of_bool (odd w)" for w :: nat
    by (simp add: of_bool_odd_eq_mod_2)
  have "v div 16 = of_bool (odd (v div 16))" using \<open>v < 32\<close> step [of "v div 16"]
    by (simp add: div_mult2_eq [symmetric])
  then show ?thesis using step [of "v"] step [of "v div 2"] step [of "v div 4"] step [of "v div 8"]
    by (simp add: bits_value_def letter_bit_def div_mult2_eq [symmetric])
qed

lemma halves_agree: "half_delta = half_mid"
  by (intro ext) (auto simp: half_delta_def half_mid_def mid_def Let_def field_simps)

abbreviation turn :: "bool \<Rightarrow> bisection \<Rightarrow> bisection" where
  "turn \<equiv> bisect_with half_mid"

lemma decode_letter_turns:
  "decode_letter v s =
    turn (letter_bit v 4) (turn (letter_bit v 3) (turn (letter_bit v 2) (turn (letter_bit v 1) (turn (letter_bit v 0) s))))"
  by (simp add: decode_letter_def halves_agree upt_rec numeral_eq_Suc)

lemma index_from_nth: "distinct xs \<Longrightarrow> v < length xs \<Longrightarrow> index_from (xs ! v) xs i = i + int v"
proof (induction xs arbitrary: v i)
  case (Cons x xs)
  then show ?case by (cases v) auto
qed simp

lemma alphabet: "distinct char_map" "length char_map = 32"
  by (simp_all add: char_map_def)

lemma alphabet_index: "v < 32 \<Longrightarrow> letter_index (char_map ! v) = v"
  by (simp add: letter_index_def index_for_char_def index_from_nth alphabet)

lemma alphabet_letter:
  assumes "c \<in> set char_map"
  shows "letter_index c < 32" and "char_map ! letter_index c = c"
proof -
  obtain v where v: "v < 32" "c = char_map ! v" using assms unfolding in_set_conv_nth alphabet by metis
  then show "letter_index c < 32" "char_map ! letter_index c = c"
    by (simp_all add: alphabet_index)
qed

section \<open>Encoding letter by letter\<close>

definition side :: "rat \<Rightarrow> rat \<Rightarrow> bisection \<Rightarrow> bool" where
  "side lat lng s = (if is_even s then mid (lng_interval s) < lng else mid (lat_interval s) < lat)"

lemma encode_bit_side:
  "encode_bit lat lng i (s, hc, h) =
    (let b = side lat lng s; v = 2 * hc + of_bool b in
     if i mod 5 = 0 then (turn b s, 0, h @ [char_map ! v]) else (turn b s, v, h))"
  by (auto simp: encode_bit_def side_def Let_def mult.commute)

fun letter_at :: "rat \<Rightarrow> rat \<Rightarrow> bisection \<Rightarrow> nat" where
  "letter_at lat lng s =
    (let a = side lat lng s; s1 = turn a s; b = side lat lng s1; s2 = turn b s1; c = side lat lng s2;
         s3 = turn c s2; d = side lat lng s3; s4 = turn d s3 in
     bits_value a b c d (side lat lng s4))"

declare letter_at.simps [simp del]

lemma letter_at_less: "letter_at lat lng s < 32"
  by (simp add: letter_at.simps Let_def bits_value_less)

lemma five_bits:
  "fold (encode_bit lat lng) [5 * k + 1..<5 * Suc k + 1] (s, 0, h) =
    (decode_letter (letter_at lat lng s) s, 0, h @ [char_map ! letter_at lat lng s])"
proof -
  have range: "[5 * k + 1..<5 * Suc k + 1] = [5 * k + 1, 5 * k + 2, 5 * k + 3, 5 * k + 4, 5 * k + 5]"
    by (simp add: upt_rec)
  have mods: "(5 * k + 1) mod 5 \<noteq> 0" "(5 * k + 2) mod 5 \<noteq> 0" "(5 * k + 3) mod 5 \<noteq> 0"
    "(5 * k + 4) mod 5 \<noteq> 0" "(5 * k + 5) mod 5 = 0" by presburger+
  show ?thesis
    unfolding range letter_at.simps decode_letter_turns Let_def letter_bits fold_simps o_apply id_apply
      encode_bit_side if_not_P [OF mods(1)] if_not_P [OF mods(2)] if_not_P [OF mods(3)]
      if_not_P [OF mods(4)] if_P [OF mods(5)]
    by (simp add: bits_value_def algebra_simps)
qed

fun letters :: "rat \<Rightarrow> rat \<Rightarrow> nat \<Rightarrow> bisection \<Rightarrow> string" where
  "letters lat lng 0 s = []"
| "letters lat lng (Suc n) s =
     char_map ! letter_at lat lng s # letters lat lng n (decode_letter (letter_at lat lng s) s)"

lemma decode_Cons:
  "decode_letters (c # h) s = decode_letters h (decode_letter (letter_index c) s)"
  by (simp add: decode_letters_def)

lemma decode_snoc:
  "decode_letters (h @ [c]) s = decode_letter (letter_index c) (decode_letters h s)"
  by (simp add: decode_letters_def)

lemma upt_split: "i \<le> j \<Longrightarrow> j \<le> k \<Longrightarrow> [i..<k] = [i..<j] @ [j..<k]"
  using upt_add_eq_append [of i j "k - j"] by simp

lemma encode_from:
  "fold (encode_bit lat lng) [5 * k + 1..<5 * (k + n) + 1] (s, 0, h) =
    (decode_letters (letters lat lng n s) s, 0, h @ letters lat lng n s)"
proof (induction n arbitrary: k s h)
  case 0
  then show ?case by (simp add: decode_letters_def)
next
  case (Suc n)
  have range: "[5 * k + 1..<5 * (k + Suc n) + 1] = [5 * k + 1..<5 * Suc k + 1] @ [5 * Suc k + 1..<5 * (Suc k + n) + 1]"
    unfolding add_Suc_right add_Suc by (rule upt_split) simp_all
  show ?case unfolding range fold_append o_apply five_bits Suc.IH
    by (simp add: decode_Cons alphabet_index [OF letter_at_less])
qed

lemma encode_letters_eq:
  "encode_letters lat lng n =
    (decode_letters (letters lat lng n whole_world) whole_world, 0, letters lat lng n whole_world)"
  using encode_from [of lat lng 0 n whole_world "[]"] by (simp add: encode_letters_def)

lemma length_letters: "length (letters lat lng n s) = n"
  by (induction n arbitrary: s) simp_all

lemma take_letters: "m \<le> n \<Longrightarrow> take m (letters lat lng n s) = letters lat lng m s"
proof (induction n arbitrary: m s)
  case (Suc n)
  then show ?case by (cases m) simp_all
qed simp

lemma used_precision_less: "used_precision p \<noteq> 0"
  by (auto simp: used_precision_def)

lemma encode_in_range:
  "\<bar>lat\<bar> \<le> 90 \<Longrightarrow> \<bar>lng\<bar> \<le> 180 \<Longrightarrow>
    geohash_encode (Fin lat) (Fin lng) p = Some (letters lat lng (used_precision p) whole_world)"
  by (simp add: geohash_encode_def encode_letters_eq abs_le_iff)

section \<open>The box of a hash\<close>

definition width_of :: "bisection \<Rightarrow> rat" where
  "width_of s = snd (lng_interval s) - fst (lng_interval s)"

definition height_of :: "bisection \<Rightarrow> rat" where
  "height_of s = snd (lat_interval s) - fst (lat_interval s)"

definition proper :: "bisection \<Rightarrow> bool" where
  "proper s = (0 < width_of s \<and> 0 < height_of s)"

definition covers :: "rat \<Rightarrow> rat \<Rightarrow> bisection \<Rightarrow> bool" where
  "covers lat lng s =
     (fst (lat_interval s) \<le> lat \<and> lat \<le> snd (lat_interval s) \<and>
      fst (lng_interval s) \<le> lng \<and> lng \<le> snd (lng_interval s))"

definition owns :: "rat \<Rightarrow> rat \<Rightarrow> bisection \<Rightarrow> bool" where
  "owns lat lng s =
     (fst (lat_interval s) < lat \<and> lat \<le> snd (lat_interval s) \<and>
      fst (lng_interval s) < lng \<and> lng \<le> snd (lng_interval s))"

named_theorems boxes
declare bisect_with_def [boxes] half_mid_def [boxes] mid_def [boxes] width_of_def [boxes]
  height_of_def [boxes]

lemma turn_even: "is_even (turn b s) = (\<not> is_even s)"
  by (simp add: bisect_with_def)

lemma turn_width: "width_of (turn b s) = (if is_even s then width_of s / 2 else width_of s)"
  by (simp add: boxes field_simps)

lemma turn_height: "height_of (turn b s) = (if is_even s then height_of s else height_of s / 2)"
  by (simp add: boxes field_simps)

lemma turn_proper: "proper s \<Longrightarrow> proper (turn b s)"
  by (simp add: proper_def turn_width turn_height)

lemma turn_covers: "covers lat lng s \<Longrightarrow> covers lat lng (turn (side lat lng s) s)"
  by (auto simp: covers_def side_def boxes)

lemma owns_turn:
  "proper s \<Longrightarrow> owns lat lng (turn b s) \<Longrightarrow> owns lat lng s \<and> side lat lng s = b"
  by (auto simp: owns_def side_def proper_def boxes field_simps split: if_splits)

lemma letter_even: "is_even (decode_letter v s) = (\<not> is_even s)"
  by (simp add: decode_letter_turns turn_even)

lemma letter_proper: "proper s \<Longrightarrow> proper (decode_letter v s)"
  by (simp add: decode_letter_turns turn_proper)

lemma letter_size:
  "width_of (decode_letter v s) = width_of s / (if is_even s then 8 else 4)"
  "height_of (decode_letter v s) = height_of s / (if is_even s then 4 else 8)"
  by (simp_all add: decode_letter_turns turn_width turn_height turn_even)

lemma letter_at_bits:
  "decode_letter (letter_at lat lng s) s =
    (let a = side lat lng s; s1 = turn a s; b = side lat lng s1; s2 = turn b s1; c = side lat lng s2;
         s3 = turn c s2; d = side lat lng s3; s4 = turn d s3 in turn (side lat lng s4) s4)"
  unfolding decode_letter_turns letter_at.simps Let_def letter_bits ..

lemma letter_covers: "covers lat lng s \<Longrightarrow> covers lat lng (decode_letter (letter_at lat lng s) s)"
  by (simp add: letter_at_bits Let_def turn_covers)

lemma letters_cover: "covers lat lng s \<Longrightarrow> covers lat lng (decode_letters (letters lat lng n s) s)"
proof (induction n arbitrary: s)
  case 0
  then show ?case by (simp add: decode_letters_def)
next
  case (Suc n)
  then show ?case by (simp add: decode_Cons alphabet_index [OF letter_at_less] letter_covers)
qed

lemma letters_proper: "proper s \<Longrightarrow> proper (decode_letters h s)"
  by (induction h arbitrary: s) (simp_all add: decode_letters_def letter_proper)

lemma letters_even: "is_even (decode_letters h s) = (is_even s = even (length h))"
  by (induction h arbitrary: s) (auto simp: decode_letters_def letter_even)

lemma whole_world_facts:
  "is_even whole_world" "width_of whole_world = 360" "height_of whole_world = 180" "proper whole_world"
  by (simp_all add: whole_world_def width_of_def height_of_def proper_def)

lemma halved: "((\<lambda>x::rat. x / 2) ^^ n) a = a / 2 ^ n"
  by (induction n arbitrary: a) (simp_all add: field_simps)

lemma letters_size:
  "width_of (decode_letters h whole_world) = 360 / 2 ^ ((5 * length h + 1) div 2)"
  "height_of (decode_letters h whole_world) = 180 / 2 ^ (5 * length h div 2)"
proof (induction h rule: rev_induct)
  case Nil
  { case 1 show ?case by (simp add: decode_letters_def whole_world_facts) }
  { case 2 show ?case by (simp add: decode_letters_def whole_world_facts) }
next
  case (snoc c h)
  have exps: "even n \<Longrightarrow> (5 * (n + 1) + 1) div 2 = (5 * n + 1) div 2 + 3"
    "even n \<Longrightarrow> 5 * (n + 1) div 2 = 5 * n div 2 + 2"
    "odd n \<Longrightarrow> (5 * (n + 1) + 1) div 2 = (5 * n + 1) div 2 + 2"
    "odd n \<Longrightarrow> 5 * (n + 1) div 2 = 5 * n div 2 + 3" for n :: nat
    by presburger+
  { case 1 show ?case
      by (cases "even (length h)") (simp_all add: decode_snoc letter_size letters_even whole_world_facts snoc
          exps [simplified] power_add) }
  { case 2 show ?case
      by (cases "even (length h)") (simp_all add: decode_snoc letter_size letters_even whole_world_facts snoc
          exps [simplified] power_add) }
qed

lemma decode_box:
  assumes "h \<noteq> []"
  defines "s \<equiv> decode_letters h whole_world"
  shows "south (geohash_decode (Some h)) = fst (lat_interval s)"
    "north (geohash_decode (Some h)) = snd (lat_interval s)"
    "west (geohash_decode (Some h)) = fst (lng_interval s)"
    "east (geohash_decode (Some h)) = snd (lng_interval s)"
    "latitude (geohash_decode (Some h)) = mid (lat_interval s)"
    "longitude (geohash_decode (Some h)) = mid (lng_interval s)"
    "dimension (geohash_decode (Some h)) = (0, 0)"
  using assms(1) by (simp_all add: geohash_decode_def mid_def split_beta Let_def s_def field_simps)

lemma dimensions_eq:
  "0 < n \<Longrightarrow> geohash_dimensions_for_precision (int n) =
    (180 / 2 ^ (5 * n div 2), 360 / 2 ^ ((5 * n + 1) div 2))"
proof -
  assume n: "0 < n"
  have "nat (int n * 5 div 2) = 5 * n div 2"
    and "nat (int n * 5 div 2 + (if odd (int n) then 1 else 0)) = (5 * n + 1) div 2"
    by (auto simp: nat_eq_iff zdiv_int elim!: evenE oddE)
  then show ?thesis using n by (simp only: geohash_dimensions_for_precision_def halved Let_def of_nat_0_less_iff if_True)
qed

text \<open>C37: encoding a point of the globe gives a hash of the requested length; the box it decodes to
  contains the point and has exactly the height and width the program states for that precision, which
  are degrees of latitude and longitude, not metres.\<close>

theorem geohash_box:
  assumes "\<bar>lat\<bar> \<le> 90" "\<bar>lng\<bar> \<le> 180"
  shows "\<exists>h. geohash_encode (Fin lat) (Fin lng) p = Some h \<and> length h = used_precision p \<and>
    south (geohash_decode (Some h)) \<le> lat \<and> lat \<le> north (geohash_decode (Some h)) \<and>
    west (geohash_decode (Some h)) \<le> lng \<and> lng \<le> east (geohash_decode (Some h)) \<and>
    (north (geohash_decode (Some h)) - south (geohash_decode (Some h)),
     east (geohash_decode (Some h)) - west (geohash_decode (Some h))) =
      geohash_dimensions_for_precision (int (used_precision p))"
proof -
  define h where "h = letters lat lng (used_precision p) whole_world"
  have len: "length h = used_precision p" by (simp add: h_def length_letters)
  have ne: "h \<noteq> []" using len used_precision_less [of p] by auto
  have "covers lat lng (decode_letters h whole_world)" unfolding h_def
    by (rule letters_cover) (use assms in \<open>auto simp: covers_def whole_world_def abs_le_iff\<close>)
  moreover have "0 < used_precision p" using used_precision_less [of p] by simp
  ultimately show ?thesis using encode_in_range [OF assms, of p] ne len letters_size [of h]
    by (intro exI [of _ h]) (simp add: decode_box h_def [symmetric] covers_def dimensions_eq width_of_def height_of_def)
qed

theorem geohash_box_witness:
  "\<exists>h. geohash_encode (Fin 23) (Fin 90) 8 = Some h \<and> length h = used_precision 8 \<and>
    south (geohash_decode (Some h)) \<le> 23 \<and> 23 \<le> north (geohash_decode (Some h)) \<and>
    west (geohash_decode (Some h)) \<le> 90 \<and> 90 \<le> east (geohash_decode (Some h)) \<and>
    (north (geohash_decode (Some h)) - south (geohash_decode (Some h)),
     east (geohash_decode (Some h)) - west (geohash_decode (Some h))) =
      geohash_dimensions_for_precision (int (used_precision 8))"
  by (rule geohash_box) simp_all

text \<open>A coarser hash of a point is a prefix of a finer one; this is what lets the program find
  the stored points of a box by the prefix of their keys.\<close>

theorem geohash_prefix:
  assumes "1 \<le> q" "q \<le> p" "p \<le> 12"
  shows "geohash_encode lat lng q = map_option (take (nat q)) (geohash_encode lat lng p)"
proof -
  have "used_precision q = nat q" "used_precision p = nat p" "nat q \<le> nat p"
    using assms by (simp_all add: used_precision_def)
  then show ?thesis
    by (simp add: geohash_encode_def encode_letters_eq take_letters split: option.splits)
qed

theorem geohash_prefix_witness:
  "geohash_encode (Fin 23) (Fin 90) 4 = map_option (take (nat 4)) (geohash_encode (Fin 23) (Fin 90) 8)"
  by (rule geohash_prefix) simp_all

section \<open>Encoding a centre\<close>

lemma owns_letter:
  assumes "proper s" "v < 32" "owns lat lng (decode_letter v s)"
  shows "owns lat lng s \<and> letter_at lat lng s = v"
proof -
  define s1 where "s1 = turn (letter_bit v 0) s"
  define s2 where "s2 = turn (letter_bit v 1) s1"
  define s3 where "s3 = turn (letter_bit v 2) s2"
  define s4 where "s4 = turn (letter_bit v 3) s3"
  have pr: "proper s1" "proper s2" "proper s3" "proper s4"
    using assms(1) by (simp_all add: s1_def s2_def s3_def s4_def turn_proper)
  have "owns lat lng (turn (letter_bit v 4) s4)"
    using assms(3) by (simp add: decode_letter_turns s1_def s2_def s3_def s4_def)
  from owns_turn [OF pr(4) this] have b4: "owns lat lng s4" "side lat lng s4 = letter_bit v 4" by simp_all
  from owns_turn [OF pr(3) b4(1) [unfolded s4_def]]
  have b3: "owns lat lng s3" "side lat lng s3 = letter_bit v 3" by simp_all
  from owns_turn [OF pr(2) b3(1) [unfolded s3_def]]
  have b2: "owns lat lng s2" "side lat lng s2 = letter_bit v 2" by simp_all
  from owns_turn [OF pr(1) b2(1) [unfolded s2_def]]
  have b1: "owns lat lng s1" "side lat lng s1 = letter_bit v 1" by simp_all
  from owns_turn [OF assms(1) b1(1) [unfolded s1_def]]
  have b0: "owns lat lng s" "side lat lng s = letter_bit v 0" by simp_all
  have "letter_at lat lng s = bits_value (letter_bit v 0) (letter_bit v 1) (letter_bit v 2) (letter_bit v 3) (letter_bit v 4)"
    unfolding letter_at.simps Let_def b0(2) s1_def [symmetric] b1(2) s2_def [symmetric] b2(2)
      s3_def [symmetric] b3(2) s4_def [symmetric] b4(2) ..
  then show ?thesis using b0(1) bits_of_value [OF assms(2)] by simp
qed

lemma owns_letters:
  "proper s \<Longrightarrow> set h \<subseteq> set char_map \<Longrightarrow> owns lat lng (decode_letters h s) \<Longrightarrow>
    owns lat lng s \<and> letters lat lng (length h) s = h"
proof (induction h arbitrary: s)
  case Nil
  then show ?case by (simp add: decode_letters_def)
next
  case (Cons c h)
  let ?v = "letter_index c"
  have c: "?v < 32" "char_map ! ?v = c" using alphabet_letter [of c] Cons.prems(2) by simp_all
  have sub: "owns lat lng (decode_letter ?v s)" "letters lat lng (length h) (decode_letter ?v s) = h"
    using Cons.IH [OF letter_proper [OF Cons.prems(1)]] Cons.prems by (simp_all add: decode_Cons)
  from owns_letter [OF Cons.prems(1) c(1) sub(1)] show ?case using sub(2) c(2) by simp
qed

lemma centre_in: "proper s \<Longrightarrow> owns (mid (lat_interval s)) (mid (lng_interval s)) s"
  by (simp add: owns_def proper_def boxes field_simps)

text \<open>C36: encoding the centre of the box of a hash, at the length of the hash, gives the hash back:
  different hashes of a length stand for different boxes, and none is lost.\<close>

theorem geohash_roundtrip:
  assumes "set h \<subseteq> set char_map" "h \<noteq> []" "length h \<le> 12"
  shows "geohash_encode (Fin (latitude (geohash_decode (Some h)))) (Fin (longitude (geohash_decode (Some h))))
    (int (length h)) = Some h"
proof -
  let ?s = "decode_letters h whole_world"
  have "owns (mid (lat_interval ?s)) (mid (lng_interval ?s)) ?s"
    by (simp add: centre_in letters_proper whole_world_facts)
  note in_world = owns_letters [OF whole_world_facts(4) assms(1) this]
  have "used_precision (int (length h)) = length h" using assms(2,3) by (cases h) (simp_all add: used_precision_def)
  moreover have "\<bar>mid (lat_interval ?s)\<bar> \<le> 90" "\<bar>mid (lng_interval ?s)\<bar> \<le> 180"
    using in_world by (simp_all add: owns_def whole_world_def abs_le_iff)
  ultimately show ?thesis using in_world assms(2) by (simp add: decode_box encode_in_range)
qed

theorem geohash_roundtrip_witness:
  "geohash_encode (Fin (latitude (geohash_decode (Some ''wh0r'')))) (Fin (longitude (geohash_decode (Some ''wh0r''))))
    (int (length ''wh0r'')) = Some ''wh0r''"
  by (rule geohash_roundtrip) (simp_all add: char_map_def)

section \<open>Neighbours\<close>

fun step_x :: "direction \<Rightarrow> int" where
  "step_x NORTH = 0" | "step_x EAST = 1" | "step_x SOUTH = 0" | "step_x WEST = -1"

fun step_y :: "direction \<Rightarrow> int" where
  "step_y NORTH = 1" | "step_y EAST = 0" | "step_y SOUTH = -1" | "step_y WEST = 0"

text \<open>The column and row of a letter in the box it refines, and how many there are.\<close>

definition columns :: "bool \<Rightarrow> int" where "columns e = (if e then 8 else 4)"
definition rows :: "bool \<Rightarrow> int" where "rows e = (if e then 4 else 8)"

definition three_bits :: "nat \<Rightarrow> int" where
  "three_bits v = 4 * of_bool (letter_bit v 0) + 2 * of_bool (letter_bit v 2) + of_bool (letter_bit v 4)"

definition two_bits :: "nat \<Rightarrow> int" where
  "two_bits v = 2 * of_bool (letter_bit v 1) + of_bool (letter_bit v 3)"

definition column :: "bool \<Rightarrow> nat \<Rightarrow> int" where
  "column e v = (if e then three_bits v else two_bits v)"

definition row :: "bool \<Rightarrow> nat \<Rightarrow> int" where
  "row e v = (if e then two_bits v else three_bits v)"

definition part :: "rat \<Rightarrow> rat \<Rightarrow> interval \<Rightarrow> interval" where
  "part i n iv = (fst iv + i * (snd iv - fst iv) / n, fst iv + (i + 1) * (snd iv - fst iv) / n)"

lemma half_part: "half_mid b iv = part (of_bool b) 2 iv"
  by (simp add: half_mid_def part_def mid_def field_simps)

lemma part_part: "n \<noteq> 0 \<Longrightarrow> m \<noteq> 0 \<Longrightarrow> part i n (part j m iv) = part (n * j + i) (m * n) iv"
  by (simp add: part_def field_simps)

lemma letter_parts:
  "lng_interval (decode_letter v s) =
    part (of_int (column (is_even s) v)) (of_int (columns (is_even s))) (lng_interval s)"
  "lat_interval (decode_letter v s) =
    part (of_int (row (is_even s) v)) (of_int (rows (is_even s))) (lat_interval s)"
  by (simp_all add: decode_letter_turns bisect_with_def half_part part_part column_def row_def
      columns_def rows_def three_bits_def two_bits_def algebra_simps)

text \<open>What the tables say: off the border the letter is the one beside, on the border it is the one at
  the opposite side of the next box.\<close>

definition table_ok :: "bool \<Rightarrow> direction \<Rightarrow> char \<Rightarrow> bool" where
  "table_ok e dir c =
     (let i = letter_index c;
          j = nat (index_for_char c (if e then odd_neighbors dir else even_neighbors dir));
          k = of_bool (c \<in> set (if e then odd_borders dir else even_borders dir))
      in j < 32 \<and> column e j = column e i + step_x dir - k * step_x dir * columns e \<and>
         row e j = row e i + step_y dir - k * step_y dir * rows e)"

lemma index_from_found: "i + int (length xs) \<le> NOT_FOUND \<Longrightarrow> index_from c xs i \<noteq> NOT_FOUND \<longleftrightarrow> c \<in> set xs"
  by (induction xs arbitrary: i) auto

lemma on_border:
  "index_for_char c (if e then odd_borders dir else even_borders dir) \<noteq> NOT_FOUND \<longleftrightarrow>
    c \<in> set (if e then odd_borders dir else even_borders dir)"
  unfolding index_for_char_def by (rule index_from_found) (cases dir; simp add: NOT_FOUND_def)

lemma tables_ok: "c \<in> set char_map \<Longrightarrow> table_ok e dir c"
proof -
  have "\<forall>c \<in> set char_map. \<forall>e \<in> {True, False}. \<forall>dir \<in> {NORTH, EAST, SOUTH, WEST}. table_ok e dir c"
    by code_simp
  moreover have "dir \<in> {NORTH, EAST, SOUTH, WEST}" by (cases dir) simp_all
  ultimately show "c \<in> set char_map \<Longrightarrow> ?thesis" by (cases e) blast+
qed

definition moved :: "int \<Rightarrow> interval \<Rightarrow> interval" where
  "moved d iv = (fst iv + of_int d * (snd iv - fst iv), snd iv + of_int d * (snd iv - fst iv))"

definition beside :: "direction \<Rightarrow> bisection \<Rightarrow> bisection \<Rightarrow> bool" where
  "beside dir s t =
     (lng_interval t = moved (step_x dir) (lng_interval s) \<and>
      lat_interval t = moved (step_y dir) (lat_interval s) \<and> is_even t = is_even s)"

lemma part_moved:
  assumes "n \<noteq> 0" "part_j = part_i + d - k * d * n"
  shows "part (of_int part_j) (of_int n) (moved (k * d) iv) = moved d (part (of_int part_i) (of_int n) iv)"
  using assms(1) unfolding assms(2) by (simp add: part_def moved_def field_simps)

lemma moved_zero: "moved 0 iv = iv" "k = 0 \<Longrightarrow> moved (k * d) iv = iv"
  by (simp_all add: moved_def)

lemma beside_letter:
  assumes "c \<in> set char_map" "if border then beside dir s t else t = s"
    and "border = (index_for_char c (if is_even s then odd_borders dir else even_borders dir) \<noteq> NOT_FOUND)"
  defines "j \<equiv> nat (index_for_char c (if is_even s then odd_neighbors dir else even_neighbors dir))"
  shows "j < 32" "beside dir (decode_letter (letter_index c) s) (decode_letter j t)"
proof -
  define k where "k = (of_bool border :: int)"
  from tables_ok [OF assms(1), of "is_even s" dir]
  have tab: "j < 32" "column (is_even s) j = column (is_even s) (letter_index c) + step_x dir - k * step_x dir * columns (is_even s)"
    "row (is_even s) j = row (is_even s) (letter_index c) + step_y dir - k * step_y dir * rows (is_even s)"
    by (simp_all add: table_ok_def Let_def j_def k_def assms(3) on_border)
  have t: "lng_interval t = moved (k * step_x dir) (lng_interval s)"
    "lat_interval t = moved (k * step_y dir) (lat_interval s)" "is_even t = is_even s"
    using assms(2) by (auto simp: k_def beside_def moved_zero split: if_splits)
  have nz: "columns e \<noteq> 0" "rows e \<noteq> 0" for e by (simp_all add: columns_def rows_def)
  show "j < 32" by (fact tab(1))
  show "beside dir (decode_letter (letter_index c) s) (decode_letter j t)"
    unfolding beside_def letter_parts letter_even t part_moved [OF nz(1) tab(2)] part_moved [OF nz(2) tab(3)]
    by simp
qed

text \<open>A box that touches the edge of the map on the side of a direction.\<close>

fun at_edge :: "direction \<Rightarrow> bisection \<Rightarrow> bool" where
  "at_edge NORTH s = (snd (lat_interval s) = 90)"
| "at_edge EAST s = (snd (lng_interval s) = 180)"
| "at_edge SOUTH s = (fst (lat_interval s) = -90)"
| "at_edge WEST s = (fst (lng_interval s) = -180)"

lemma whole_world_edge: "at_edge dir whole_world"
  by (cases dir) (simp_all add: whole_world_def)

lemma column_bounds: "0 \<le> column e v" "column e v < columns e" "0 \<le> row e v" "row e v < rows e"
  by (simp_all add: column_def row_def columns_def rows_def three_bits_def two_bits_def of_bool_def)

lemma part_ends: "n \<noteq> 0 \<Longrightarrow> fst (part 0 n iv) = fst iv" "n \<noteq> 0 \<Longrightarrow> i = n - 1 \<Longrightarrow> snd (part i n iv) = snd iv"
  by (simp_all add: part_def field_simps)

lemma edge_letter:
  assumes "c \<in> set char_map" "at_edge dir s"
    and "index_for_char c (if is_even s then odd_borders dir else even_borders dir) \<noteq> NOT_FOUND"
  shows "at_edge dir (decode_letter (letter_index c) s)"
proof -
  let ?i = "letter_index c" and ?e = "is_even s"
  let ?j = "nat (index_for_char c (if ?e then odd_neighbors dir else even_neighbors dir))"
  from tables_ok [OF assms(1), of ?e dir] assms(3)
  have tab: "column ?e ?j = column ?e ?i + step_x dir - step_x dir * columns ?e"
    "row ?e ?j = row ?e ?i + step_y dir - step_y dir * rows ?e"
    unfolding table_ok_def Let_def on_border by simp_all
  have nz: "columns e \<noteq> 0" "rows e \<noteq> 0" for e by (simp_all add: columns_def rows_def)
  note bounds = column_bounds [of ?e ?i] column_bounds [of ?e ?j]
  show ?thesis
  proof (cases dir)
    case NORTH
    then have "row ?e ?i = rows ?e - 1" using tab bounds by simp
    then show ?thesis using NORTH assms(2) nz by (simp add: letter_parts part_ends)
  next
    case EAST
    then have "column ?e ?i = columns ?e - 1" using tab bounds by simp
    then show ?thesis using EAST assms(2) nz by (simp add: letter_parts part_ends)
  next
    case SOUTH
    then have "row ?e ?i = 0" using tab bounds by simp
    then show ?thesis using SOUTH assms(2) nz by (simp add: letter_parts part_ends)
  next
    case WEST
    then have "column ?e ?i = 0" using tab bounds by simp
    then show ?thesis using WEST assms(2) nz by (simp add: letter_parts part_ends)
  qed
qed

definition neighbor_spec :: "nat \<Rightarrow> string \<Rightarrow> direction \<Rightarrow> (string \<times> nat) res \<Rightarrow> bool" where
  "neighbor_spec n h dir r =
     (case r of
        Inr (h', room) \<Rightarrow> set h' \<subseteq> set char_map \<and> length h' = length h \<and> n < room \<and>
          beside dir (decode_letters h whole_world) (decode_letters h' whole_world)
      | Inl e \<Rightarrow> e = Undefined \<and> at_edge dir (decode_letters h whole_world))"

lemma get_neighbor_snoc:
  "get_neighbor usable (b @ [c]) dir =
    (let e = even (length b); i = index_for_char c (if e then odd_neighbors dir else even_neighbors dir) in
     res_bind
       (if index_for_char c (if e then odd_borders dir else even_borders dir) \<noteq> NOT_FOUND
        then get_neighbor usable b dir else Inr (b, usable (length b + 1)))
       (\<lambda>(base, room). if i = NOT_FOUND then Inl Undefined
          else if room < length base + 2 then Inl Undefined else Inr (base @ [char_map ! nat i], room)))"
  by (subst get_neighbor.simps) (simp add: Let_def)

lemma neighbor_cases:
  "\<forall>k. n < usable k \<Longrightarrow> set h \<subseteq> set char_map \<Longrightarrow> h \<noteq> [] \<Longrightarrow> length h \<le> n \<Longrightarrow>
    neighbor_spec n h dir (get_neighbor usable h dir)"
proof (induction h rule: rev_induct)
  case (snoc c b)
  define s where "s = decode_letters b whole_world"
  define j where "j = index_for_char c (if is_even s then odd_neighbors dir else even_neighbors dir)"
  define border where
    "border = (index_for_char c (if is_even s then odd_borders dir else even_borders dir) \<noteq> NOT_FOUND)"
  have e: "even (length b) = is_even s" by (simp add: s_def letters_even whole_world_facts)
  have c: "c \<in> set char_map" and b: "set b \<subseteq> set char_map" using snoc.prems by simp_all
  have append: "neighbor_spec n (b @ [c]) dir (Inr (base @ [char_map ! nat j], room)) \<and> j \<noteq> NOT_FOUND \<and> \<not> room < length base + 2"
    if base: "set base \<subseteq> set char_map" "length base = length b" "n < room"
      "if border then beside dir s (decode_letters base whole_world) else decode_letters base whole_world = s"
    for base room
  proof -
    note * = beside_letter [OF c base(4) border_def, folded j_def]
    have "char_map ! nat j \<in> set char_map" using *(1) alphabet(2) by simp
    then show ?thesis using * base snoc.prems(4)
      by (simp add: neighbor_spec_def decode_snoc s_def [symmetric] alphabet_index NOT_FOUND_def)
  qed
  have step: "get_neighbor usable (b @ [c]) dir =
      res_bind (if border then get_neighbor usable b dir else Inr (b, usable (length b + 1)))
        (\<lambda>(base, room). if j = NOT_FOUND then Inl Undefined
          else if room < length base + 2 then Inl Undefined else Inr (base @ [char_map ! nat j], room))"
    unfolding get_neighbor_snoc e Let_def j_def border_def ..
  show ?case
  proof (cases border)
    case False
    with append [of b "usable (length b + 1)"] snoc.prems b show ?thesis
      by (simp add: step s_def)
  next
    case True
    show ?thesis
    proof (cases "get_neighbor usable b dir")
      case (Inl x)
      have "x = Undefined \<and> at_edge dir s"
      proof (cases "b = []")
        case True
        then show ?thesis using Inl by (simp add: get_neighbor.simps [of _ "[]"] s_def decode_letters_def whole_world_edge)
      next
        case False
        then show ?thesis using snoc.IH [OF snoc.prems(1) b] snoc.prems(4) Inl by (simp add: neighbor_spec_def s_def)
      qed
      then show ?thesis using Inl True edge_letter [OF c, of dir s]
        by (simp add: step border_def [symmetric] neighbor_spec_def decode_snoc s_def [symmetric])
    next
      case (Inr r)
      obtain base room where r: "r = (base, room)" by (cases r)
      have "b \<noteq> []" using Inr by (auto simp: get_neighbor.simps [of _ "[]"])
      then have "neighbor_spec n b dir (get_neighbor usable b dir)" using snoc by simp
      then have "set base \<subseteq> set char_map" "length base = length b" "n < room"
        "if border then beside dir s (decode_letters base whole_world) else decode_letters base whole_world = s"
        using Inr r True by (simp_all add: neighbor_spec_def s_def)
      from append [OF this] show ?thesis using Inr r True
        by (simp add: step)
    qed
  qed
qed simp

definition moved_box :: "direction \<Rightarrow> geo_coord \<Rightarrow> geo_coord" where
  "moved_box dir g =
     (let dy = of_int (step_y dir) * (north g - south g); dx = of_int (step_x dir) * (east g - west g) in
      \<lparr>latitude = latitude g + dy, longitude = longitude g + dx, north = north g + dy, east = east g + dx,
       south = south g + dy, west = west g + dx, dimension = dimension g\<rparr>)"

definition in_world :: "geo_coord \<Rightarrow> bool" where
  "in_world g = (-90 \<le> south g \<and> north g \<le> 90 \<and> -180 \<le> west g \<and> east g \<le> 180)"

lemma box_eq:
  "g = g' \<longleftrightarrow> latitude g = latitude g' \<and> longitude g = longitude g' \<and> north g = north g' \<and>
    east g = east g' \<and> south g = south g' \<and> west g = west g' \<and> dimension g = dimension g'" for g g' :: geo_coord
  by (cases g; cases g') auto

lemma beside_box:
  assumes "h \<noteq> []" "h' \<noteq> []" "beside dir (decode_letters h whole_world) (decode_letters h' whole_world)"
  shows "geohash_decode (Some h') = moved_box dir (geohash_decode (Some h))"
  using assms by (simp add: box_eq moved_box_def Let_def decode_box beside_def moved_def mid_def field_simps)

lemma edge_box:
  assumes "h \<noteq> []" "at_edge dir (decode_letters h whole_world)"
  shows "\<not> in_world (moved_box dir (geohash_decode (Some h)))"
proof -
  have "proper (decode_letters h whole_world)" by (simp add: letters_proper whole_world_facts)
  then show ?thesis using assms
    by (cases dir) (auto simp: in_world_def moved_box_def Let_def decode_box proper_def width_of_def height_of_def)
qed

text \<open>C35: \<open>get_neighbor\<close> returns the hash, of the same length, of the box beside the given one: its
  corners are those of the given box moved by one width or height. It fails, reading before the
  start of an empty text, only when that box would lie outside of the map: nothing wraps around
  the date line. The buffers must have room for two letters more than the program asks for.
  The boxes are those of exact arithmetic, which the doubles of the program are for hashes of up to
  twelve letters.\<close>

theorem neighbor_adjacent:
  assumes "set h \<subseteq> set char_map" "h \<noteq> []" "\<forall>k. length h < usable k"
  shows "case get_neighbor usable h dir of
      Inr (h', room) \<Rightarrow> length h' = length h \<and> set h' \<subseteq> set char_map \<and>
        geohash_decode (Some h') = moved_box dir (geohash_decode (Some h))
    | Inl e \<Rightarrow> e = Undefined \<and> \<not> in_world (moved_box dir (geohash_decode (Some h)))"
proof -
  from neighbor_cases [OF assms(3) assms(1,2) order_refl, of dir]
  have spec: "neighbor_spec (length h) h dir (get_neighbor usable h dir)" .
  show ?thesis
  proof (cases "get_neighbor usable h dir")
    case (Inl e)
    then show ?thesis using spec edge_box [OF assms(2)] by (simp add: neighbor_spec_def)
  next
    case (Inr r)
    obtain h' room where r: "r = (h', room)" by (cases r)
    have "h' \<noteq> []" using spec Inr r assms(2) by (auto simp: neighbor_spec_def)
    then show ?thesis using spec Inr r beside_box [OF assms(2)] by (simp add: neighbor_spec_def)
  qed
qed

theorem neighbor_adjacent_witness:
  "get_neighbor (\<lambda>k. 24) ''wh0r'' NORTH = Inr (''wh22'', 24) \<and>
    geohash_decode (Some ''wh22'') = moved_box NORTH (geohash_decode (Some ''wh0r''))"
proof -
  have e: "get_neighbor (\<lambda>k. 24) ''wh0r'' NORTH = Inr (''wh22'', 24)"
    by code_simp
  show ?thesis using neighbor_adjacent [of "''wh0r''" "\<lambda>k. 24" NORTH] by (simp add: e char_map_def)
qed

section \<open>The boxes around a point\<close>

text \<open>A point lies above the lower ends of its box, except on the lower edges of the map.\<close>

definition low_ok :: "rat \<Rightarrow> rat \<Rightarrow> bisection \<Rightarrow> bool" where
  "low_ok lat lng s = ((fst (lat_interval s) < lat \<or> fst (lat_interval s) = -90) \<and>
     (fst (lng_interval s) < lng \<or> fst (lng_interval s) = -180))"

lemma low_ok_turn: "low_ok lat lng s \<Longrightarrow> low_ok lat lng (turn (side lat lng s) s)"
  by (auto simp: low_ok_def side_def boxes)

lemma letters_low: "low_ok lat lng s \<Longrightarrow> low_ok lat lng (decode_letters (letters lat lng n s) s)"
proof (induction n arbitrary: s)
  case 0
  then show ?case by (simp add: decode_letters_def)
next
  case (Suc n)
  then show ?case
    by (simp add: decode_Cons alphabet_index [OF letter_at_less] letter_at_bits Let_def low_ok_turn)
qed

lemma letters_alphabet: "set (letters lat lng n s) \<subseteq> set char_map"
  by (induction n arbitrary: s) (auto simp: letter_at_less alphabet(2))

lemma moved_moved: "moved d (moved e iv) = moved (d + e) iv"
  by (simp add: moved_def algebra_simps)

text \<open>A hash whose box is a given one moved by whole widths and heights.\<close>

definition shifted_hash :: "string \<Rightarrow> int \<Rightarrow> int \<Rightarrow> string \<Rightarrow> bool" where
  "shifted_hash h dx dy h' =
     (set h' \<subseteq> set char_map \<and> length h' = length h \<and>
      lng_interval (decode_letters h' whole_world) = moved dx (lng_interval (decode_letters h whole_world)) \<and>
      lat_interval (decode_letters h' whole_world) = moved dy (lat_interval (decode_letters h whole_world)))"

lemma shifted_step:
  assumes "shifted_hash h dx dy b" "get_neighbor usable b dir = Inr (h', room)" "\<forall>k. length h < usable k"
    and "h \<noteq> []"
  shows "shifted_hash h (dx + step_x dir) (dy + step_y dir) h'"
proof -
  have "b \<noteq> []" using assms by (auto simp: shifted_hash_def)
  then show ?thesis using assms neighbor_cases [of "length h" usable b dir]
    by (simp add: shifted_hash_def neighbor_spec_def beside_def moved_moved add.commute)
qed

lemma shifted_same: "set h \<subseteq> set char_map \<Longrightarrow> shifted_hash h 0 0 h"
  by (simp add: shifted_hash_def moved_zero)

definition compass :: "(int \<times> int) list" where
  "compass = [(0, 1), (1, 1), (1, 0), (1, -1), (0, -1), (-1, -1), (-1, 0), (-1, 1)]"

lemma neighbors_compass:
  assumes "geohash_neighbors usable h = Inr ns" "set h \<subseteq> set char_map" "h \<noteq> []"
    and "\<forall>k. length h < usable k"
  shows "list_all2 (\<lambda>(dx, dy). shifted_hash h dx dy) compass ns"
proof -
  from assms(1) obtain n ne e se so sw w nw rn rne re rse rso rsw rw rnw where
    runs: "get_neighbor usable h NORTH = Inr (n, rn)" "get_neighbor usable n EAST = Inr (ne, rne)"
      "get_neighbor usable h EAST = Inr (e, re)" "get_neighbor usable e SOUTH = Inr (se, rse)"
      "get_neighbor usable h SOUTH = Inr (so, rso)" "get_neighbor usable so WEST = Inr (sw, rsw)"
      "get_neighbor usable h WEST = Inr (w, rw)" "get_neighbor usable w NORTH = Inr (nw, rnw)"
    and ns: "ns = [n, ne, e, se, so, sw, w, nw]"
    by (auto simp: geohash_neighbors_def res_bind_Inr_iff)
  note step = shifted_step [OF _ _ assms(4,3)]
  note h = shifted_same [OF assms(2)]
  note n = step [OF h runs(1), simplified] and e = step [OF h runs(3), simplified]
    and s = step [OF h runs(5), simplified] and w = step [OF h runs(7), simplified]
  note corners = step [OF n runs(2), simplified] step [OF e runs(4), simplified]
    step [OF s runs(6), simplified] step [OF w runs(8), simplified]
  show ?thesis using n e s w corners by (simp add: ns compass_def)
qed

lemma neighbors_shifted:
  assumes "geohash_neighbors usable h = Inr ns" "set h \<subseteq> set char_map" "h \<noteq> []"
    and "\<forall>k. length h < usable k" and "dx \<in> {-1, 0, 1}" "dy \<in> {-1, 0, 1}"
  shows "\<exists>h' \<in> set (h # ns). shifted_hash h dx dy h'"
proof (cases "(dx, dy) \<in> set compass")
  case True
  then show ?thesis using neighbors_compass [OF assms(1-4)]
    by (fastforce simp: in_set_conv_nth list_all2_conv_all_nth)
next
  case False
  then have "dx = 0" "dy = 0" using assms(5,6) by (auto simp: compass_def)
  then show ?thesis using shifted_same [OF assms(2)] by simp
qed

lemma turn_within:
  "proper s \<Longrightarrow> fst (lat_interval s) \<le> fst (lat_interval (turn b s)) \<and>
    fst (lng_interval s) \<le> fst (lng_interval (turn b s))"
  by (auto simp: proper_def boxes)

lemma letter_within:
  assumes "proper s"
  shows "fst (lat_interval s) \<le> fst (lat_interval (decode_letter v s)) \<and>
    fst (lng_interval s) \<le> fst (lng_interval (decode_letter v s))"
  unfolding decode_letter_turns using assms turn_within turn_proper by (meson order_trans)

lemma letters_within:
  "proper s \<Longrightarrow> fst (lat_interval s) \<le> fst (lat_interval (decode_letters h s)) \<and>
    fst (lng_interval s) \<le> fst (lng_interval (decode_letters h s))"
proof (induction h arbitrary: s)
  case (Cons c h)
  show ?case unfolding decode_Cons
    using Cons.IH [OF letter_proper [OF Cons.prems]] letter_within [OF Cons.prems] by (meson order_trans)
qed (simp add: decode_letters_def)

lemma moved_owner:
  assumes "a < p + (b - a)" "p \<le> b + (b - a)"
  shows "\<exists>d \<in> {-1, 0, 1}. fst (moved d (a, b)) < p \<and> p \<le> snd (moved d (a, b))"
  using assms by (cases "p \<le> a"; cases "p \<le> b") (auto simp: moved_def)

lemma near_letters:
  assumes "geohash_neighbors usable h = Inr ns" "h = letters lat lng n whole_world" "n \<noteq> 0"
    and "\<forall>k. n < usable k" and "\<bar>lat\<bar> \<le> 90" "\<bar>lng\<bar> \<le> 180"
  defines "s \<equiv> decode_letters h whole_world"
  assumes "\<bar>plat - lat\<bar> \<le> height_of s" "\<bar>plng - lng\<bar> \<le> width_of s"
  shows "letters plat plng n whole_world \<in> set (h # ns)"
proof -
  have len: "length h = n" by (simp add: assms(2) length_letters)
  have ne: "h \<noteq> []" using len assms(3) by auto
  have alpha: "set h \<subseteq> set char_map" unfolding assms(2) by (rule letters_alphabet)
  note shifted = neighbors_shifted [OF assms(1) alpha ne, unfolded len, OF assms(4)]
  have pr: "proper s" by (simp add: s_def letters_proper whole_world_facts)
  obtain a b where lat_iv: "lat_interval s = (a, b)" by (cases "lat_interval s")
  obtain c d where lng_iv: "lng_interval s = (c, d)" by (cases "lng_interval s")
  have cov: "covers lat lng s" unfolding s_def assms(2)
    by (rule letters_cover) (use assms(5,6) in \<open>auto simp: covers_def whole_world_def abs_le_iff\<close>)
  have low: "low_ok lat lng s" unfolding s_def assms(2)
    by (rule letters_low) (auto simp: low_ok_def whole_world_def)
  have wide: "a < b" "c < d" using pr by (simp_all add: proper_def width_of_def height_of_def lat_iv lng_iv)
  have "-90 < a" "-180 < c"
  proof -
    obtain h1 where "shifted_hash h 0 (-1) h1" using shifted [of 0 "-1"] by auto
    then have "fst (lat_interval (decode_letters h1 whole_world)) = a - (b - a)"
      by (simp add: shifted_hash_def s_def [symmetric] lat_iv moved_def)
    then show "-90 < a" using letters_within [OF whole_world_facts(4), of h1] wide by (simp add: whole_world_def)
    obtain h2 where "shifted_hash h (-1) 0 h2" using shifted [of "-1" 0] by auto
    then have "fst (lng_interval (decode_letters h2 whole_world)) = c - (d - c)"
      by (simp add: shifted_hash_def s_def [symmetric] lng_iv moved_def)
    then show "-180 < c" using letters_within [OF whole_world_facts(4), of h2] wide by (simp add: whole_world_def)
  qed
  then have at: "a < lat" "lat \<le> b" "c < lng" "lng \<le> d"
    using cov low by (auto simp: covers_def low_ok_def lat_iv lng_iv)
  obtain dy where dy: "dy \<in> {-1, 0, 1}" "fst (moved dy (a, b)) < plat" "plat \<le> snd (moved dy (a, b))"
    using moved_owner [of a plat b] assms(8) at by (auto simp: height_of_def lat_iv abs_le_iff)
  obtain dx where dx: "dx \<in> {-1, 0, 1}" "fst (moved dx (c, d)) < plng" "plng \<le> snd (moved dx (c, d))"
    using moved_owner [of c plng d] assms(9) at by (auto simp: width_of_def lng_iv abs_le_iff)
  obtain h' where h': "h' \<in> set (h # ns)" "shifted_hash h dx dy h'" using shifted [OF dx(1) dy(1)] by blast
  have "owns plat plng (decode_letters h' whole_world)"
    using h'(2) dx dy by (simp add: shifted_hash_def owns_def s_def [symmetric] lat_iv lng_iv)
  then have "letters plat plng (length h') whole_world = h'"
    using owns_letters [OF whole_world_facts(4), of h' plat plng] h'(2) by (simp add: shifted_hash_def)
  then show ?thesis using h' len by (simp add: shifted_hash_def)
qed

end
