(* ===== verification/Geo_Props.thy ===== *)
theory Geo_Props
  imports Geo Scan_Laws Geohash_Props
begin

text \<open>
  Properties of the geo operations: the nine key prefixes of a query cover every point within one
  box of the query point, and \<open>geonear\<close> reports every stored point among them whose distance is
  within the radius.
\<close>

section \<open>Prefixes of a query\<close>

lemma wild_match_append_prefix:
  "STAR \<notin> set p \<Longrightarrow> wild_match w t \<Longrightarrow> wild_match (p @ w) (p @ t)"
  by (induction p) auto

lemma star_filter:
  "wild_match w t \<Longrightarrow> wild_match (STAR # w) (u @ t)"
  unfolding wild_match_star by (rule exI [of _ "length u"]) simp

lemma alphabet_plain: "c \<in> set char_map \<Longrightarrow> c \<noteq> STAR \<and> c \<noteq> QUESTION \<and> c \<noteq> NUL"
  by (auto simp: char_map_def)

text \<open>The part of a pattern after the star: nothing, or an underscore and a pattern for the key.\<close>

definition accepts_key :: "string \<Rightarrow> string \<Rightarrow> bool" where
  "accepts_key kf key = (kf = [] \<or> (\<exists>w. kf = ''_'' @ w \<and> wildcmp w key))"

lemma c_str_append: "NUL \<notin> set a \<Longrightarrow> c_str (a @ b) = a @ c_str b"
  by (induction a) (auto simp: c_str_def)

lemma prefix_hits:
  assumes "set hash \<subseteq> set char_map" "accepts_key kf key"
  shows "wildcmp (take n hash @ ''*'' @ kf) (hash @ ''_'' @ key)"
proof -
  let ?p = "take n hash" and ?u = "drop n hash"
  have plain: "STAR \<notin> set hash" "NUL \<notin> set hash" using assms(1) alphabet_plain by blast+
  then have p: "STAR \<notin> set ?p" "NUL \<notin> set ?p" by (auto dest: in_set_takeD)
  have str: "c_str (hash @ ''_'' @ key) = ?p @ ?u @ c_str (''_'' @ key)"
    using plain by (simp add: c_str_append)
  have pat: "c_str (?p @ ''*'' @ kf) = ?p @ STAR # c_str kf"
    using c_str_append [OF p(2), of "''*'' @ kf"] c_str_append [of "''*''" kf] by simp
  have "wild_match (STAR # c_str kf) (?u @ c_str (''_'' @ key))"
  proof (cases "kf = []")
    case True
    then show ?thesis by (simp add: c_str_def) (metis append_Nil2 star_filter wild_match.simps(1))
  next
    case False
    then obtain w where "kf = ''_'' @ w" "wildcmp w key" using assms(2) by (auto simp: accepts_key_def)
    then have "wild_match (c_str kf) (c_str (''_'' @ key))" by (simp add: wildcmp_eq c_str_def)
    then show ?thesis by (rule star_filter)
  qed
  then show ?thesis unfolding wildcmp_eq str pat by (rule wild_match_append_prefix [OF p(1)])
qed

lemma encode_at_8:
  assumes "geohash_encode (Fin lat) (Fin lng) 8 = Some h"
  shows "\<bar>lat\<bar> \<le> 90" "\<bar>lng\<bar> \<le> 180" "h = letters lat lng 8 whole_world"
  using assms by (auto simp: geohash_encode_def encode_letters_eq used_precision_def abs_le_iff split: if_splits)

lemma before_star_pattern: "set h \<subseteq> set char_map \<Longrightarrow> before_star (h @ ''*'' @ kf) = h"
proof (induction h)
  case (Cons c h)
  then show ?case using alphabet_plain [of c] by (simp add: before_star_def)
qed (simp add: before_star_def)

lemma near_prefixes_hit:
  assumes "geohash_encode (Fin lat) (Fin lng) 8 = Some hash" "near_prefixes usable hash precision kf = Inr qs"
    and "1 \<le> precision" "precision \<le> 8" "\<forall>k. nat precision < usable k"
    and "geohash_encode (Fin plat) (Fin plng) 8 = Some phash"
    and "\<bar>plat - lat\<bar> \<le> fst (geohash_dimensions_for_precision precision)"
    and "\<bar>plng - lng\<bar> \<le> snd (geohash_dimensions_for_precision precision)"
    and "accepts_key kf key"
  shows "\<exists>q \<in> set qs. in_prefix (before_star q) (phash @ ''_'' @ key, v) \<and>
    key_hit q (phash @ ''_'' @ key, v)"
proof -
  define n where "n = nat precision"
  have n: "precision = int n" "n \<noteq> 0" "n \<le> 8" using assms(3,4) by (simp_all add: n_def)
  define h where "h = letters lat lng n whole_world"
  note q = encode_at_8 [OF assms(1)] and p = encode_at_8 [OF assms(6)]
  have cut: "take n hash = h" "take n phash = letters plat plng n whole_world"
    using n(3) by (simp_all add: h_def q(3) p(3) take_letters)
  obtain ns where ns: "geohash_neighbors usable h = Inr ns" "qs = map (\<lambda>h. h @ ''*'' @ kf) (h # ns)"
    using assms(2) n by (auto simp: near_prefixes_def res_bind_Inr_iff cut)
  have "length h = n" by (simp add: h_def length_letters)
  have "take n phash \<in> set (h # ns)" unfolding cut(2)
  proof (rule near_letters [OF ns(1) h_def n(2) _ q(1,2)])
    show "\<forall>k. n < usable k" using assms(5) by (simp add: n_def)
    show "\<bar>plat - lat\<bar> \<le> height_of (decode_letters h whole_world)"
      and "\<bar>plng - lng\<bar> \<le> width_of (decode_letters h whole_world)"
      using assms(7,8) n(2) unfolding n(1) letters_size \<open>length h = n\<close> by (simp_all only: dimensions_eq fst_conv snd_conv neq0_conv)
  qed
  then have "take n phash @ ''*'' @ kf \<in> set qs" unfolding ns(2) set_map by (rule imageI)
  moreover have alpha: "set phash \<subseteq> set char_map" unfolding p(3) by (rule letters_alphabet)
  moreover have "before_star (take n phash @ ''*'' @ kf) = take n phash"
    by (rule before_star_pattern) (use alpha in \<open>auto dest: in_set_takeD\<close>)
  moreover have "starts_with (phash @ ''_'' @ key) (take n phash)"
    by (simp add: starts_with_prefix prefix_def) (metis append.assoc append_take_drop_id)
  ultimately show ?thesis using prefix_hits [OF _ assms(9), of phash n]
    by (intro bexI [of _ "take n phash @ ''*'' @ kf"]) simp_all
qed

section \<open>Reporting the points\<close>

lemma push_filtered_keeps:
  "fold_res (push_filtered L f) es acc = Inr r \<Longrightarrow> set (snd acc) \<subseteq> set (snd r)"
proof (induction es arbitrary: acc)
  case (Cons e es)
  then obtain a where a: "push_filtered L f e acc = Inr a" "fold_res (push_filtered L f) es a = Inr r"
    by (auto simp: res_bind_Inr_iff)
  have "set (snd acc) \<subseteq> set (snd a)" using a(1)
    by (auto simp: push_filtered_def split: sum.splits prod.splits if_splits)
  then show ?case using Cons.IH [OF a(2)] by blast
qed simp

lemma push_filtered_reports:
  assumes "fold_res (push_filtered L f) es acc = Inr r" "e \<in> set es"
    and "value_json L (snd e) = Inr w" "f (load (snd e)) w = Inr (True, w')"
  shows "w' \<in> set (snd r)"
  using assms(1,2)
proof (induction es arbitrary: acc)
  case (Cons d es)
  then obtain a where a: "push_filtered L f d acc = Inr a" "fold_res (push_filtered L f) es a = Inr r"
    by (auto simp: res_bind_Inr_iff)
  show ?case
  proof (cases "d = e")
    case True
    then have "w' \<in> set (snd a)" using a(1) assms(3,4) by (auto simp: push_filtered_def)
    then show ?thesis using push_filtered_keeps [OF a(2)] by blast
  next
    case False
    then show ?thesis using Cons.IH [OF a(2)] Cons.prems(2) by simp
  qed
qed simp

lemma all2_right: "list_all2 P xs ys \<Longrightarrow> y \<in> set ys \<Longrightarrow> \<exists>x. P x y"
  by (induction rule: list_all2_induct) auto

lemma near_patterns:
  assumes "near_prefixes usable hash precision kf = Inr qs" "1 \<le> precision"
    and "set hash \<subseteq> set char_map" "hash \<noteq> []" "\<forall>k. length hash < usable k" "q \<in> set qs"
  shows "\<not> star_first q"
proof -
  let ?h = "take (nat precision) hash"
  obtain ns where ns: "geohash_neighbors usable ?h = Inr ns" "qs = map (\<lambda>h. h @ ''*'' @ kf) (?h # ns)"
    using assms(1,2) by (auto simp: near_prefixes_def res_bind_Inr_iff Let_def split: if_splits)
  have h: "set ?h \<subseteq> set char_map" "?h \<noteq> []" using assms(2,3,4) by (auto dest: in_set_takeD)
  have room: "\<forall>k. length ?h < usable k" using assms(5) by (auto simp: min_less_iff_disj)
  have "\<forall>h' \<in> set ns. set h' \<subseteq> set char_map \<and> h' \<noteq> []"
  proof
    fix h' assume "h' \<in> set ns"
    from all2_right [OF neighbors_compass [OF ns(1) h room] this] obtain d where
      "(case d of (dx, dy) \<Rightarrow> shifted_hash ?h dx dy) h'" by blast
    then have "set h' \<subseteq> set char_map" "length h' = length ?h"
      by (cases d; simp add: shifted_hash_def)+
    then show "set h' \<subseteq> set char_map \<and> h' \<noteq> []" using h(2) by (metis length_0_conv)
  qed
  then obtain h' where h': "set h' \<subseteq> set char_map" "h' \<noteq> []" "q = h' @ ''*'' @ kf"
    using assms(6) h ns(2) by auto
  then show ?thesis using before_star_pattern [OF h'(1), of kf] before_star_Nil_iff [of q] by auto
qed

text \<open>C34: \<open>geonear\<close> finds what it should: a stored point whose computed distance is within the radius
  is reported, with its distance, whenever it lies at most one box away from the query point, its
  key is stored under its own hash and fits the key filter. A query whose boxes would leave the map
  is not covered: it has no neighbours and is undefined.\<close>

theorem geonear_finds:
  assumes "rocksdb R entries" "dbOk s" "\<forall>k. 8 < usable k"
    and "load body = Some x" "near_params L x = Inr (Fin lat, Fin lng, radius, precision, kf)"
    and "1 \<le> precision" "precision \<le> 8"
    and "geonear R L F usable body out rs 0 (-1) s = Inr ((ok, found), out')"
    and "geohash_encode (Fin plat) (Fin plng) 8 = Some phash" "contents R s (phash @ ''_'' @ key) = Some v"
    and "accepts_key kf key" "value_json L v = Inr w"
    and "near_filter F L (Fin lat) (Fin lng) radius (load v) w = Inr (True, w')"
    and "\<bar>plat - lat\<bar> \<le> fst (geohash_dimensions_for_precision precision)"
    and "\<bar>plng - lng\<bar> \<le> snd (geohash_dimensions_for_precision precision)"
  shows "w' \<in> set found"
proof -
  let ?filter = "near_filter F L (Fin lat) (Fin lng) radius" and ?k = "phash @ ''_'' @ key"
  obtain hash qs where run: "geohash_encode (Fin lat) (Fin lng) 8 = Some hash"
    "near_prefixes usable hash precision kf = Inr qs"
    "getAll_filtered R L qs rs ?filter 0 (-1) s = Inr (ok, found)"
    using assms(8) by (auto simp: geonear_def assms(4,5) hash_string_def res_bind_Inr_iff split: option.splits)
  have hash: "set hash \<subseteq> set char_map" "length hash = 8"
    using encode_at_8 [OF run(1)] letters_alphabet length_letters by blast+
  have "\<forall>q \<in> set qs. \<not> star_first q"
    using near_patterns [OF run(2) assms(6) hash(1)] hash(2) assms(3) by (metis length_0_conv zero_neq_numeral)
  from rocksdb.getAll_wilds_picked [OF assms(1) this]
  have all: "fold_res (push_filtered L ?filter) (concat (map (matching (entries (db s))) qs)) (True, rs) = Inr (ok, found)"
    using run(3) assms(2) by (simp add: getAll_filtered_def picked_window window_ok_def window_all INT_MIN_def INT_MAX_def)
  have room: "\<forall>k. nat precision < usable k"
  proof
    fix k
    have "8 < usable k" using assms(3) by blast
    then show "nat precision < usable k" using assms(6,7) by linarith
  qed
  obtain q where q: "q \<in> set qs" "in_prefix (before_star q) (?k, v)" "key_hit q (?k, v)"
    using near_prefixes_hit [OF run(1,2) assms(6,7) room assms(9,14,15,11)] by blast
  have "(?k, v) \<in> set (entries (db s))"
    using ordered_map.entries_iff [OF rocksdb.axioms(1) [OF assms(1)]] assms(10) by simp
  then have "(?k, v) \<in> set (concat (map (matching (entries (db s))) qs))"
    using q by (auto simp: matching_def)
  from push_filtered_reports [OF all this, of w w'] show ?thesis using assms(12,13) by simp
qed

text \<open>A run: one stored point, queried at its place, with arithmetic that finds every distance 0.\<close>

definition flat_floats :: float_ops where
  "flat_floats = \<lparr>fp_add = \<lambda>a b. Fin 0, fp_sub = \<lambda>a b. Fin 0, fp_mul = \<lambda>a b. Fin 0, fp_div = \<lambda>a b. Fin 0,
     fp_sin = \<lambda>a. Fin 0, fp_cos = \<lambda>a. Fin 0, fp_acos = \<lambda>a. Fin 0\<rparr>"

definition one_point :: "memdb core" where
  "one_point = mem_node [(''wh0dyg00_k'', ''{\"lat\":23,\"lng\":91}'')]"

definition stored_point :: wvalue where
  "stored_point = WObject [(''lat'', WNumber (Fin 23)), (''lng'', WNumber (Fin 91))]"

lemma one_hash: "geohash_encode (Fin 23) (Fin 91) 8 = Some ''wh0dyg00''"
  by (simp add: geohash_encode_def used_precision_def encode_letters_def encode_bit_def bisect_with_def
      half_mid_def mid_def whole_world_def Let_def upt_rec char_map_def)

lemma one_query:
  "load ''{\"lat\":23,\"lng\":91}'' = Some (RObject [(''lat'', RNumber ''23''), (''lng'', RNumber ''91'')])"
  "near_params mem_lib (RObject [(''lat'', RNumber ''23''), (''lng'', RNumber ''91'')]) =
    Inr (Fin 23, Fin 91, Fin 5, 5, [])"
  by code_simp+

definition one_prefixes :: "string list" where
  "one_prefixes = map (\<lambda>h. h @ ''*'')
     [''wh0dy'', ''wh0en'', ''wh0ep'', ''wh0dz'', ''wh0dx'', ''wh0dw'', ''wh0dt'', ''wh0dv'', ''wh0ej'']"

lemma one_point_found:
  "geonear mem_rocks mem_lib flat_floats (\<lambda>k. 24) ''{\"lat\":23,\"lng\":91}'' WNull [] 0 (-1) one_point =
    Inr ((True, [w_set stored_point ''far'' (WNumber (Fin 0))]), WNull)"
proof -
  have "near_prefixes (\<lambda>k. 24) ''wh0dyg00'' 5 [] = Inr one_prefixes" by code_simp
  moreover have "getAll_filtered mem_rocks mem_lib one_prefixes [] (near_filter flat_floats mem_lib (Fin 23) (Fin 91) (Fin 5))
      0 (-1) one_point = Inr (True, [w_set stored_point ''far'' (WNumber (Fin 0))])" by code_simp
  ultimately show ?thesis by (simp only: geonear_def one_query option.case res_bind_simps prod.case hash_string_def one_hash)
qed

theorem geonear_finds_witness:
  "geonear mem_rocks mem_lib flat_floats (\<lambda>k. 24) ''{\"lat\":23,\"lng\":91}'' WNull [] 0 (-1) one_point =
      Inr ((True, [w_set stored_point ''far'' (WNumber (Fin 0))]), WNull) \<and>
    w_set stored_point ''far'' (WNumber (Fin 0)) \<in> set [w_set stored_point ''far'' (WNumber (Fin 0))]"
proof (rule conjI [OF one_point_found])
  have ok: "dbOk one_point" by (simp add: one_point_def mem_node_def)
  have stored: "contents mem_rocks one_point (''wh0dyg00'' @ ''_'' @ ''k'') = Some ''{\"lat\":23,\"lng\":91}''"
    by code_simp
  have w: "value_json mem_lib ''{\"lat\":23,\"lng\":91}'' = Inr stored_point" by code_simp
  have pass: "near_filter flat_floats mem_lib (Fin 23) (Fin 91) (Fin 5) (load ''{\"lat\":23,\"lng\":91}'') stored_point =
      Inr (True, w_set stored_point ''far'' (WNumber (Fin 0)))" by code_simp
  show "w_set stored_point ''far'' (WNumber (Fin 0)) \<in> set [w_set stored_point ''far'' (WNumber (Fin 0))]"
    by (rule geonear_finds [OF mem.rocksdb_axioms ok _ one_query _ _ one_point_found one_hash stored _ w pass])
      (simp_all add: accepts_key_def geohash_dimensions_for_precision_def halved)
qed

text \<open>The precision chosen from the radius is too fine: with a radius of 9 km the program looks at
  boxes of five letters, which are less than 4.9 km high, so that a point 0.08 degrees (8.9 km) north
  of the query point lies beyond the nine boxes and its key is under none of the prefixes.\<close>

theorem near_misses_within_radius:
  "radius_precision (Fin 9) = 5 \<and> geohash_encode (Fin 23) (Fin 91) 8 = Some ''wh0dyg00'' \<and>
   geohash_encode (Fin (2308 / 100)) (Fin 91) 8 = Some ''wh0eqc84'' \<and>
   (\<exists>qs. near_prefixes (\<lambda>k. 24) ''wh0dyg00'' 5 [] = Inr qs \<and>
     list_all (\<lambda>q. \<not> starts_with (''wh0eqc84'' @ ''_'' @ key) (before_star q)) qs)"
proof (intro conjI exI [of _ one_prefixes])
  show "radius_precision (Fin 9) = 5" by code_simp
  show "geohash_encode (Fin (2308 / 100)) (Fin 91) 8 = Some ''wh0eqc84''"
    by (simp add: geohash_encode_def used_precision_def encode_letters_def encode_bit_def bisect_with_def
        half_mid_def mid_def whole_world_def Let_def upt_rec char_map_def)
  show "near_prefixes (\<lambda>k. 24) ''wh0dyg00'' 5 [] = Inr one_prefixes" by code_simp
  show "list_all (\<lambda>q. \<not> starts_with (''wh0eqc84'' @ ''_'' @ key) (before_star q)) one_prefixes"
    by (simp add: one_prefixes_def before_star_def starts_with_prefix)
qed (rule one_hash)

end
