(* ===== verification/Http_Text.thy ===== *)
theory Http_Text
  imports Fuzzy Numbers
begin

text \<open>
  The text functions of \<^verbatim>\<open>include/httprouting.hpp\<close>: \<open>CrowMiddleware::uri_decode\<close>, the MIME types and
  paths of served files (\<open>getMimeType\<close>, \<open>getFile\<close>, \<open>defaultPageLoader\<close>) and the multipart parser
  of \<open>fileupload\<close>. Positions are \<^verbatim>\<open>size_t\<close>: \<open>NPOS\<close> is the largest of them and additions wrap.
\<close>

section \<open>Percent decoding\<close>

text \<open>A percent sign that is not followed by two hexadecimal digits is dropped.\<close>

fun uri_decode :: "string \<Rightarrow> string" where
  "uri_decode [] = []"
| "uri_decode (c # cs) =
     (if c = CHR ''%'' then
        (case cs of
           h1 # h2 # rest \<Rightarrow>
             if is_hex h1 \<and> is_hex h2 then char_of (from_hex h1 * 16 + from_hex h2) # uri_decode rest
             else uri_decode cs
         | _ \<Rightarrow> uri_decode cs)
      else if c = CHR ''+'' then CHR '' '' # uri_decode cs
      else c # uri_decode cs)"

section \<open>Served files\<close>

text \<open>The character classes of \<^verbatim>\<open>std::tolower\<close> in the C locale are those of \<open>toLower\<close>.\<close>

definition mimeTypes :: "(string \<times> string) list" where
  "mimeTypes =
     [(''.html'', ''text/html''), (''.css'', ''text/css''), (''.js'', ''application/javascript''),
      (''.json'', ''application/json''), (''.png'', ''image/png''), (''.jpg'', ''image/jpeg''),
      (''.jpeg'', ''image/jpeg''), (''.gif'', ''image/gif''), (''.txt'', ''text/plain''),
      (''.pdf'', ''application/pdf''), (''.mp3'', ''audio/mpeg''), (''.wav'', ''audio/wav''),
      (''.ogg'', ''audio/ogg''), (''.flac'', ''audio/flac''), (''.aac'', ''audio/aac''),
      (''.m4a'', ''audio/mp4''), (''.mp4'', ''video/mp4''), (''.avi'', ''video/x-msvideo''),
      (''.mov'', ''video/quicktime''), (''.mkv'', ''video/x-matroska''), (''.webm'', ''video/webm''),
      (''.flv'', ''video/x-flv''), (''.mpg'', ''video/mpeg'')]"

definition getMimeType :: "string \<Rightarrow> string" where
  "getMimeType extension =
     (case map_of mimeTypes (toLower extension) of
        Some t \<Rightarrow> t | None \<Rightarrow> ''application/octet-stream'')"

text \<open>\<^verbatim>\<open>filePath.substr(filePath.rfind('.'))\<close>.\<close>

definition extension_of :: "string \<Rightarrow> string" where
  "extension_of filePath =
     (if CHR ''.'' \<in> set filePath
      then CHR ''.'' # rev (takeWhile (\<lambda>c. c \<noteq> CHR ''.'') (rev filePath)) else [])"

text \<open>A response: status, content type when the program sets one, and body.\<close>

record file_response =
  resp_status :: nat
  resp_type :: "string option"
  resp_body :: string

text \<open>The files that can be opened, by path.\<close>

type_synonym files = "string \<Rightarrow> string option"

definition getFile :: "files \<Rightarrow> string \<Rightarrow> file_response" where
  "getFile fs filePath =
     (case fs (c_str filePath) of
        None \<Rightarrow> \<lparr>resp_status = 404, resp_type = None, resp_body = ''File not found''\<rparr>
      | Some contents \<Rightarrow>
          \<lparr>resp_status = 200, resp_type = Some (getMimeType (extension_of filePath)), resp_body = contents\<rparr>)"

definition serve_upload :: "files \<Rightarrow> string \<Rightarrow> file_response" where
  "serve_upload fs path = getFile fs (''uploads/'' @ uri_decode (c_str path))"

definition readFile :: "files \<Rightarrow> string \<Rightarrow> string" where
  "readFile fs name = (case fs (c_str name) of None \<Rightarrow> [] | Some contents \<Rightarrow> contents)"

definition ends_in :: "string \<Rightarrow> string \<Rightarrow> bool" where
  "ends_in asset suff =
     (length suff < length asset \<and> drop (length asset - length suff) asset = suff)"

text \<open>\<open>page\<close> renders the template of a name; it belongs to the HTTP library.\<close>

definition defaultPageLoader :: "files \<Rightarrow> (string \<Rightarrow> string) \<Rightarrow> string option \<Rightarrow> string \<Rightarrow> file_response" where
  "defaultPageLoader fs page q defaultPage =
     (case q of
        None \<Rightarrow> \<lparr>resp_status = 200, resp_type = Some ''text/html; charset=UTF-8'', resp_body = page defaultPage\<rparr>
      | Some asset \<Rightarrow>
          \<lparr>resp_status = 200,
           resp_type = Some (if ends_in asset ''.js'' then ''application/javascript''
             else if ends_in asset ''.css'' then ''text/css'' else ''text/html; charset=UTF-8''),
           resp_body = readFile fs asset\<rparr>)"

section \<open>Uploads\<close>

text \<open>\<^verbatim>\<open>s.find(w, pos)\<close>, \<^verbatim>\<open>s.find_last_of(cs)\<close> and \<^verbatim>\<open>s.substr(pos, n)\<close>.\<close>

definition NPOS :: int where "NPOS = 18446744073709551615"

definition size_add :: "int \<Rightarrow> int \<Rightarrow> int" where
  "size_add a b = (a + b) mod (NPOS + 1)"

fun find_at :: "string \<Rightarrow> string \<Rightarrow> int \<Rightarrow> int" where
  "find_at w [] i = (if w = [] then i else NPOS)"
| "find_at w (c # cs) i = (if take (length w) (c # cs) = w then i else find_at w cs (i + 1))"

definition find_from :: "string \<Rightarrow> string \<Rightarrow> int \<Rightarrow> int" where
  "find_from s w pos = (if int (length s) < pos then NPOS else find_at w (drop (nat pos) s) pos)"

definition find_last_of :: "string \<Rightarrow> string \<Rightarrow> int" where
  "find_last_of s cs =
     (let n = length (dropWhile (\<lambda>c. c \<notin> set cs) (rev s)) in if n = 0 then NPOS else int n - 1)"

definition substr :: "string \<Rightarrow> int \<Rightarrow> int \<Rightarrow> string res" where
  "substr s pos n =
     (if int (length s) < pos then Inl OutOfRange
      else Inr (take (nat (min n (int (length s)))) (drop (nat pos) s)))"

text \<open>One part of the body: the name of the file and its content; \<open>None\<close> for a part that is skipped.\<close>

definition parse_part :: "string \<Rightarrow> (string \<times> string) option res" where
  "parse_part p =
     (let filename_pos = find_from p ''filename='' 0 in
      if filename_pos = NPOS then Inr None
      else
        let filename_start = size_add (find_from p [DQUOTE] filename_pos) 1;
            filename_end = find_from p [DQUOTE] filename_start
        in res_bind (substr p filename_start (size_add filename_end (- filename_start))) (\<lambda>filename.
           let file_content_start = size_add (find_from p [CHR 0x0D, CHR 0x0A, CHR 0x0D, CHR 0x0A] filename_end) 4;
               file_content_end = find_last_of p [CHR 0x0D, CHR 0x0A, CHR ''-'']
           in res_bind (substr p file_content_start (size_add file_content_end (- file_content_start)))
                (\<lambda>file_content. Inr (Some (filename, file_content)))))"

text \<open>
  The loop over the parts. \<open>unique\<close> makes the prefix of the n-th stored file, when one is asked for;
  \<open>save\<close> tells whether the file of a path can be written. The files written are returned in order,
  with the names as they are listed, and the exception that ended the loop.
\<close>

type_synonym upload = "(string \<times> string) list \<times> string"

fun upload_loop ::
    "nat \<Rightarrow> (nat \<Rightarrow> string) option \<Rightarrow> (string \<Rightarrow> bool) \<Rightarrow> string \<Rightarrow> string \<Rightarrow> int \<Rightarrow> upload \<Rightarrow>
     (upload \<times> exc option) option" where
  "upload_loop 0 unique save boundary body pos acc = None"
| "upload_loop (Suc fuel) unique save boundary body pos acc =
     (let end_pos = find_from body boundary pos in
      if end_pos = NPOS then Some (acc, None)
      else
        case res_bind (substr body pos (end_pos - pos)) parse_part of
          Inl e \<Rightarrow> Some (acc, Some e)
        | Inr None \<Rightarrow> upload_loop fuel unique save boundary body (end_pos + int (length boundary)) acc
        | Inr (Some (filename, file_content)) \<Rightarrow>
            (let name = (case unique of None \<Rightarrow> filename | Some u \<Rightarrow> u (length (fst acc)) @ ''_'' @ filename);
                 path = ''uploads/'' @ name
             in if \<not> save path then Some (acc, Some RuntimeError)
                else upload_loop fuel unique save boundary body (end_pos + int (length boundary))
                       (fst acc @ [(path, file_content)], snd acc @ [CHR 0x27] @ name @ [CHR 0x27, CHR '',''])))"

text \<open>
  \<open>fileupload\<close>: the status code, the text of the reply and the files written. \<open>dir\<close> says whether the
  directory exists or can be made, \<open>what\<close> gives the text of an exception.
\<close>

definition fileupload ::
    "bool \<Rightarrow> (nat \<Rightarrow> string) option \<Rightarrow> (string \<Rightarrow> bool) \<Rightarrow> (exc \<Rightarrow> string) \<Rightarrow> string \<Rightarrow> string \<Rightarrow>
     (int \<times> string \<times> (string \<times> string) list) option" where
  "fileupload dir unique save what content_type body =
     (if \<not> dir then Some (500, ''Failed to create directory'', [])
      else if find_from content_type ''multipart/form-data'' 0 = NPOS then Some (400, ''Invalid content type'', [])
      else
        let boundary_pos = find_from content_type ''boundary='' 0 in
        if boundary_pos = NPOS then Some (400, ''Boundary not found'', [])
        else
          let boundary = ''--'' @ drop (nat boundary_pos + 9) content_type in
          map_option (\<lambda>((saved, fileNames), err).
              case err of
                None \<Rightarrow> (200, butlast fileNames @ '']'', saved)
              | Some e \<Rightarrow> (500, ''Server error: '' @ what e, saved))
            (upload_loop (length body + 1) unique save boundary body 0 ([], ''['')))"

end
