(* ===== verification/Http_Text_Props.thy ===== *)
theory Http_Text_Props
  imports Http_Text
begin

text \<open>
  Properties of the text functions of the HTTP server: percent decoding undoes encoding, which lets
  a request for an uploaded file name any path; the multipart parser ends, and gives every stored
  file one byte too many.
\<close>

section \<open>Percent decoding\<close>

definition unreserved :: "char \<Rightarrow> bool" where
  "unreserved c = (let n = of_char c :: nat in
     48 \<le> n \<and> n \<le> 57 \<or> 65 \<le> n \<and> n \<le> 90 \<or> 97 \<le> n \<and> n \<le> 122 \<or> c \<in> set ''-_.~'')"

definition uri_encode_char :: "char \<Rightarrow> string" where
  "uri_encode_char c =
     (if unreserved c then [c] else [CHR ''%'', to_hex (of_char c div 16), to_hex (of_char c mod 16)])"

definition uri_encode :: "string \<Rightarrow> string" where
  "uri_encode s = concat (map uri_encode_char s)"

lemma hex_digit:
  assumes "n < 16"
  shows "is_hex (to_hex n)" "from_hex (to_hex n) = n" "to_hex n \<noteq> CHR ''/''" "to_hex n \<noteq> NUL"
proof -
  show d: "is_hex (to_hex n)" "from_hex (to_hex n) = n" using hex_of_nibble [OF assms] by simp_all
  show "to_hex n \<noteq> CHR ''/''" "to_hex n \<noteq> NUL" using d(1) by (auto simp: is_hex_def Let_def)
qed

lemma char_nibbles: "of_char c div 16 < (16 :: nat)" "of_char c mod 16 < (16 :: nat)"
  using nat_of_char_less_256 [of c] by (simp_all add: less_mult_imp_div_less)

lemma unreserved_plain: "unreserved c \<Longrightarrow> c \<noteq> CHR ''%'' \<and> c \<noteq> CHR ''+'' \<and> c \<noteq> CHR ''/'' \<and> c \<noteq> NUL"
  by (auto simp: unreserved_def)

lemma decode_encoded_char: "uri_decode (uri_encode_char c @ rest) = c # uri_decode rest"
proof -
  have "of_char c div 16 * 16 + of_char c mod 16 = (of_char c :: nat)" by simp
  then have "char_of (of_char c div 16 * 16 + of_char c mod 16 :: nat) = c" by (simp only: char_of_char)
  then show ?thesis using unreserved_plain [of c]
    by (simp add: uri_encode_char_def hex_digit char_nibbles)
qed

lemma decode_encoded: "uri_decode (uri_encode s) = s"
  by (induction s) (simp_all add: uri_encode_def decode_encoded_char)

lemma encoded_plain: "CHR ''/'' \<notin> set (uri_encode s)" "NUL \<notin> set (uri_encode s)"
  using unreserved_plain hex_digit [OF char_nibbles(1)] hex_digit [OF char_nibbles(2)]
  by (auto simp: uri_encode_def uri_encode_char_def) metis+

text \<open>Percent decoding gives back every text from its percent encoding.\<close>

theorem uri_roundtrip: "uri_decode (uri_encode s) = s"
  by (rule decode_encoded)

text \<open>The route for uploaded files serves any file the process can read: for every path, relative
  steps upwards included, there is a request of one path segment (it holds no slash) that is answered
  with the file at that path, counted from the upload directory.\<close>

theorem any_file_is_served:
  "\<exists>segment. CHR ''/'' \<notin> set segment \<and> serve_upload fs segment = getFile fs (''uploads/'' @ path)"
  by (rule exI [of _ "uri_encode path"])
    (simp add: serve_upload_def encoded_plain c_str_id decode_encoded)

section \<open>Uploads\<close>

abbreviation CR :: char where "CR \<equiv> CHR 0x0D"
abbreviation LF :: char where "LF \<equiv> CHR 0x0A"

text \<open>\<open>w\<close> occurs first in \<open>u @ w @ v\<close> right after \<open>u\<close>.\<close>

definition first_at :: "string \<Rightarrow> string \<Rightarrow> string \<Rightarrow> bool" where
  "first_at w u v = list_all (\<lambda>i. take (length w) (drop i (u @ w @ v)) \<noteq> w) [0..<length u]"

lemma find_at_first: "first_at w u v \<Longrightarrow> find_at w (u @ w @ v) i = i + int (length u)"
proof (induction u arbitrary: i)
  case Nil
  show ?case by (cases "w @ v") (auto, metis append_eq_conv_conj)
next
  case (Cons c u)
  have all: "\<forall>i \<in> set [0..<length (c # u)]. take (length w) (drop i ((c # u) @ w @ v)) \<noteq> w"
    using Cons.prems unfolding first_at_def list_all_iff .
  have "take (length w) (drop j (u @ w @ v)) \<noteq> w" if "j < length u" for j
  proof -
    have "Suc j \<in> set [0..<length (c # u)]" using that by (simp, arith)
    from bspec [OF all this] show ?thesis by (simp del: drop_append)
  qed
  then have "first_at w u v" by (simp add: first_at_def list_all_iff)
  moreover have "take (length w) (c # u @ w @ v) \<noteq> w" using bspec [OF all, of 0] by simp
  ultimately show ?case using Cons.IH by simp
qed

lemma find_char: "c \<notin> set u \<Longrightarrow> find_at [c] (u @ c # v) i = i + int (length u)"
  by (induction u arbitrary: i) auto

lemma find_from_at:
  "s = x @ y \<Longrightarrow> pos = int (length x) \<Longrightarrow> find_from s w pos = find_at w y pos"
  by (simp add: find_from_def)

lemma size_add_small: "0 \<le> a + b \<Longrightarrow> a + b \<le> NPOS \<Longrightarrow> size_add a b = a + b"
  by (simp add: size_add_def)

lemma substr_mid:
  "s = x @ y @ z \<Longrightarrow> pos = int (length x) \<Longrightarrow> n = int (length y) \<Longrightarrow> substr s pos n = Inr y"
  by (simp add: substr_def)

definition upload_part :: "string \<Rightarrow> string \<Rightarrow> string \<Rightarrow> string \<Rightarrow> string" where
  "upload_part u name v body =
     u @ ''filename='' @ DQUOTE # name @ DQUOTE # v @ [CR, LF, CR, LF] @ body @ [CR, LF]"

lemma parse_upload_part:
  assumes "first_at ''filename='' u (DQUOTE # name @ DQUOTE # v @ [CR, LF, CR, LF] @ body @ [CR, LF])"
    and "DQUOTE \<notin> set name" "first_at [CR, LF, CR, LF] v (body @ [CR, LF])"
    and "int (length (upload_part u name v body)) + 4 \<le> NPOS"
  shows "parse_part (upload_part u name v body) = Inr (Some (name, body @ [CR]))"
proof -
  let ?p = "upload_part u name v body"
  define a where "a = int (length u)"
  define b where "b = a + 10"
  define c where "c = b + int (length name)"
  define d where "d = c + 1 + int (length v) + 4"
  have len: "int (length ?p) = d + int (length body) + 2"
    by (simp add: upload_part_def a_def b_def c_def d_def)
  have pos: "0 \<le> a" "0 \<le> int (length body)" by (simp_all add: a_def)
  have f1: "find_from ?p ''filename='' 0 = a"
    using find_at_first [OF assms(1), of 0] by (simp add: find_from_def upload_part_def a_def)
  have f2: "find_from ?p [DQUOTE] a = b - 1"
    using find_char [of DQUOTE "''filename=''" "name @ DQUOTE # v @ [CR, LF, CR, LF] @ body @ [CR, LF]" a]
      find_from_at [of ?p u "''filename='' @ DQUOTE # name @ DQUOTE # v @ [CR, LF, CR, LF] @ body @ [CR, LF]" a]
    by (simp add: upload_part_def a_def b_def)
  have f3: "find_from ?p [DQUOTE] b = c"
    using find_char [OF assms(2), of "v @ [CR, LF, CR, LF] @ body @ [CR, LF]" b]
      find_from_at [of ?p "u @ ''filename='' @ [DQUOTE]" "name @ DQUOTE # v @ [CR, LF, CR, LF] @ body @ [CR, LF]" b]
    by (simp add: upload_part_def a_def b_def c_def)
  have f4: "find_from ?p [CR, LF, CR, LF] c = d - 4"
    using find_at_first [OF assms(3), of "c + 1"]
      find_from_at [of ?p "u @ ''filename='' @ DQUOTE # name" "DQUOTE # v @ [CR, LF, CR, LF] @ body @ [CR, LF]" c]
    by (simp add: upload_part_def a_def b_def c_def d_def)
  have f5: "find_last_of ?p [CR, LF, CHR ''-''] = int (length ?p) - 1"
    by (simp add: find_last_of_def upload_part_def)
  have s1: "substr ?p b (c - b) = Inr name"
    by (rule substr_mid [where x = "u @ ''filename='' @ [DQUOTE]" and z = "DQUOTE # v @ [CR, LF, CR, LF] @ body @ [CR, LF]"])
      (simp_all add: upload_part_def a_def b_def c_def)
  have s2: "substr ?p d (int (length ?p) - 1 - d) = Inr (body @ [CR])"
    by (rule substr_mid [where x = "u @ ''filename='' @ DQUOTE # name @ DQUOTE # v @ [CR, LF, CR, LF]" and z = "[LF]"])
      (simp_all add: len, simp_all add: upload_part_def a_def b_def c_def d_def)
  have "a \<noteq> NPOS" using len pos assms(4) by (simp add: b_def c_def d_def)
  moreover have "size_add (b - 1) 1 = b" "size_add c (- b) = c - b" "size_add (d - 4) 4 = d"
    "size_add (int (length ?p) - 1) (- d) = int (length ?p) - 1 - d"
    using len pos assms(4) by (subst size_add_small; simp add: b_def c_def d_def)+
  ultimately show ?thesis
    by (simp add: parse_part_def Let_def f1 f2 f3 f4 f5 s1 s2)
qed

text \<open>The body of a form with one file, as browsers send it.\<close>

definition one_file_form :: "string \<Rightarrow> string \<Rightarrow> string" where
  "one_file_form boundary part =
     ''--'' @ boundary @ part @ ''--'' @ boundary @ ''--'' @ [CR, LF]"

lemma find_at_start: "find_at w (w @ v) i = i"
  by (cases "w @ v") (auto, metis append_eq_conv_conj)

lemma no_boundary_left:
  assumes "b \<noteq> []" "CR \<notin> set b"
  shows "find_at (''--'' @ b) [CHR ''-'', CHR ''-'', CR, LF] i = NPOS"
proof -
  obtain c cs where b: "b = c # cs" "c \<noteq> CR" using assms by (cases b) auto
  then show ?thesis by (auto simp: take_Cons')
qed

lemma two_searches:
  assumes "boundary \<noteq> []" "CR \<notin> set boundary" "first_at (''--'' @ boundary) part (''--'' @ [CR, LF])"
  defines "B \<equiv> ''--'' @ boundary" and "body \<equiv> one_file_form boundary part"
  shows "find_from body B 0 = 0"
    "find_from body B (int (length B)) = int (length B) + int (length part)"
    "find_from body B (int (length B) + int (length part) + int (length B)) = NPOS"
proof -
  have body: "body = B @ part @ B @ [CHR ''-'', CHR ''-'', CR, LF]"
    by (simp add: body_def B_def one_file_form_def)
  show "find_from body B 0 = 0" unfolding body by (simp add: find_from_def find_at_start)
  show "find_from body B (int (length B)) = int (length B) + int (length part)"
    using find_from_at [OF body refl, of B] find_at_first [OF assms(3), of "int (length B)"]
    by (simp add: B_def)
  have "body = (B @ part @ B) @ [CHR ''-'', CHR ''-'', CR, LF]" by (simp add: body)
  from find_from_at [OF this, of _ B] no_boundary_left [OF assms(1,2)]
  show "find_from body B (int (length B) + int (length part) + int (length B)) = NPOS"
    by (simp add: B_def)
qed

lemma upload_one:
  assumes "boundary \<noteq> []" "CR \<notin> set boundary" "first_at (''--'' @ boundary) part (''--'' @ [CR, LF])"
    and "parse_part part = Inr (Some (name, content))" "save (''uploads/'' @ name)"
    and "int (length (one_file_form boundary part)) < NPOS"
  shows "upload_loop (Suc (Suc (Suc fuel))) None save (''--'' @ boundary) (one_file_form boundary part) 0 ([], ''['') =
    Some (([(''uploads/'' @ name, content)], ''['' @ [CHR 0x27] @ name @ [CHR 0x27, CHR '','']), None)"
proof -
  let ?B = "''--'' @ boundary" and ?body = "one_file_form boundary part"
  note finds = two_searches [OF assms(1-3)]
  have s0: "substr ?body 0 (0 - 0) = Inr []" by (simp add: substr_def)
  have p0: "parse_part [] = Inr None" by (simp add: parse_part_def find_from_def NPOS_def)
  have s1: "substr ?body (int (length ?B)) (int (length ?B) + int (length part) - int (length ?B)) = Inr part"
    by (rule substr_mid [where x = ?B and z = "?B @ ''--'' @ [CR, LF]"]) (simp_all add: one_file_form_def)
  have ends: "(0::int) \<noteq> NPOS" "int (length ?B) + int (length part) \<noteq> NPOS" "0 + int (length ?B) = int (length ?B)"
    using assms(6) by (simp_all add: one_file_form_def NPOS_def)
  show ?thesis
    unfolding upload_loop.simps Let_def finds s0 s1 p0 ends(3) res_bind_simps sum.case option.case prod.case
    using ends assms(4,5) finds by simp
qed

lemma find_at_bound:
  "find_at w s i \<noteq> NPOS \<Longrightarrow> i \<le> find_at w s i \<and> find_at w s i + int (length w) \<le> i + int (length s)"
proof (induction s arbitrary: i)
  case (Cons c s)
  show ?case
  proof (cases "take (length w) (c # s) = w")
    case True
    then have "length w \<le> length (c # s)" by (metis length_take min.cobounded1)
    with True show ?thesis by simp
  next
    case False
    then show ?thesis using Cons.IH [of "i + 1"] Cons.prems by simp
  qed
qed (auto split: if_splits)

lemma find_from_bound:
  assumes "find_from s w pos \<noteq> NPOS" "0 \<le> pos"
  shows "pos \<le> find_from s w pos" "find_from s w pos + int (length w) \<le> int (length s)"
  using assms find_at_bound [of w "drop (nat pos) s" pos] by (auto simp: find_from_def split: if_splits)

lemma upload_loop_ends:
  "boundary \<noteq> [] \<Longrightarrow> 0 \<le> pos \<Longrightarrow> int (length body) - pos < int fuel \<Longrightarrow> 0 < fuel \<Longrightarrow>
    \<exists>r. upload_loop fuel unique save boundary body pos acc = Some r"
proof (induction fuel arbitrary: pos acc)
  case (Suc fuel)
  let ?e = "find_from body boundary pos"
  show ?case
  proof (cases "?e = NPOS")
    case False
    note b = find_from_bound [OF False Suc.prems(2)]
    have pos: "0 \<le> ?e + int (length boundary)" "int (length body) - (?e + int (length boundary)) < int fuel" "0 < fuel"
      using b Suc.prems length_greater_0_conv [of boundary] by linarith+
    show ?thesis using False Suc.IH [OF Suc.prems(1) pos]
      by (auto simp: Let_def split: sum.splits option.splits prod.splits)
  qed simp
qed simp

text \<open>Handling an upload always ends with a reply, whatever the body.\<close>

theorem upload_ends: "fileupload dir unique save what content_type body \<noteq> None"
proof -
  have "upload_loop (length body + 1) unique save (''--'' @ drop (nat b + 9) content_type) body 0 ([], ''['') \<noteq> None" for b
    using upload_loop_ends [where boundary = "''--'' @ drop (nat b + 9) content_type" and pos = 0 and fuel = "length body + 1"]
    by fastforce
  then show ?thesis by (simp add: fileupload_def Let_def map_option_is_None del: upload_loop.simps not_None_eq)
qed

text \<open>An uploaded file is stored with one byte too many. The form a browser sends for one file is
  accepted and stored under the name it gives, in the upload directory; but the content that is
  written is that of the file followed by a carriage return, which belongs to the boundary.\<close>

theorem upload_adds_byte:
  assumes "boundary \<noteq> []" "CR \<notin> set boundary"
    and "first_at (''--'' @ boundary) (upload_part u name v body) (''--'' @ [CR, LF])"
    and "first_at ''filename='' u (DQUOTE # name @ DQUOTE # v @ [CR, LF, CR, LF] @ body @ [CR, LF])"
    and "DQUOTE \<notin> set name" "first_at [CR, LF, CR, LF] v (body @ [CR, LF])" "save (''uploads/'' @ name)"
    and "int (length (one_file_form boundary (upload_part u name v body))) < NPOS"
  shows "fileupload True None save what (''multipart/form-data; boundary='' @ boundary)
      (one_file_form boundary (upload_part u name v body)) =
    Some (200, ''['' @ [CHR 0x27] @ name @ [CHR 0x27, CHR '']''], [(''uploads/'' @ name, body @ [CR])])"
proof -
  let ?p = "upload_part u name v body"
  have "int (length ?p) + 4 \<le> NPOS" using assms(8) by (simp add: one_file_form_def)
  from parse_upload_part [OF assms(4-6) this] have part: "parse_part ?p = Inr (Some (name, body @ [CR]))" .
  obtain fuel where fuel: "length (one_file_form boundary ?p) = Suc (Suc fuel)"
    by (rule that [of "length (one_file_form boundary ?p) - 2"]) (simp add: one_file_form_def)
  have "find_from (''multipart/form-data; boundary='' @ boundary) ''multipart/form-data'' 0 = 0"
    "find_from (''multipart/form-data; boundary='' @ boundary) ''boundary='' 0 = 21"
    by (simp_all add: find_from_def)
  moreover have "upload_loop (Suc (Suc (Suc fuel))) None save (''--'' @ boundary) (one_file_form boundary ?p) 0 ([], ''['') =
      Some (([(''uploads/'' @ name, body @ [CR])], ''['' @ [CHR 0x27] @ name @ [CHR 0x27, CHR '','']), None)"
    by (rule upload_one) (use assms part in simp_all)
  ultimately show ?thesis by (simp add: fileupload_def Let_def fuel NPOS_def butlast_append del: upload_loop.simps)
qed

theorem upload_adds_byte_witness:
  "fileupload True None (\<lambda>p. True) (\<lambda>e. []) (''multipart/form-data; boundary='' @ ''B'')
      (one_file_form ''B'' (upload_part ([CR, LF] @ ''form-data; '') ''a.txt'' [] ''hi'')) =
    Some (200, ''['' @ [CHR 0x27] @ ''a.txt'' @ [CHR 0x27, CHR '']''], [(''uploads/'' @ ''a.txt'', ''hi'' @ [CR])])"
  by (rule upload_adds_byte)
    (simp_all add: first_at_def one_file_form_def upload_part_def NPOS_def upt_rec)

end
