(* ===== verification/Http_Routes.thy ===== *)
theory Http_Routes
  imports Http_Text Search_Routes Requests Queries Orm Geo
begin

text \<open>
  The HTTP interface of the key-value core, \<open>HttpRouter::BuildHttpRoutes\<close> of
  \<^verbatim>\<open>include/httprouting.hpp\<close>: the parameters of a request, one definition per handler and the
  table of the routes. A handler gets the request and the state of the node and returns the reply,
  or the exception that leaves it, with the new state. What the code takes from outside is in a
  record: the library functions, the sorting algorithm, floating point arithmetic, the bits of a
  coordinate, the random identifier and the text of a caught exception. The listings catch the
  exceptions of their entries themselves, so that the results a handler reports beside a caught
  exception are empty (\<open>Http_Props\<close>). Two parameters that are converted in one call may be
  converted in either order; the model takes them from left to right.
\<close>

record env =
  env_lib :: lib
  env_sorter :: sorter
  env_floats :: float_ops
  env_usable :: "nat \<Rightarrow> nat"
  env_uuid :: string
  env_what :: string

text \<open>A text, a JSON value, or a text that other origins may read.\<close>

datatype web_reply = Text string | Json wvalue | Allowed string

type_synonym 'db handler = "web_request \<Rightarrow> ('db, web_reply) op"

section \<open>Parameters\<close>

record query_params =
  q_wild :: string
  q_skip :: string
  q_limit :: string

definition param_or :: "web_request \<Rightarrow> string \<Rightarrow> string \<Rightarrow> string" where
  "param_or req name dflt =
     (case url_param req name of None \<Rightarrow> dflt | Some v \<Rightarrow> if v = [] then dflt else v)"

definition Parse :: "web_request \<Rightarrow> query_params" where
  "Parse req = \<lparr>q_wild = param_or req ''keys'' [], q_skip = param_or req ''skip'' ''0'',
     q_limit = param_or req ''limit'' ''-1''\<rparr>"

definition with_window :: "query_params \<Rightarrow> (int \<Rightarrow> int \<Rightarrow> 'a res) \<Rightarrow> 'a res" where
  "with_window q f =
     res_bind (stoi (q_skip q)) (\<lambda>skip. res_bind (stoi (q_limit q)) (\<lambda>limit. f skip limit))"

definition window_op :: "query_params \<Rightarrow> (int \<Rightarrow> int \<Rightarrow> ('db, 'a) op) \<Rightarrow> ('db, 'a) op" where
  "window_op q f s =
     (case with_window q (\<lambda>skip limit. Inr (skip, limit)) of
        Inl e \<Rightarrow> (Inl e, s) | Inr (skip, limit) \<Rightarrow> f skip limit s)"

definition json_body :: "web_request \<Rightarrow> 'a \<Rightarrow> (rvalue \<Rightarrow> ('db, 'a) op) \<Rightarrow> ('db, 'a) op" where
  "json_body req bad f s =
     (case load (body_of req) of None \<Rightarrow> (Inr bad, s) | Some x \<Rightarrow> f x s)"

text \<open>A handler that only reads, and the reply of an operation that fills a text.\<close>

definition reading :: "('db core \<Rightarrow> 'a res) \<Rightarrow> ('db, 'a) op" where
  "reading f s = (f s, s)"

definition map_reply :: "('a \<Rightarrow> 'b) \<Rightarrow> ('db, 'a) op \<Rightarrow> ('db, 'b) op" where
  "map_reply g f s = (let (r, s') = f s in (res_bind r (\<lambda>a. Inr (g a)), s'))"

definition text_reply :: "('db, bool \<times> string) op \<Rightarrow> ('db, web_reply) op" where
  "text_reply f = map_reply (\<lambda>(ret, out). Text out) f"

section \<open>Single keys and batches\<close>

definition route_postjson :: "'db rocks \<Rightarrow> env \<Rightarrow> 'db handler" where
  "route_postjson R X req = text_reply (post R (env_lib X) (req_body req))"

definition route_put :: "'db rocks \<Rightarrow> env \<Rightarrow> 'db handler" where
  "route_put R X req = text_reply (put R (env_lib X) (body_of req))"

definition route_putatom :: "'db rocks \<Rightarrow> env \<Rightarrow> 'db handler" where
  "route_putatom R X req = text_reply (putAtom_body R (env_lib X) (body_of req))"

definition route_removeatom :: "'db rocks \<Rightarrow> env \<Rightarrow> 'db handler" where
  "route_removeatom R X req = text_reply (removeAtom_body R (env_lib X) (body_of req))"

definition route_atom :: "'db rocks \<Rightarrow> env \<Rightarrow> 'db handler" where
  "route_atom R X req = text_reply (atom R (env_lib X) (body_of req))"

definition route_putjson :: "'db rocks \<Rightarrow> env \<Rightarrow> 'db handler" where
  "route_putjson R X req = map_reply (\<lambda>(ret, out). Allowed out) (put R (env_lib X) (req_body req))"

definition route_incrvalue :: "'db rocks \<Rightarrow> env \<Rightarrow> 'db handler" where
  "route_incrvalue R X req = text_reply (incrementValue R (env_lib X) (body_of req))"

definition route_geoput :: "'db rocks \<Rightarrow> env \<Rightarrow> 'db handler" where
  "route_geoput R X req = text_reply (geoput R (env_lib X) (body_of req))"

text \<open>A route with the parameter \<open>key\<close>.\<close>

definition key_route :: "web_request \<Rightarrow> (string \<Rightarrow> 'db core \<Rightarrow> string \<times> 'db core) \<Rightarrow> ('db, web_reply) op" where
  "key_route req f s =
     (let key = (case url_param req ''key'' of None \<Rightarrow> [] | Some k \<Rightarrow> k) in
      if key \<noteq> [] then (let (out, s') = f key s in (Inr (Text out), s'))
      else (Inr (Text ''{\"error\": \"parameter 'key' missing\"}''), s))"

definition route_existkey :: "'db rocks \<Rightarrow> env \<Rightarrow> 'db handler" where
  "route_existkey R X req = key_route req (\<lambda>key s. (snd (exists_key R key s), s))"

definition route_get :: "'db rocks \<Rightarrow> env \<Rightarrow> 'db handler" where
  "route_get R X req = key_route req (\<lambda>key s. let ((ret, v), s') = get R key s in (v, s'))"

definition route_removekey :: "'db rocks \<Rightarrow> env \<Rightarrow> 'db handler" where
  "route_removekey R X req =
     key_route req (\<lambda>key s. let ((ret, out), s') = remove_key R (env_lib X) key s in (out, s'))"

definition route_incr :: "'db rocks \<Rightarrow> env \<Rightarrow> 'db handler" where
  "route_incr R X req = json_body req (Text ''invalid Json Body'') (\<lambda>x s.
     case res_bind (string_of x ''key'') (\<lambda>key.
          res_bind (res_bind (r_get x ''step'') (r_i (env_lib X))) (\<lambda>step. Inr (key, wrap32 step))) of
       Inl e \<Rightarrow> (Inl e, s)
     | Inr (key, stepBy) \<Rightarrow>
         (let ((ret, out), s') = increment R (env_lib X) key stepBy s in (Inr (Text out), s')))"

definition route_make :: "'db rocks \<Rightarrow> env \<Rightarrow> 'db handler" where
  "route_make R X req s =
     (let (r, s') = makePair R (env_lib X) (env_uuid X) (body_of req) WNull s in
      (on_error r (\<lambda>(ret, out). Inr (Json out)) (Json (error_reply ''runtime error'')), s'))"

text \<open>The body of the request is read here, never the parameter.\<close>

definition route_getjson :: "'db rocks \<Rightarrow> env \<Rightarrow> 'db handler" where
  "route_getjson R X req s =
     (case load (req_body req) of
        None \<Rightarrow> (Inr (Json (error_reply ''invalid parameters'')), s)
      | Some x \<Rightarrow>
          (let (r, s') = (case string_of x ''key'' of
                  Inl e \<Rightarrow> (Inl e, s) | Inr key \<Rightarrow> getJson R (env_lib X) key s) in
           (on_error r (\<lambda>v. Inr (Json (case v of None \<Rightarrow> WNull | Some w \<Rightarrow> w)))
              (Json (error_reply ''parameter 'key' missing'')), s')))"

section \<open>Listings\<close>

definition runtime_reply :: "string \<Rightarrow> wvalue list \<Rightarrow> wvalue" where
  "runtime_reply what rs =
     w_set (w_set WNull ''error'' (w_set WNull ''reason'' (WString what))) ''result'' (WList rs)"

definition runtime_text :: "lib \<Rightarrow> string \<Rightarrow> string \<Rightarrow> string" where
  "runtime_text L what rs =
     dump_json L (w_set (w_set WNull ''error'' (w_set WNull ''reason'' (WString what))) ''result'' (WString rs))"

definition missing_keys :: wvalue where
  "missing_keys = w_set WNull ''error'' (WString ''{\"error\":\"parameter 'keys' missing\"}'')"

definition results_reply :: "string \<Rightarrow> results res \<Rightarrow> wvalue res" where
  "results_reply what r = on_error r
     (\<lambda>(ret, rs). let out = w_set WNull ''result'' (WList rs) in
        Inr (if ret then out
             else w_set out ''error'' (WString ''{\"error\" : \"query returned error\"}'')))
     (runtime_reply what [])"

definition route_getall :: "'db rocks \<Rightarrow> env \<Rightarrow> 'db handler" where
  "route_getall R X req = map_reply Json (reading (\<lambda>s.
     let q = Parse req in
     if q_wild q = [] then Inr missing_keys
     else results_reply (env_what X) (with_window q (\<lambda>skip limit. getAll R (env_lib X) (q_wild q) [] skip limit s))))"

definition route_getsorted :: "'db rocks \<Rightarrow> env \<Rightarrow> 'db handler" where
  "route_getsorted R X req = map_reply Json (reading (\<lambda>s.
     let q = Parse req; ascending = (param_or req ''des'' ''false'' \<noteq> ''true'') in
     if q_wild q = [] then Inr missing_keys
     else results_reply (env_what X) (with_window q (\<lambda>skip limit.
       getSorted R (env_lib X) (env_sorter X) (q_wild q) (param_or req ''sortby'' []) ascending [] skip limit
         (param_or req ''filter'' []) s))))"

definition is_reverse :: "web_request \<Rightarrow> bool" where
  "is_reverse req = (param_or req ''reverse'' ''false'' = ''true'')"

text \<open>The last character of the text is overwritten when the listing fails.\<close>

definition keys_text :: "bool \<times> string \<Rightarrow> string res" where
  "keys_text r = (case r of (ret, out) \<Rightarrow>
     if ret then Inr out
     else if out = [] then Inl Undefined
     else Inr (butlast out @ '','' @ ''\"error\" : \"wildcard or db error\"}''))"

definition route_getkeys :: "'db rocks \<Rightarrow> env \<Rightarrow> 'db handler" where
  "route_getkeys R X req = map_reply Allowed (reading (\<lambda>s.
     let q = Parse req in
     on_error
       (if q_wild q = [] then Inr []
        else res_bind (with_window q (\<lambda>skip limit.
               if is_reverse req then getKeysReversed_text R (q_wild q) [] skip limit s
               else getKeys_text R (q_wild q) [] skip limit s)) keys_text)
       Inr (runtime_text (env_lib X) (env_what X) [])))"

text \<open>Without the parameter \<open>keys\<close> the message is set, and then overwritten.\<close>

definition route_getcount :: "'db rocks \<Rightarrow> env \<Rightarrow> 'db handler" where
  "route_getcount R X req = map_reply Text (reading (\<lambda>s.
     let q = Parse req in
     on_error
       (if q_wild q = [] then Inr (False, ''{\"error\": \"parameter 'key' missing\"}'')
        else with_window q (\<lambda>skip limit.
          res_bind (getCount R (env_lib X) (q_wild q) 0 skip limit s) (\<lambda>(ret, n). Inr (ret, to_string n))))
       (\<lambda>(ret, out). Inr (if ret then out else ''{\"error\" : \"counting error\"}''))
       (env_what X)))"

definition route_iter :: "'db rocks \<Rightarrow> env \<Rightarrow> 'db handler" where
  "route_iter R X req = map_reply (\<lambda>w. Allowed (dump_json (env_lib X) w)) (reading (\<lambda>s.
     results_reply (env_what X) (with_window (Parse req) (\<lambda>skip limit.
       if is_reverse req then iterReversed R (env_lib X) [] skip limit s
       else iter R (env_lib X) [] skip limit s))))"

definition route_removekeys :: "'db rocks \<Rightarrow> env \<Rightarrow> 'db handler" where
  "route_removekeys R X req s =
     (let q = Parse req in
      if q_wild q = [] then (Inr (Json missing_keys), s)
      else let (r, s') = window_op q (\<lambda>skip limit. removeAll R (env_lib X) (q_wild q) skip limit) s in
        (on_error r (\<lambda>n. Inr (Json (w_set WNull ''result'' (WNumber (double_of_int n)))))
           (Json (error_reply (env_what X))), s'))"

section \<open>Queries with a JSON body\<close>

definition route_getlist :: "'db rocks \<Rightarrow> env \<Rightarrow> 'db handler" where
  "route_getlist R X req =
     json_body req (Text ''{\"result\":[],\"error\":\"invalid json body\"}'') (\<lambda>x.
       text_reply (window_op (Parse req) (\<lambda>skip limit. getList_text R x [] skip limit)))"

definition items_reply :: "bool \<times> wvalue \<Rightarrow> wvalue" where
  "items_reply r = (case r of (ret, w) \<Rightarrow>
     if ret then w
     else w_set w ''error'' (WString ''One or more keys did not retrieve the corresponding item''))"

definition route_getitems :: "'db rocks \<Rightarrow> env \<Rightarrow> 'db handler" where
  "route_getitems R X req = json_body req (Json (error_reply ''invalid parameters'')) (\<lambda>x.
     map_reply (\<lambda>r. Json (items_reply r)) (reading (\<lambda>s.
       with_window (Parse req) (\<lambda>skip limit. getItems R (env_lib X) x WNull skip limit s))))"

definition empty_result :: wvalue where
  "empty_result = w_set WNull ''result'' (WString [])"

definition invalid_query :: web_reply where
  "invalid_query = Json (w_set empty_result ''error'' (WString ''invalid parameters''))"

definition query_reply :: "results \<Rightarrow> wvalue" where
  "query_reply r = (case r of (ret, rs) \<Rightarrow>
     let w = w_set empty_result ''result'' (WList rs) in
     if ret then w else w_set w ''error'' (WString ''runtime error''))"

definition route_getjoinedmap :: "'db rocks \<Rightarrow> env \<Rightarrow> 'db handler" where
  "route_getjoinedmap R X req = json_body req invalid_query (\<lambda>x.
     map_reply (\<lambda>r. Json (query_reply r)) (reading (\<lambda>s.
       with_window (Parse req) (\<lambda>skip limit. getJoinedMap R (env_lib X) x [] skip limit s))))"

definition route_getkeysafter :: "'db rocks \<Rightarrow> env \<Rightarrow> 'db handler" where
  "route_getkeysafter R X req = json_body req invalid_query (\<lambda>x.
     map_reply (\<lambda>r. Json (query_reply r)) (reading (\<lambda>s.
       with_window (Parse req) (\<lambda>skip limit. getKeysAfter R (env_lib X) x [] skip limit s))))"

definition route_getkeyslast :: "'db rocks \<Rightarrow> env \<Rightarrow> 'db handler" where
  "route_getkeyslast R X req = json_body req invalid_query (\<lambda>x.
     map_reply (\<lambda>r. Json (query_reply r)) (reading (\<lambda>s. getKeysLast R (env_lib X) x [] s)))"

text \<open>The result flag of the search is not looked at.\<close>

definition found_reply :: "wvalue list \<Rightarrow> wvalue \<Rightarrow> wvalue" where
  "found_reply rs w = (if rs = [] then w else w_set w ''result'' (WList rs))"

definition route_searchjson :: "'db rocks \<Rightarrow> env \<Rightarrow> 'db handler" where
  "route_searchjson R X req = json_body req invalid_query (\<lambda>x.
     map_reply (\<lambda>(ret, rs). Json (found_reply rs empty_result))
       (window_op (Parse req) (\<lambda>skip limit. searchJson R (env_lib X) x [] skip limit)))"

definition route_geonear :: "'db rocks \<Rightarrow> env \<Rightarrow> 'db handler" where
  "route_geonear R X req = map_reply
     (\<lambda>((ret, rs), out). let w = found_reply rs out in
        Json (if ret then w else w_set w ''error'' (WString ''geonear runtime error occured'')))
     (reading (\<lambda>s. with_window (Parse req) (\<lambda>skip limit.
        geonear R (env_lib X) (env_floats X) (env_usable X) (body_of req) empty_result [] skip limit s)))"

section \<open>Administration\<close>

definition setLogger :: "string \<Rightarrow> 'db core \<Rightarrow> bool \<times> 'db core" where
  "setLogger url s = (True, s\<lparr>loggerUrl := url, hasLogger := True\<rparr>)"

definition route_log :: "'db handler" where
  "route_log req s =
     (let url = (case url_param req ''url'' of None \<Rightarrow> req_body req | Some u \<Rightarrow> u);
          (ok, s') = setLogger (c_str url) s
      in (Inr (Text (if ok then ''{\"result\":true}'' else ''{\"result\":false}'')), s'))"

text \<open>The wait of \<open>test\<close> is left out.\<close>

definition route_test :: "'db handler" where
  "route_test req = map_reply (\<lambda>seconds. Text ''{\"result\":true}'') (reading (\<lambda>s.
     stoi (case url_param req ''timeout'' of None \<Rightarrow> ''1'' | Some t \<Rightarrow> t)))"

definition route_ping :: "'db handler" where
  "route_ping req s = (Inr (Text ''pong''), s)"

definition route_ai :: "'db handler" where
  "route_ai req s = (Inr (Allowed ''Feature not available''), s)"

section \<open>The table\<close>

datatype http_method = GET | POST

text \<open>A route without \<^verbatim>\<open>.methods\<close> is one for GET requests.\<close>

definition http_routes :: "'db rocks \<Rightarrow> env \<Rightarrow> (string \<times> http_method list \<times> 'db handler) list" where
  "http_routes R X =
     [(''/put'', [GET], route_put R X), (''/exists'', [GET], route_existkey R X), (''/get'', [GET], route_get R X),
      (''/getall'', [GET], route_getall R X), (''/getsorted'', [GET], route_getsorted R X),
      (''/getkeys'', [GET], route_getkeys R X), (''/getcount'', [GET], route_getcount R X),
      (''/iter'', [GET], route_iter R X), (''/remove'', [GET], route_removekey R X),
      (''/removeall'', [GET], route_removekeys R X), (''/remove/atom'', [GET, POST], route_removeatom R X),
      (''/putjson'', [POST], route_putjson R X), (''/postjson'', [POST], route_postjson R X),
      (''/put/atom'', [GET, POST], route_putatom R X), (''/atom'', [GET, POST], route_atom R X),
      (''/make'', [GET, POST], route_make R X), (''/getjson'', [GET, POST], route_getjson R X),
      (''/getlist'', [GET, POST], route_getlist R X), (''/getitems'', [GET, POST], route_getitems R X),
      (''/getjoinedmap'', [GET, POST], route_getjoinedmap R X),
      (''/getkeysafter'', [GET, POST], route_getkeysafter R X),
      (''/getkeyslast'', [GET, POST], route_getkeyslast R X), (''/incr'', [GET, POST], route_incr R X),
      (''/incrval'', [GET, POST], route_incrvalue R X), (''/searchjson'', [GET, POST], route_searchjson R X),
      (''/geo/put'', [GET, POST], route_geoput R X), (''/geo/near'', [GET, POST], route_geonear R X),
      (''/log'', [GET, POST], route_log), (''/test'', [GET, POST], route_test),
      (''/ping'', [GET], route_ping), (''/ai'', [GET], route_ai)]"

text \<open>A request of the table; \<open>None\<close> when no route takes it.\<close>

definition serve_http ::
    "'db rocks \<Rightarrow> env \<Rightarrow> http_method \<Rightarrow> string \<Rightarrow> web_request \<Rightarrow> ('db, web_reply option) op" where
  "serve_http R X m path req s =
     (case map_of (http_routes R X) path of
        Some (ms, h) \<Rightarrow> if m \<in> set ms then map_reply Some (h req) s else (Inr None, s)
      | None \<Rightarrow> (Inr None, s))"

end
