(* ===== verification/Tcp_Routes.thy ===== *)
theory Tcp_Routes
  imports Http_Routes
begin

text \<open>
  The TCP interface: the requests and the router of \<^verbatim>\<open>include/routing.hpp\<close>, the handlers of
  \<^verbatim>\<open>src/routing.cpp\<close> and the connection handler of \<^verbatim>\<open>include/quarkstcp.hpp\<close>. A request is one JSON
  object; the router has a table of handlers that give a text and one of handlers that give a JSON
  value, and turns runtime errors into a reply. Other exceptions end the server. The handlers that
  differ from those of \<open>Http_Routes\<close> only in where their parameters come from share its replies. Not
  modelled are the handlers of backup, file transfer and the outgoing socket, and output.
\<close>

section \<open>Requests\<close>

record tcp_request =
  t_query :: string
  t_body :: string
  t_skip :: int
  t_limit :: int
  t_reverse :: bool
  t_req :: "rvalue option"

text \<open>A member of the request, when it is there.\<close>

definition member_or :: "rvalue \<Rightarrow> string \<Rightarrow> (rvalue \<Rightarrow> 'a res) \<Rightarrow> 'a \<Rightarrow> 'a res" where
  "member_or x k conv dflt =
     res_bind (r_has x k) (\<lambda>has. if has then res_bind (r_get x k) conv else Inr dflt)"

text \<open>The body is read as a text when it has no characters or elements.\<close>

definition body_text :: "rvalue \<Rightarrow> string res" where
  "body_text b = res_bind (r_size b) (\<lambda>n. if n = 0 then r_s b else Inr [])"

definition as_int :: "lib \<Rightarrow> rvalue \<Rightarrow> int res" where
  "as_int L v = res_bind (r_i L v) (\<lambda>i. Inr (wrap32 i))"

definition parse_request :: "lib \<Rightarrow> string \<Rightarrow> tcp_request res" where
  "parse_request L request =
     (case load request of
        None \<Rightarrow> Inr \<lparr>t_query = [], t_body = [], t_skip = 0, t_limit = -1, t_reverse = False, t_req = None\<rparr>
      | Some x \<Rightarrow>
          res_bind (member_or x ''query'' r_s []) (\<lambda>query.
          res_bind (member_or x ''body'' body_text []) (\<lambda>body.
          res_bind (member_or x ''skip'' (as_int L) 0) (\<lambda>skip.
          res_bind (member_or x ''limit'' (as_int L) (-1)) (\<lambda>limit.
          res_bind (member_or x ''reverse'' r_b False) (\<lambda>reverse.
            Inr \<lparr>t_query = query, t_body = body, t_skip = skip, t_limit = limit, t_reverse = reverse,
              t_req = Some x\<rparr>))))))"

definition request_get :: "tcp_request \<Rightarrow> string \<Rightarrow> string res" where
  "request_get req attrib =
     (case t_req req of None \<Rightarrow> Inl RuntimeError | Some x \<Rightarrow> member_or x attrib r_s [])"

definition request_wild :: "tcp_request \<Rightarrow> string res" where
  "request_wild req = request_get req ''keys''"

text \<open>The body as a JSON value; \<open>None\<close> is an invalid value.\<close>

definition bodyJson :: "tcp_request \<Rightarrow> rvalue option res" where
  "bodyJson req =
     (case t_req req of None \<Rightarrow> Inl RuntimeError | Some x \<Rightarrow> member_or x ''body'' (\<lambda>b. Inr (Some b)) None)"

type_synonym ('db, 'a) tcp_handler = "tcp_request \<Rightarrow> ('db, 'a) op"

section \<open>Handlers that give a text\<close>

definition out_text :: "('db, bool \<times> string) op \<Rightarrow> ('db, string) op" where
  "out_text f = map_reply snd f"

definition tcp_postjson :: "'db rocks \<Rightarrow> env \<Rightarrow> ('db, string) tcp_handler" where
  "tcp_postjson R X req = out_text (post R (env_lib X) (t_body req))"

definition tcp_put :: "'db rocks \<Rightarrow> env \<Rightarrow> ('db, string) tcp_handler" where
  "tcp_put R X req = out_text (put R (env_lib X) (t_body req))"

definition tcp_putatom :: "'db rocks \<Rightarrow> env \<Rightarrow> ('db, string) tcp_handler" where
  "tcp_putatom R X req = out_text (putAtom_body R (env_lib X) (t_body req))"

definition tcp_removeatom :: "'db rocks \<Rightarrow> env \<Rightarrow> ('db, string) tcp_handler" where
  "tcp_removeatom R X req = out_text (removeAtom_body R (env_lib X) (t_body req))"

definition tcp_atom :: "'db rocks \<Rightarrow> env \<Rightarrow> ('db, string) tcp_handler" where
  "tcp_atom R X req = out_text (atom R (env_lib X) (t_body req))"

definition tcp_putjson :: "'db rocks \<Rightarrow> env \<Rightarrow> ('db, string) tcp_handler" where
  "tcp_putjson R X req = out_text (put R (env_lib X) (t_body req))"

definition tcp_incrvalue :: "'db rocks \<Rightarrow> env \<Rightarrow> ('db, string) tcp_handler" where
  "tcp_incrvalue R X req = out_text (incrementValue R (env_lib X) (t_body req))"

definition tcp_existkey :: "'db rocks \<Rightarrow> ('db, string) tcp_handler" where
  "tcp_existkey R req s = (Inr (snd (exists_key R (t_body req) s)), s)"

text \<open>An operation on the key of the request, inside a handler's \<^verbatim>\<open>try\<close>.\<close>

definition with_key_of :: "tcp_request \<Rightarrow> string \<Rightarrow> (string \<Rightarrow> 'db core \<Rightarrow> string \<times> 'db core) \<Rightarrow> ('db, string) op" where
  "with_key_of req failed f s =
     (case request_get req ''key'' of
        Inl e \<Rightarrow> (if e = RuntimeError then Inr failed else Inl e, s)
      | Inr key \<Rightarrow> (let (out, s') = f key s in (Inr out, s')))"

definition tcp_get :: "'db rocks \<Rightarrow> ('db, string) tcp_handler" where
  "tcp_get R req = with_key_of req ''{\"error\":\"parsing error\"}''
     (\<lambda>key s. let ((ret, v), s') = get R key s in (v, s'))"

definition tcp_removekey :: "'db rocks \<Rightarrow> env \<Rightarrow> ('db, string) tcp_handler" where
  "tcp_removekey R X req = with_key_of req (env_what X) (\<lambda>key s.
     if key \<noteq> [] then (let ((ret, out), s') = remove_key R (env_lib X) key s in (out, s'))
     else (''{\"error\": \"parameter 'key' missing\"}'', s))"

definition tcp_getkeys :: "'db rocks \<Rightarrow> env \<Rightarrow> ('db, string) tcp_handler" where
  "tcp_getkeys R X req = reading (\<lambda>s.
     on_error
       (res_bind (request_wild req) (\<lambda>wild.
          if wild = [] then Inr []
          else res_bind
            (if t_reverse req then getKeysReversed_text R wild [] (t_skip req) (t_limit req) s
             else getKeys_text R wild [] (t_skip req) (t_limit req) s) keys_text))
       Inr (runtime_text (env_lib X) (env_what X) []))"

definition tcp_getcount :: "'db rocks \<Rightarrow> env \<Rightarrow> ('db, string) tcp_handler" where
  "tcp_getcount R X req = reading (\<lambda>s.
     on_error
       (res_bind (request_wild req) (\<lambda>wild.
          if wild = [] then Inr (False, ''{\"error\": \"parameter 'key' missing\"}'')
          else res_bind (getCount R (env_lib X) wild 0 (t_skip req) (t_limit req) s)
                 (\<lambda>(ret, n). Inr (ret, to_string n))))
       (\<lambda>(ret, out). Inr (if ret then out else ''{\"error\" : \"counting error\"}''))
       (env_what X))"

text \<open>A handler that works on the body as JSON.\<close>

definition with_bodyJson :: "tcp_request \<Rightarrow> 'a \<Rightarrow> (rvalue \<Rightarrow> ('db, 'a) op) \<Rightarrow> ('db, 'a) op" where
  "with_bodyJson req bad f s =
     (case bodyJson req of
        Inl e \<Rightarrow> (Inl e, s) | Inr None \<Rightarrow> (Inr bad, s) | Inr (Some x) \<Rightarrow> f x s)"

definition tcp_getlist :: "'db rocks \<Rightarrow> ('db, string) tcp_handler" where
  "tcp_getlist R req =
     with_bodyJson req ''{\"result\":[],\"error\":\"invalid json body\"}'' (\<lambda>x.
       out_text (getList_text R x [] (t_skip req) (t_limit req)))"

definition tcp_incr :: "'db rocks \<Rightarrow> env \<Rightarrow> ('db, string) tcp_handler" where
  "tcp_incr R X req = with_bodyJson req ''{\"error\":\"invalid parameters\"}'' (\<lambda>x s.
     case res_bind (string_of x ''key'') (\<lambda>key.
          res_bind (res_bind (r_get x ''step'') (as_int (env_lib X))) (\<lambda>step. Inr (key, step))) of
       Inl e \<Rightarrow> (Inl e, s)
     | Inr (key, stepBy) \<Rightarrow>
         (let ((ret, out), s') = increment R (env_lib X) key stepBy s in (Inr out, s')))"

definition tcp_log :: "('db, string) tcp_handler" where
  "tcp_log req s =
     (let (ok, s') = setLogger (c_str (t_body req)) s
      in (Inr (if ok then ''{\"result\":true}'' else ''{\"result\":false}''), s'))"

definition tcp_test :: "('db, string) tcp_handler" where
  "tcp_test req = reading (\<lambda>s.
     res_bind (request_get req ''timeout'') (\<lambda>timeout.
     res_bind (stoi timeout) (\<lambda>seconds. Inr ''{\"result\":true}'')))"

definition tcp_ping :: "('db, string) tcp_handler" where
  "tcp_ping req s = (Inr ''pong'', s)"

definition tcp_ai :: "('db, string) tcp_handler" where
  "tcp_ai req s = (Inr ''Feature not available'', s)"

section \<open>Handlers that give a JSON value\<close>

definition tcp_getall :: "'db rocks \<Rightarrow> env \<Rightarrow> ('db, wvalue) tcp_handler" where
  "tcp_getall R X req = reading (\<lambda>s.
     results_reply (env_what X) (res_bind (request_wild req) (\<lambda>wild.
       getAll R (env_lib X) wild [] (t_skip req) (t_limit req) s)))"

definition tcp_getsorted :: "'db rocks \<Rightarrow> env \<Rightarrow> ('db, wvalue) tcp_handler" where
  "tcp_getsorted R X req = reading (\<lambda>s.
     on_error
       (res_bind (request_get req ''sortby'') (\<lambda>sortby.
        res_bind (request_get req ''filter'') (\<lambda>filterBy.
        res_bind (request_get req ''des'') (\<lambda>descending.
        res_bind (request_wild req) (\<lambda>wild.
          if wild = [] then Inr missing_keys
          else results_reply (env_what X) (getSorted R (env_lib X) (env_sorter X) wild sortby
            (descending \<noteq> ''true'') [] (t_skip req) (t_limit req) filterBy s))))))
       Inr (runtime_reply (env_what X) []))"

definition tcp_iter :: "'db rocks \<Rightarrow> env \<Rightarrow> ('db, wvalue) tcp_handler" where
  "tcp_iter R X req = reading (\<lambda>s.
     results_reply (env_what X) (iter R (env_lib X) [] (t_skip req) (t_limit req) s))"

definition tcp_removekeys :: "'db rocks \<Rightarrow> env \<Rightarrow> ('db, wvalue) tcp_handler" where
  "tcp_removekeys R X req s =
     (let (r, s') =
        (case request_wild req of
           Inl e \<Rightarrow> (Inl e, s)
         | Inr wild \<Rightarrow>
             if wild = [] then (Inr missing_keys, s)
             else map_reply (\<lambda>n. w_set WNull ''result'' (WNumber (double_of_int n)))
                    (removeAll R (env_lib X) wild (t_skip req) (t_limit req)) s)
      in (on_error r Inr (error_reply (env_what X)), s'))"

definition tcp_make :: "'db rocks \<Rightarrow> env \<Rightarrow> ('db, wvalue) tcp_handler" where
  "tcp_make R X req s =
     (let (r, s') = makePair R (env_lib X) (env_uuid X) (t_body req) WNull s in
      (on_error r (\<lambda>(ret, out). Inr out) (error_reply ''runtime error''), s'))"

definition tcp_getjson :: "'db rocks \<Rightarrow> env \<Rightarrow> ('db, wvalue) tcp_handler" where
  "tcp_getjson R X req = with_bodyJson req (error_reply ''invalid parameters'') (\<lambda>x s.
     let (r, s') = (case string_of x ''key'' of
            Inl e \<Rightarrow> (Inl e, s) | Inr key \<Rightarrow> getJson R (env_lib X) key s) in
     (on_error r (\<lambda>v. Inr (case v of None \<Rightarrow> WNull | Some w \<Rightarrow> w))
        (error_reply ''parameter 'key' missing''), s'))"

definition invalid_json :: wvalue where
  "invalid_json = w_set empty_result ''error'' (WString ''invalid parameters'')"

definition tcp_getitems :: "'db rocks \<Rightarrow> env \<Rightarrow> ('db, wvalue) tcp_handler" where
  "tcp_getitems R X req = with_bodyJson req invalid_json (\<lambda>x.
     map_reply items_reply (reading (getItems R (env_lib X) x empty_result (t_skip req) (t_limit req))))"

definition tcp_getjoinedmap :: "'db rocks \<Rightarrow> env \<Rightarrow> ('db, wvalue) tcp_handler" where
  "tcp_getjoinedmap R X req = with_bodyJson req invalid_json (\<lambda>x.
     map_reply query_reply (reading (getJoinedMap R (env_lib X) x [] (t_skip req) (t_limit req))))"

definition tcp_getkeysafter :: "'db rocks \<Rightarrow> env \<Rightarrow> ('db, wvalue) tcp_handler" where
  "tcp_getkeysafter R X req = with_bodyJson req invalid_json (\<lambda>x.
     map_reply query_reply (reading (getKeysAfter R (env_lib X) x [] (t_skip req) (t_limit req))))"

definition tcp_getkeyslast :: "'db rocks \<Rightarrow> env \<Rightarrow> ('db, wvalue) tcp_handler" where
  "tcp_getkeyslast R X req = with_bodyJson req invalid_json (\<lambda>x.
     map_reply query_reply (reading (getKeysLast R (env_lib X) x [])))"

definition tcp_searchjson :: "'db rocks \<Rightarrow> env \<Rightarrow> ('db, wvalue) tcp_handler" where
  "tcp_searchjson R X req = with_bodyJson req invalid_json (\<lambda>x.
     map_reply (\<lambda>(ret, rs). found_reply rs empty_result)
       (searchJson R (env_lib X) x [] (t_skip req) (t_limit req)))"

section \<open>The router\<close>

definition routingTableString :: "'db rocks \<Rightarrow> env \<Rightarrow> (string \<times> ('db, string) tcp_handler) list" where
  "routingTableString R X =
     [(''/put'', tcp_put R X), (''/exists'', tcp_existkey R), (''/get'', tcp_get R),
      (''/getkeys'', tcp_getkeys R X), (''/getcount'', tcp_getcount R X), (''/remove'', tcp_removekey R X),
      (''/remove/atom'', tcp_removeatom R X), (''/putjson'', tcp_putjson R X), (''/postjson'', tcp_postjson R X),
      (''/put/atom'', tcp_putatom R X), (''/atom'', tcp_atom R X), (''/getlist'', tcp_getlist R),
      (''/incr'', tcp_incr R X), (''/incrval'', tcp_incrvalue R X), (''/log'', tcp_log), (''/test'', tcp_test),
      (''/ping'', tcp_ping), (''/ai'', tcp_ai)]"

definition routingTableJson :: "'db rocks \<Rightarrow> env \<Rightarrow> (string \<times> ('db, wvalue) tcp_handler) list" where
  "routingTableJson R X =
     [(''/getall'', tcp_getall R X), (''/getsorted'', tcp_getsorted R X), (''/iter'', tcp_iter R X),
      (''/removeall'', tcp_removekeys R X), (''/make'', tcp_make R X), (''/getjson'', tcp_getjson R X),
      (''/getitems'', tcp_getitems R X), (''/getjoinedmap'', tcp_getjoinedmap R X),
      (''/getkeysafter'', tcp_getkeysafter R X), (''/getkeyslast'', tcp_getkeyslast R X),
      (''/searchjson'', tcp_searchjson R X)]"

text \<open>The handlers of one request: the second table is asked when the first gives an empty text.\<close>

definition run_handlers :: "'db rocks \<Rightarrow> env \<Rightarrow> ('db, string) tcp_handler" where
  "run_handlers R X req s =
     (let (r, s1) = (case map_of (routingTableString R X) (t_query req) of
            None \<Rightarrow> (Inr [], s) | Some h \<Rightarrow> h req s) in
      case r of
        Inl e \<Rightarrow> (Inl e, s1)
      | Inr result \<Rightarrow>
          if result \<noteq> [] then (Inr result, s1)
          else (case map_of (routingTableJson R X) (t_query req) of
              None \<Rightarrow> (Inr [], s1)
            | Some h \<Rightarrow> map_reply (dump_json (env_lib X)) (h req) s1))"

definition dispatch :: "'db rocks \<Rightarrow> env \<Rightarrow> string \<Rightarrow> ('db, string) op" where
  "dispatch R X requestStr s =
     (let (r, s') = (case parse_request (env_lib X) requestStr of
            Inl e \<Rightarrow> (Inl e, s) | Inr req \<Rightarrow> run_handlers R X req s) in
      (on_error r Inr ''{\"error\":\"dispatch error\"}'', s'))"

section \<open>Connections\<close>

text \<open>
  One read of a connection: the terminating NUL is written behind the bytes received, and a read may
  fill the buffer. The reply is cut to the same size; \<open>True\<close> asks the server to stop.
\<close>

definition max_length :: nat where "max_length = 1024 * 1024"

definition handle_read :: "'db rocks \<Rightarrow> env \<Rightarrow> string \<Rightarrow> ('db, string \<times> bool) op" where
  "handle_read R X bytes s =
     (if max_length \<le> length bytes then (Inl Undefined, s)
      else if c_str bytes = ''quit'' then (Inr (''quit'', True), s)
      else map_reply (\<lambda>message. (take max_length message, False)) (dispatch R X (c_str bytes)) s)"

text \<open>
  The reads of all connections in the order the server handles them, until it is told to quit or an
  exception leaves its loop: the replies, and how it ended.
\<close>

datatype tcp_end = TcpRunning | TcpQuit | TcpFailed exc

fun tcp_server :: "'db rocks \<Rightarrow> env \<Rightarrow> string list \<Rightarrow> 'db core \<Rightarrow> string list \<times> tcp_end \<times> 'db core" where
  "tcp_server R X [] s = ([], TcpRunning, s)"
| "tcp_server R X (bytes # chunks) s =
     (case handle_read R X bytes s of
        (Inl e, s1) \<Rightarrow> ([], TcpFailed e, s1)
      | (Inr (message, stop), s1) \<Rightarrow>
          if stop then ([message], TcpQuit, s1)
          else (let (msgs, fin, s2) = tcp_server R X chunks s1 in (message # msgs, fin, s2)))"

end
