(* ===== verification/Http_Props.thy ===== *)
theory Http_Props
  imports Http_Routes
begin

text \<open>
  What HTTP requests do to a node: those of the reading routes change neither the database nor
  what is sent to other nodes, and every other one, whatever its parameters, performs a list of
  writes that is announced as it is made. The laws of single operations (\<open>refines\<close>) carry over
  to requests, and with them replication. Then a session of four requests on one key, and the
  requests whose handling is undefined.
\<close>

section \<open>The shapes of handlers\<close>

lemma map_reply_state [simp]: "snd (map_reply g f s) = snd (f s)"
  by (simp add: map_reply_def split: prod.split)

lemma text_reply_state [simp]: "snd (text_reply f s) = snd (f s)"
  by (simp add: text_reply_def)

lemma reading_state [simp]: "snd (reading f s) = s"
  by (simp add: reading_def)

lemma window_op_state:
  "(\<And>skip limit. P (snd (f skip limit s))) \<Longrightarrow> P s \<Longrightarrow> P (snd (window_op q f s))"
  by (simp add: window_op_def split: sum.split prod.split)

lemma json_body_state:
  "(\<And>x. P (snd (f x s))) \<Longrightarrow> P s \<Longrightarrow> P (snd (json_body req bad f s))"
  by (simp add: json_body_def split: option.split)

lemma key_route_state:
  "(\<And>key. P (snd (f key s))) \<Longrightarrow> P s \<Longrightarrow> P (snd (key_route req f s))"
  by (simp add: key_route_def Let_def case_prod_beta split: option.split)

lemmas handler_states = window_op_state json_body_state key_route_state

section \<open>Reading\<close>

lemma logged_getJson: "logged R L [] s (snd (getJson R L' key s))"
  using logged_GetCached [of R L s key] by (simp add: getJson_def case_prod_beta split: option.split)

lemma logged_getList_text_loop: "logged R L [] s (snd (getList_text_loop R skip limit keys i acc s))"
proof (induction keys arbitrary: i acc s)
  case (Cons e keys)
  obtain u key where e: "e = (u, key)" by (cases e)
  have "logged R L [] s (snd (getList_text_loop R skip limit keys j a (snd (get R k s))))" for j a k
    using logged_trans [OF logged_get Cons.IH] by simp
  then show ?case by (simp add: e Let_def case_prod_beta split: sum.split)
qed simp

lemma logged_getList_text: "logged R L [] s (snd (getList_text R x out skip limit s))"
proof -
  have "logged R L [] s s1" if "getList_text_loop R skip limit keys (-1) acc s = (r, s1)" for keys acc r s1
    using logged_getList_text_loop [of R L s skip limit keys "-1" acc] that by simp
  then show ?thesis by (auto simp: getList_text_def split: sum.split prod.split option.split)
qed

lemma logged_search_entry: "logged R L [] s (snd (search_entry R L' mapField mapAs e s))"
proof -
  have "logged R L [] s s1" if "getJson R L' k s = (r, s1)" for k r s1
    using logged_getJson [of R L s L' k] that by simp
  then show ?thesis by (auto simp: search_entry_def Let_def split: sum.split option.split prod.split)
qed

lemma logged_push_search:
  assumes "logged R L [] s (snd acc)" "push_search R L' mapField mapAs e acc = Inr acc'"
  shows "logged R L [] s (snd acc')"
  using logged_trans [OF assms(1) logged_search_entry [of R L "snd acc" L' mapField mapAs e]] assms(2)
  by (auto simp: push_search_def split: prod.splits option.splits if_splits)

lemma logged_searchJson: "logged R L [] s (snd (searchJson R L' x rs skip limit s))"
proof -
  have "logged R L [] s (snd acc)"
    if "scan_from c h (push_search R L' mapField mapAs) skip limit es (-1) (rs, s) = Inr acc" for c h mapField mapAs es acc
    using that unfolding scan.loop_picked
    by (rule fold_res_invariant [where P = "\<lambda>acc. logged R L [] s (snd acc)", rotated 2])
      (use logged_push_search in auto)
  then show ?thesis
    by (fastforce simp: searchJson_def split: sum.split prod.split)
qed

lemmas logged_reads = logged_refl logged_get logged_getJson logged_getList_text logged_searchJson

section \<open>Writing\<close>

context rocksdb
begin

lemma refines_removeAll_any:
  assumes "rocks_reliable R"
  shows "refines R L s (snd (removeAll R L wild skip limit s))"
proof (cases "dbOk s \<and> \<not> star_first wild")
  case True
  define ks where "ks = map fst (picked skip limit 0 (matching (entries (db s)) wild))"
  define d where "d = snd (rocks_Write R (db s) ks)"
  have run: "snd (removeAll R L wild skip limit s) = (fold (removeRequest L) ks s)\<lparr>db := d\<rparr>"
    using True by (simp add: removeAll_def scan.loop_picked query_run batch_delete_all ks_def d_def
        removeRequests_fields(1))
  have "rocks_Write R (db s) ks = (True, d)"
    using assms by (simp add: rocks_reliable_def prod_eq_iff d_def)
  then have "rocks_Get R d = remove_keys ks (contents R s)" by (rule write_ok)
  then have "logged R L (map Removed ks) s ((fold (removeRequest L) ks s)\<lparr>db := d\<rparr>)"
    using removeRequests_fields [where L = L and ks = ks and s = s]
    by (auto simp: logged_def apply_writes_Removed same_role_def coherent_def map_le_def
        remove_keys_def dom_def)
  then show ?thesis using run loggedI by metis
qed (auto simp: removeAll_def)

lemma refines_geoput: "refines R L s (snd (geoput R L body s))"
  using refines_dump by (simp add: geoput_def Let_def case_prod_beta split: option.split sum.split)

end

section \<open>Exceptions of the listings\<close>

text \<open>No listing lets a runtime error out, so that the results of a handler's \<^verbatim>\<open>catch\<close> do not matter.\<close>

definition quiet :: "'a res \<Rightarrow> bool" where
  "quiet r \<longleftrightarrow> r \<noteq> Inl RuntimeError"

named_theorems quiet \<open>computations that no runtime error leaves\<close>

lemma quiet_basic [quiet]: "quiet (Inr a)" "e \<noteq> RuntimeError \<Longrightarrow> quiet (Inl e)"
  by (simp_all add: quiet_def)

lemma quiet_if [quiet]: "(b \<Longrightarrow> quiet r) \<Longrightarrow> (\<not> b \<Longrightarrow> quiet t) \<Longrightarrow> quiet (if b then r else t)"
  by simp

lemma quiet_prod [quiet]: "(\<And>a b. quiet (f a b)) \<Longrightarrow> quiet (case p of (a, b) \<Rightarrow> f a b)"
  by (simp split: prod.split)

lemma quiet_bind [quiet]: "quiet r \<Longrightarrow> (\<And>a. quiet (f a)) \<Longrightarrow> quiet (res_bind r f)"
  by (cases r) (simp_all add: quiet_def)

lemma quiet_fold [quiet]: "(\<And>e a. quiet (f e a)) \<Longrightarrow> quiet (fold_res f xs a)"
  by (induction xs arbitrary: a) (simp_all add: quiet)

lemma quiet_scan [quiet]: "(\<And>e a. quiet (emit e a)) \<Longrightarrow> quiet (scan_from cont hit emit skip limit es i a)"
  unfolding scan.loop_picked by (rule quiet_fold)

lemma quiet_cached_loop [quiet]: "(\<And>e a. quiet (emit e a)) \<Longrightarrow> quiet (cached_loop rvs hit emit skip limit es n i a)"
  by (induction es arbitrary: n i a) (auto simp: quiet_def split: sum.split if_splits)

lemma quiet_option [quiet]: "quiet t \<Longrightarrow> (\<And>x. quiet (f x)) \<Longrightarrow> quiet (case z of None \<Rightarrow> t | Some x \<Rightarrow> f x)"
  by (cases z) simp_all

lemma quiet_handler [quiet]:
  "(\<And>a. quiet (f a)) \<Longrightarrow> quiet t \<Longrightarrow>
   quiet (case r of Inl e \<Rightarrow> if e = RuntimeError then t else Inl e | Inr a \<Rightarrow> f a)"
  by (cases r) (simp_all add: quiet_def)

lemma quiet_emit [quiet]:
  "quiet (push_value L e acc)" "quiet (push_pair L e acc)" "quiet (push_text e tacc)" "quiet (push_sorted L x rs)"
  unfolding push_value_def push_pair_def push_text_def push_sorted_def by (intro quiet)+

lemma quiet_collect [quiet]: "quiet (collect_entry L flt e cacc)" "quiet (batch_delete L e ba)"
  unfolding collect_entry_def batch_delete_def by (intro quiet)+

lemma quiet_cached_emit [quiet]: "quiet (push_cached L countOnly e acc)" "quiet (push_cached_text countOnly e tacc)"
  unfolding push_cached_def push_cached_text_def by (intro quiet)+

lemma quiet_edges [quiet]: "quiet (first_after p)" "quiet (it_prev it)" "quiet (sm_prev pos)"
  by (simp_all add: quiet_def first_after_def) (cases it rule: it_prev.cases, simp_all, cases pos rule: sm_prev.cases, simp_all)

lemma quiet_listings [quiet]:
  "quiet (getAll R L wild rs skip limit s)" "quiet (iter R L rs skip limit s)"
  "quiet (iterReversed R L rs skip limit s)"
  unfolding getAll_def iter_def iterReversed_def by (intro quiet)+

lemma quiet_cached_scan [quiet]: "(\<And>e a. quiet (emit e a)) \<Longrightarrow> quiet (cached_scan rvs wild emit skip limit m a)"
  unfolding cached_scan_def Let_def by (intro quiet)

lemma quiet_texts [quiet]:
  "quiet (getKeys_text R wild out skip limit s)" "quiet (getKeysReversed_text R wild out skip limit s)"
  "quiet (getCount R L wild n skip limit s)"
  unfolding getKeys_text_def getKeysReversed_text_def getCount_def GetCachedKeys_text_def GetCachedKeys_def
    reverse_entries_def
  by (intro quiet)+

lemma quiet_sort [quiet]: "quiet (sort_results L srt sortby xs)"
  by (simp add: quiet_def sort_results_def Let_def)

lemma quiet_getSorted [quiet]: "quiet (getSorted R L srt wild sortby ascending rs skip limit flt s)"
  unfolding getSorted_def by (intro quiet)

lemma quiet_removeAll: "quiet (fst (removeAll R L wild skip limit s))"
proof -
  have "quiet (scan_from c h (batch_delete L) skip limit es i a)" for c h es i a by (intro quiet)
  from this [of _ _ _ "-1" "([], 0, s)"] show ?thesis
    by (auto simp: removeAll_def quiet_def split: sum.split prod.split)
qed

section \<open>Whole requests\<close>

definition read_paths :: "string list" where
  "read_paths =
     [''/exists'', ''/get'', ''/getall'', ''/getsorted'', ''/getkeys'', ''/getcount'', ''/iter'', ''/getjson'',
      ''/getlist'', ''/getitems'', ''/getjoinedmap'', ''/getkeysafter'', ''/getkeyslast'', ''/searchjson'',
      ''/geo/near'', ''/test'', ''/ping'', ''/ai'']"

lemmas read_handlers =
  route_existkey_def route_get_def route_getall_def route_getsorted_def route_getkeys_def
  route_getcount_def route_iter_def route_getlist_def route_getitems_def route_getjoinedmap_def
  route_getkeysafter_def route_getkeyslast_def route_searchjson_def route_geonear_def route_test_def
  route_ping_def route_ai_def

lemmas logged_states = handler_states [where P = "logged R L [] s" for R L s]
lemmas refines_states = handler_states [where P = "refines R L s" for R L s]

lemma logged_route_getjson: "logged R L [] s (snd (route_getjson R X req s))"
  using logged_getJson [of R L s "env_lib X"]
  by (simp add: route_getjson_def Let_def case_prod_beta split: option.split sum.split)

lemma read_handler:
  assumes "(path, ms, h) \<in> set (http_routes R X)" and "path \<in> set read_paths"
  shows "logged R L [] s (snd (h req s))"
  using assms(1,2) unfolding http_routes_def read_paths_def
  by (auto simp: read_handlers case_prod_beta logged_reads logged_route_getjson intro!: logged_states)

lemma serve_http_state:
  assumes "\<And>ms h. (path, ms, h) \<in> set (http_routes R X) \<Longrightarrow> P (snd (h req s))" and "P s"
  shows "P (snd (serve_http R X m path req s))"
  using assms by (auto simp: serve_http_def split: option.split dest!: map_of_SomeD)

context rocksdb
begin

lemma refines_route_removekeys:
  "rocks_reliable R \<Longrightarrow> refines R (env_lib X) s (snd (route_removekeys R X req s))"
  by (auto simp: route_removekeys_def Let_def case_prod_beta intro!: refines_states refines_removeAll_any)

lemma refines_route_incr: "refines R (env_lib X) s (snd (route_incr R X req s))"
  by (auto simp: route_incr_def Let_def case_prod_beta refines_increment intro!: refines_states split: sum.split)

lemma refines_route_make: "refines R (env_lib X) s (snd (route_make R X req s))"
  by (simp add: route_make_def Let_def case_prod_beta refines_makePair)

lemma refines_route_removekey: "refines R (env_lib X) s (snd (route_removekey R X req s))"
  by (auto simp: route_removekey_def case_prod_beta intro!: refines_states refines_remove)

lemma refines_text_routes:
  "refines R (env_lib X) s (snd (route_put R X req s))" "refines R (env_lib X) s (snd (route_postjson R X req s))"
  "refines R (env_lib X) s (snd (route_putatom R X req s))" "refines R (env_lib X) s (snd (route_removeatom R X req s))"
  "refines R (env_lib X) s (snd (route_putjson R X req s))" "refines R (env_lib X) s (snd (route_incrvalue R X req s))"
  "refines R (env_lib X) s (snd (route_geoput R X req s))"
  by (simp_all only: route_put_def route_postjson_def route_putatom_def route_removeatom_def route_putjson_def
      route_incrvalue_def route_geoput_def text_reply_state map_reply_state put_def post_def refines_insert_body
      refines_putAtom_body refines_removeAtom_body refines_incrementValue refines_geoput)

lemma refines_route_atom: "rocks_reliable R \<Longrightarrow> refines R (env_lib X) s (snd (route_atom R X req s))"
  by (simp add: route_atom_def refines_atom)

lemmas refines_routes = refines_text_routes refines_route_atom refines_route_removekey
  refines_route_removekeys refines_route_incr refines_route_make

lemma write_handler:
  assumes "(path, ms, h) \<in> set (http_routes R X)" and "path \<notin> set read_paths" and "path \<noteq> ''/log''"
    and "rocks_reliable R"
  shows "refines R (env_lib X) s (snd (h req s))"
proof -
  have "h \<in> {route_put R X, route_postjson R X, route_putatom R X, route_removeatom R X, route_putjson R X,
      route_incrvalue R X, route_geoput R X, route_atom R X, route_removekey R X, route_removekeys R X,
      route_incr R X, route_make R X}"
    using assms(1-3) unfolding http_routes_def read_paths_def by auto
  then show ?thesis using refines_routes assms(4) by (elim insertE emptyE) simp_all
qed

lemma refines_serve_http:
  assumes "rocks_reliable R" and "path \<noteq> ''/log''"
  shows "refines R (env_lib X) s (snd (serve_http R X m path req s))"
proof (rule serve_http_state)
  fix ms h assume "(path, ms, h) \<in> set (http_routes R X)"
  then show "refines R (env_lib X) s (snd (h req s))"
    using read_handler write_handler assms loggedI by metis
qed simp

end

type_synonym web_call = "http_method \<times> string \<times> web_request"

definition serve_calls :: "'db rocks \<Rightarrow> env \<Rightarrow> web_call list \<Rightarrow> 'db core \<Rightarrow> 'db core" where
  "serve_calls R X calls s = fold (\<lambda>(m, path, req) s. snd (serve_http R X m path req s)) calls s"

context rocksdb
begin

lemma refines_serve_calls:
  assumes "rocks_reliable R" and "list_all (\<lambda>(m, path, req). path \<noteq> ''/log'') calls"
  shows "refines R (env_lib X) s (serve_calls R X calls s)"
  using assms(2) unfolding serve_calls_def
proof (induction calls arbitrary: s)
  case (Cons call calls)
  obtain m path req where call: "call = (m, path, req)" by (cases call)
  show ?case
    using refines_trans [OF refines_serve_http [OF assms(1), of path X s m req]] Cons by (simp add: call)
qed simp

end

section \<open>Histories of requests\<close>

text \<open>A reader that starts with the contents of a writer and applies, in order, the messages
  the writer published while it served any sequence of HTTP requests (except changes of the logger's
  address), with any parameters and bodies, ends with exactly the writer's contents; requests that
  leave by an exception are no exception to this.\<close>

theorem http_replication:
  assumes "rocksdb R entries" and "rocks_reliable R" and "um_order_ok (env_lib X)"
    and "list_all (\<lambda>(m, path, req). path \<noteq> ''/log'') calls"
    and "isWriter s" and "dbOk r" and "contents R r = contents R s"
  shows "\<exists>msgs d. published (serve_calls R X calls s) = published s @ msgs \<and>
    qcSave_all R msgs r = (Inr (), r\<lparr>db := d\<rparr>) \<and> rocks_Get R d = contents R (serve_calls R X calls s)"
  by (rule rocksdb.refines_replicate [OF assms(1,3,2) rocksdb.refines_serve_calls [OF assms(1,2,4)] assms(5-7)])

definition mem_env :: env where
  "mem_env = \<lparr>env_lib = mem_lib, env_sorter = (\<lambda>lt xs. xs),
     env_floats = \<lparr>fp_add = (\<lambda>a b. a), fp_sub = (\<lambda>a b. a), fp_mul = (\<lambda>a b. a), fp_div = (\<lambda>a b. a),
       fp_sin = (\<lambda>a. a), fp_cos = (\<lambda>a. a), fp_acos = (\<lambda>a. a)\<rparr>,
     env_usable = (\<lambda>n. n), env_uuid = ''u'', env_what = ''what''\<rparr>"

definition with_param :: "string \<Rightarrow> string \<Rightarrow> web_request" where
  "with_param name v = \<lparr>req_body = [], url_param = [name \<mapsto> v]\<rparr>"

theorem http_replication_witness:
  "\<exists>msgs d. published (serve_calls mem_rocks mem_env
      [(GET, ''/put'', with_param ''body'' ''{\"key\":\"a\",\"value\":true}''), (GET, ''/remove'', with_param ''key'' ''n'')]
      ((mem_node [(''n'', ''5'')])\<lparr>isWriter := True\<rparr>)) =
      published ((mem_node [(''n'', ''5'')])\<lparr>isWriter := True\<rparr>) @ msgs \<and>
    qcSave_all mem_rocks msgs (mem_node [(''n'', ''5'')]) =
      (Inr (), (mem_node [(''n'', ''5'')])\<lparr>db := d\<rparr>) \<and>
    rocks_Get mem_rocks d = contents mem_rocks (serve_calls mem_rocks mem_env
      [(GET, ''/put'', with_param ''body'' ''{\"key\":\"a\",\"value\":true}''), (GET, ''/remove'', with_param ''key'' ''n'')]
      ((mem_node [(''n'', ''5'')])\<lparr>isWriter := True\<rparr>))"
  by (rule http_replication [OF mem.rocksdb_axioms mem_reliable])
    (simp_all add: mem_node_def mem_env_def mem_lib_order)

text \<open>C5: requests of the reading routes write nothing. Whatever the parameters and the method, and
  also when an exception leaves the handler, the contents of the database are the same afterwards and
  nothing was published to other nodes or sent to the logger.\<close>

theorem reads_write_nothing:
  assumes "path \<in> set read_paths"
  shows "contents R (snd (serve_http R X m path req s)) = contents R s \<and>
    published (snd (serve_http R X m path req s)) = published s \<and>
    httpLog (snd (serve_http R X m path req s)) = httpLog s"
proof -
  have "logged R (env_lib X) [] s (snd (serve_http R X m path req s))"
    by (rule serve_http_state [where P = "logged R (env_lib X) [] s"])
      (use read_handler [OF _ assms] in auto)
  then show ?thesis by (simp add: logged_def)
qed

theorem reads_write_nothing_witness:
  "contents mem_rocks (snd (serve_http mem_rocks mem_env GET ''/get'' (with_param ''key'' ''a'') (mem_node [(''a'', ''1'')]))) =
     contents mem_rocks (mem_node [(''a'', ''1'')]) \<and>
   published (snd (serve_http mem_rocks mem_env GET ''/get'' (with_param ''key'' ''a'') (mem_node [(''a'', ''1'')]))) =
     published (mem_node [(''a'', ''1'')]) \<and>
   httpLog (snd (serve_http mem_rocks mem_env GET ''/get'' (with_param ''key'' ''a'') (mem_node [(''a'', ''1'')]))) =
     httpLog (mem_node [(''a'', ''1'')])"
  by (rule reads_write_nothing) (simp add: read_paths_def)

section \<open>A session on one key\<close>

lemma serve_put: "serve_http R X GET ''/put'' req s = map_reply Some (route_put R X req) s"
  by (simp add: serve_http_def http_routes_def)

lemma serve_get: "serve_http R X GET ''/get'' req s = map_reply Some (route_get R X req) s"
  by (simp add: serve_http_def http_routes_def)

lemma serve_exists: "serve_http R X GET ''/exists'' req s = map_reply Some (route_existkey R X req) s"
  by (simp add: serve_http_def http_routes_def)

lemma serve_remove: "serve_http R X GET ''/remove'' req s = map_reply Some (route_removekey R X req) s"
  by (simp add: serve_http_def http_routes_def)

lemma put_fresh:
  assumes "load body = Some x" and "res_bind (r_get x ''key'') r_s = Inr k"
    and "res_bind (r_get x ''value'') (wvalue_of_rvalue L) = Inr new" and "contents R s k = None" and "dbOk s"
    and "rocks_Put R (db s) k (dump_json L new) = (True, d)"
  shows "put R L body s = (Inr (True, ''{\"result\":true}''), putRequest L k (dump_json L new) (s\<lparr>db := d\<rparr>))"
proof -
  obtain v where v: "r_get x ''value'' = Inr v" "wvalue_of_rvalue L v = Inr new"
    using assms(3) by (auto simp: res_bind_Inr_iff)
  show ?thesis using assms(1,2,4-6) v
    by (simp add: put_def insert_body_def insertKeyValuePair_def getKeyValuePair_def write_value_def)
qed

text \<open>C4: four requests in a row. On a node whose database accepts writes, with or without the cache,
  a put of a new key answers \<open>{"result":true}\<close>, without the key; a get of the key then returns the value as JSON text; a
  remove reports one removed key; and after it the key does not exist and the database has the contents
  it started with.\<close>

theorem http_session:
  assumes "rocksdb R entries" and "rocks_reliable R" and "dbOk s" and "contents R s k = None" and "k \<noteq> []"
    and "load (body_of preq) = Some x" and "res_bind (r_get x ''key'') r_s = Inr k"
    and "res_bind (r_get x ''value'') (wvalue_of_rvalue (env_lib X)) = Inr new"
    and "url_param kreq ''key'' = Some k"
  shows "\<exists>s1 s2. serve_http R X GET ''/put'' preq s = (Inr (Some (Text ''{\"result\":true}'')), s1) \<and>
    fst (serve_http R X GET ''/get'' kreq s1) = Inr (Some (Text (dump_json (env_lib X) new))) \<and>
    serve_http R X GET ''/remove'' kreq s1 = (Inr (Some (Text ''{\"result\":1}'')), s2) \<and>
    fst (serve_http R X GET ''/exists'' kreq s2) = Inr (Some (Text ''{\"result\":false}'')) \<and>
    contents R s2 = contents R s"
proof -
  let ?L = "env_lib X" and ?v = "dump_json (env_lib X) new"
  obtain d where d: "rocks_Put R (db s) k ?v = (True, d)"
    using assms(2) unfolding rocks_reliable_def by (metis prod.collapse)
  define s1 where "s1 = putRequest ?L k ?v (s\<lparr>db := d\<rparr>)"
  have c1: "contents R s1 = (contents R s)(k \<mapsto> ?v)" and ok1: "dbOk s1"
    using rocksdb.put_ok [OF assms(1) d] assms(3) by (simp_all add: s1_def)
  obtain d' where d': "rocks_Delete R (db s1) k = (True, d')"
    using assms(2) unfolding rocks_reliable_def by (metis prod.collapse)
  define s2 where "s2 = removeRequest ?L k (s1\<lparr>db := d'\<rparr>)"
  have c2: "contents R s2 = contents R s" and ok2: "dbOk s2"
    using rocksdb.delete_ok [OF assms(1) d'] c1 ok1 assms(4) by (simp_all add: s2_def fun_upd_idem)
  have "put R ?L (body_of preq) s = (Inr (True, ''{\"result\":true}''), s1)"
    unfolding s1_def by (rule put_fresh [OF assms(6-8,4,3) d])
  then have 1: "serve_http R X GET ''/put'' preq s = (Inr (Some (Text ''{\"result\":true}'')), s1)"
    by (simp add: serve_put map_reply_def route_put_def text_reply_def)
  have "fst (get R k s1) = (True, ?v)"
    using c1 ok1 by (auto simp: get_def GetCached_def s1_def sm_find_set)
  then have 2: "fst (serve_http R X GET ''/get'' kreq s1) = Inr (Some (Text ?v))"
    using assms(5,9) by (auto simp: serve_get map_reply_def route_get_def key_route_def split: prod.split)
  have "remove_key R ?L k s1 = ((True, ''{\"result\":1}''), s2)"
    using c1 ok1 d' by (simp add: remove_key_def s2_def)
  then have 3: "serve_http R X GET ''/remove'' kreq s1 = (Inr (Some (Text ''{\"result\":1}'')), s2)"
    using assms(5,9) by (simp add: serve_remove map_reply_def route_removekey_def key_route_def)
  have "exists_key R k s2 = (False, ''{\"result\":false}'')"
    using c2 ok2 assms(4) by (simp add: exists_key_def getKeyValuePair_def)
  then have 4: "fst (serve_http R X GET ''/exists'' kreq s2) = Inr (Some (Text ''{\"result\":false}''))"
    using assms(5,9) by (simp add: serve_exists map_reply_def route_existkey_def key_route_def)
  from 1 2 3 4 c2 show ?thesis by blast
qed

theorem http_session_witness:
  "\<exists>s1 s2. serve_http mem_rocks mem_env GET ''/put'' (with_param ''body'' ''{\"key\":\"a\",\"value\":[true]}'') (mem_node []) =
      (Inr (Some (Text ''{\"result\":true}'')), s1) \<and>
    fst (serve_http mem_rocks mem_env GET ''/get'' (with_param ''key'' ''a'') s1) =
      Inr (Some (Text (dump_json (env_lib mem_env) (WList [WTrue])))) \<and>
    serve_http mem_rocks mem_env GET ''/remove'' (with_param ''key'' ''a'') s1 = (Inr (Some (Text ''{\"result\":1}'')), s2) \<and>
    fst (serve_http mem_rocks mem_env GET ''/exists'' (with_param ''key'' ''a'') s2) = Inr (Some (Text ''{\"result\":false}'')) \<and>
    contents mem_rocks s2 = contents mem_rocks (mem_node [])"
proof (rule http_session [OF mem.rocksdb_axioms mem_reliable, where x = "RObject [(''key'', RString ''a''), (''value'', RList [RTrue])]"])
  show "contents mem_rocks (mem_node []) ''a'' = None" by code_simp
  show "load (body_of (with_param ''body'' ''{\"key\":\"a\",\"value\":[true]}'')) =
      Some (RObject [(''key'', RString ''a''), (''value'', RList [RTrue])])"
    by code_simp
qed (simp_all add: mem_node_def with_param_def)

section \<open>Undefined replies\<close>

text \<open>Listing the keys with a pattern that begins with a star, or while the database is not
  open, is undefined behaviour: the listing fails with an empty text, whose last character the
  handler overwrites. So is every request without the cache for which the listing fails.\<close>

theorem getkeys_failure_undefined:
  assumes "\<not> cacheEnabled s" and "\<not> dbOk s \<or> star_first (q_wild (Parse req))" and "q_wild (Parse req) \<noteq> []"
    and "stoi (q_skip (Parse req)) = Inr skip" and "stoi (q_limit (Parse req)) = Inr limit"
  shows "serve_http R X GET ''/getkeys'' req s = (Inl Undefined, s)"
proof -
  have "getKeys_text R (q_wild (Parse req)) [] skip limit s = Inr (False, [])"
    "getKeysReversed_text R (q_wild (Parse req)) [] skip limit s = Inr (False, [])"
    using assms(1,2) by (auto simp: getKeys_text_def getKeysReversed_text_def)
  then show ?thesis using assms(3-5)
    by (simp add: serve_http_def http_routes_def route_getkeys_def map_reply_def reading_def with_window_def
        keys_text_def on_error_def Let_def)
qed

theorem getkeys_failure_undefined_witness:
  "serve_http mem_rocks mem_env GET ''/getkeys'' (with_param ''keys'' ''*'') (mem_node [(''a'', ''1'')]) =
     (Inl Undefined, mem_node [(''a'', ''1'')])"
proof (rule getkeys_failure_undefined [where skip = 0 and limit = "-1"])
  show "stoi (q_skip (Parse (with_param ''keys'' ''*''))) = Inr 0"
    "stoi (q_limit (Parse (with_param ''keys'' ''*''))) = Inr (-1)"
    by (simp_all add: Parse_def param_or_def with_param_def) code_simp+
qed (simp_all add: mem_node_def Parse_def param_or_def with_param_def star_first_def)

end
