(* ===== verification/Tcp_Props.thy ===== *)
theory Tcp_Props
  imports Tcp_Routes Http_Props
begin

text \<open>
  Requests over TCP: their body never arrives as a text, so that nothing can be stored; the queries
  answer as over HTTP; a runtime error never ends the server, other exceptions do.
\<close>

section \<open>The body of a request\<close>

lemma member_or_Inr:
  "member_or x k conv dflt = Inr a \<Longrightarrow> a = dflt \<or> (\<exists>v. conv v = Inr a)"
  by (auto simp: member_or_def res_bind_Inr_iff split: if_splits)

lemma body_text_empty: "body_text b = Inr t \<Longrightarrow> t = []"
  by (cases b) (auto simp: body_text_def split: if_splits)

lemma t_body_empty: "parse_request L text = Inr req \<Longrightarrow> t_body req = []"
  by (auto simp: parse_request_def res_bind_Inr_iff dest!: member_or_Inr body_text_empty split: option.splits)

lemma load_Nil: "load [] = None"
  by code_simp

lemma empty_bodies:
  "put R L [] s = (Inr (False, ''{\"error\": \"Invalid put body\"}''), s)"
  "post R L [] s = (Inr (False, ''{\"error\": \"Invalid put body\"}''), s)"
  "snd (putAtom_body R L [] s) = s" "snd (removeAtom_body R L [] s) = s" "snd (atom R L [] s) = s"
  "snd (incrementValue R L [] s) = s" "snd (makePair R L uuid [] w s) = s"
  by (simp_all add: put_def post_def insert_body_def putAtom_body_def removeAtom_body_def atom_def
      incrementValue_def makePair_def load_Nil)

lemma out_text_state [simp]: "snd (out_text f s) = snd (f s)"
  by (simp add: out_text_def)

section \<open>What requests write\<close>

lemma with_key_of_state:
  "(\<And>key. P (snd (f key s))) \<Longrightarrow> P s \<Longrightarrow> P (snd (with_key_of req failed f s))"
  by (simp add: with_key_of_def case_prod_beta split: sum.split)

lemma with_bodyJson_state:
  "(\<And>x. P (snd (f x s))) \<Longrightarrow> P s \<Longrightarrow> P (snd (with_bodyJson req bad f s))"
  by (simp add: with_bodyJson_def split: sum.split option.split)

lemmas tcp_logged = with_key_of_state [where P = "logged R L [] s" for R L s]
  with_bodyJson_state [where P = "logged R L [] s" for R L s]

definition tcp_writers :: "string list" where
  "tcp_writers = [''/remove'', ''/removeall'', ''/incr'', ''/log'']"

lemma logged_tcp_getjson: "logged R L [] s (snd (tcp_getjson R X req s))"
  using logged_getJson [of R L s "env_lib X"]
  by (auto simp: tcp_getjson_def Let_def case_prod_beta intro!: tcp_logged split: sum.split)

lemmas tcp_readers =
  tcp_existkey_def tcp_get_def tcp_getkeys_def tcp_getcount_def tcp_getlist_def tcp_test_def tcp_ping_def tcp_ai_def
lemmas tcp_body_writers =
  tcp_put_def tcp_postjson_def tcp_putjson_def tcp_putatom_def tcp_removeatom_def tcp_atom_def tcp_incrvalue_def
lemmas tcp_json_readers =
  tcp_getall_def tcp_getsorted_def tcp_iter_def tcp_getitems_def tcp_getjoinedmap_def tcp_getkeysafter_def
  tcp_getkeyslast_def tcp_searchjson_def

lemma string_handler:
  assumes "(path, h) \<in> set (routingTableString R X)" and "path \<notin> set tcp_writers" and "t_body req = []"
  shows "logged R L [] s (snd (h req s))"
proof -
  have "h \<in> {tcp_put R X, tcp_existkey R, tcp_get R, tcp_getkeys R X, tcp_getcount R X, tcp_removeatom R X,
      tcp_putjson R X, tcp_postjson R X, tcp_putatom R X, tcp_atom R X, tcp_getlist R, tcp_incrvalue R X,
      tcp_test, tcp_ping, tcp_ai}"
    using assms(1,2) unfolding routingTableString_def tcp_writers_def by auto
  then show ?thesis using assms(3)
    by (elim insertE emptyE)
      (auto simp: tcp_readers tcp_body_writers empty_bodies case_prod_beta logged_reads intro!: tcp_logged)
qed

lemma json_handler:
  assumes "(path, h) \<in> set (routingTableJson R X)" and "path \<notin> set tcp_writers" and "t_body req = []"
  shows "logged R L [] s (snd (h req s))"
proof -
  have "h \<in> {tcp_getall R X, tcp_getsorted R X, tcp_iter R X, tcp_make R X, tcp_getjson R X, tcp_getitems R X,
      tcp_getjoinedmap R X, tcp_getkeysafter R X, tcp_getkeyslast R X, tcp_searchjson R X}"
    using assms(1,2) unfolding routingTableJson_def tcp_writers_def by auto
  then show ?thesis using assms(3)
    by (elim insertE emptyE)
      (auto simp: tcp_json_readers tcp_make_def empty_bodies case_prod_beta logged_reads logged_tcp_getjson intro!: tcp_logged)
qed

lemma logged_run_handlers:
  assumes "t_query req \<notin> set tcp_writers" and "t_body req = []"
  shows "logged R L [] s (snd (run_handlers R X req s))"
proof -
  let ?p = "case map_of (routingTableString R X) (t_query req) of None \<Rightarrow> (Inr [], s) | Some h \<Rightarrow> h req s"
  have 1: "logged R L [] s (snd ?p)"
    using string_handler [OF _ assms] by (auto split: option.split dest!: map_of_SomeD)
  have 2: "logged R L [] (snd ?p) (snd (map_reply g (h req) (snd ?p)))"
    if "map_of (routingTableJson R X) (t_query req) = Some h" for h and g :: "wvalue \<Rightarrow> string"
    using json_handler [OF map_of_SomeD [OF that] assms] by simp
  show ?thesis using 1 logged_trans [OF 1 2]
    by (simp add: run_handlers_def Let_def case_prod_beta split: sum.split option.split)
qed

lemma dispatch_state: "snd (dispatch R X text s) =
    (case parse_request (env_lib X) text of Inl e \<Rightarrow> s | Inr req \<Rightarrow> snd (run_handlers R X req s))"
  by (simp add: dispatch_def Let_def case_prod_beta split: sum.split)

text \<open>C7: over TCP nothing can be stored. Whatever a request holds, unless it asks for \<open>/remove\<close>,
  \<open>/removeall\<close>, \<open>/incr\<close> or \<open>/log\<close> the contents of the database are the same afterwards and nothing is
  announced to other nodes; \<open>/put\<close> and the batch requests, too: a body that is not empty is dropped.\<close>

theorem tcp_stores_nothing:
  assumes "parse_request (env_lib X) text = Inr req" and "t_query req \<notin> set tcp_writers"
  shows "contents R (snd (dispatch R X text s)) = contents R s \<and>
    published (snd (dispatch R X text s)) = published s \<and> httpLog (snd (dispatch R X text s)) = httpLog s"
  using logged_run_handlers [OF assms(2) t_body_empty [OF assms(1)], of R "env_lib X" s X] assms(1)
  by (simp add: dispatch_state logged_def)

definition put_text :: string where
  "put_text = ''{\"query\":\"/put\",\"body\":{\"key\":\"a\",\"value\":true}}''"

definition put_object :: rvalue where
  "put_object = RObject [(''query'', RString ''/put''),
     (''body'', RObject [(''key'', RString ''a''), (''value'', RTrue)])]"

lemma load_put_text: "load put_text = Some put_object"
  by code_simp

lemma parse_put_text: "parse_request L put_text = Inr \<lparr>t_query = ''/put'', t_body = [], t_skip = 0,
    t_limit = -1, t_reverse = False, t_req = Some put_object\<rparr>"
  by (simp add: parse_request_def load_put_text put_object_def member_or_def body_text_def)

theorem tcp_stores_nothing_witness:
  "contents mem_rocks (snd (dispatch mem_rocks mem_env put_text (mem_node []))) = contents mem_rocks (mem_node []) \<and>
    published (snd (dispatch mem_rocks mem_env put_text (mem_node []))) = published (mem_node []) \<and>
    httpLog (snd (dispatch mem_rocks mem_env put_text (mem_node []))) = httpLog (mem_node [])"
  by (rule tcp_stores_nothing [OF parse_put_text]) (simp add: tcp_writers_def)

text \<open>Every put over TCP is refused. The requests \<open>/put\<close>, \<open>/putjson\<close> and \<open>/postjson\<close> are answered
  with the error for an invalid body and change nothing, also when their body is a correct one.\<close>

theorem tcp_put_refused:
  assumes "parse_request (env_lib X) text = Inr req" and "t_query req \<in> {''/put'', ''/putjson'', ''/postjson''}"
  shows "dispatch R X text s = (Inr ''{\"error\": \"Invalid put body\"}'', s)"
  using assms t_body_empty [OF assms(1)]
  by (auto simp: dispatch_def run_handlers_def routingTableString_def tcp_body_writers out_text_def map_reply_def
      empty_bodies on_error_def)

theorem tcp_put_refused_witness:
  "dispatch mem_rocks mem_env put_text (mem_node []) = (Inr ''{\"error\": \"Invalid put body\"}'', mem_node [])"
  by (rule tcp_put_refused [OF parse_put_text]) simp

section \<open>The same queries over HTTP and TCP\<close>

definition reply_text :: "lib \<Rightarrow> web_reply \<Rightarrow> string" where
  "reply_text L r = (case r of Text t \<Rightarrow> t | Json w \<Rightarrow> dump_json L w | Allowed t \<Rightarrow> t)"

lemma map_reply_ok: "map_reply g f s = (Inr b, s') \<longleftrightarrow> (\<exists>a. f s = (Inr a, s') \<and> b = g a)"
  by (cases "fst (f s)") (auto simp: map_reply_def split: prod.split)

lemma window_op_parsed:
  assumes "stoi (q_skip q) = Inr skip" and "stoi (q_limit q) = Inr limit"
  shows "window_op q f s = f skip limit s" and "with_window q g = g skip limit"
  using assms by (simp_all add: window_op_def with_window_def)

definition shared_queries :: "string list" where
  "shared_queries = [''/getlist'', ''/getjoinedmap'', ''/getkeysafter'', ''/getkeyslast'', ''/searchjson'']"

lemmas shared_handlers =
  route_getlist_def route_getjoinedmap_def route_getkeysafter_def route_getkeyslast_def route_searchjson_def
  tcp_getlist_def tcp_getjoinedmap_def tcp_getkeysafter_def tcp_getkeyslast_def tcp_searchjson_def

text \<open>C6: the five queries \<open>/getlist\<close>, \<open>/getjoinedmap\<close>, \<open>/getkeysafter\<close>, \<open>/getkeyslast\<close> and
  \<open>/searchjson\<close> give the same answer over HTTP and over TCP. When the body of the HTTP request is the
  text of the body of the TCP request and the two give the same window, an answer over HTTP is, as
  text, the answer over TCP, and the node is in the same state afterwards. The other two queries with a
  JSON body, \<open>/getitems\<close> and \<open>/getkeysmulti\<close>, are answered differently.\<close>

theorem tcp_as_http:
  assumes "parse_request (env_lib X) text = Inr req" and "bodyJson req = Inr (Some x)" and "load (body_of hreq) = Some x"
    and "stoi (q_skip (Parse hreq)) = Inr (t_skip req)" and "stoi (q_limit (Parse hreq)) = Inr (t_limit req)"
    and "t_query req \<in> set shared_queries"
    and "serve_http R X m (t_query req) hreq s = (Inr (Some reply), s')"
  shows "dispatch R X text s = (Inr (reply_text (env_lib X) reply), s')"
proof -
  have "run_handlers R X req s = (Inr (reply_text (env_lib X) reply), s')"
    using assms(2,3,6,7) unfolding shared_queries_def
    by (auto simp: run_handlers_def serve_http_def routingTableString_def routingTableJson_def http_routes_def
        shared_handlers json_body_def with_bodyJson_def text_reply_def out_text_def map_reply_ok reply_text_def
        window_op_parsed [OF assms(4,5)] reading_def map_reply_def res_bind_def split: if_splits prod.splits sum.splits)
  then show ?thesis using assms(1) by (simp add: dispatch_def on_error_def)
qed

definition list_text :: string where
  "list_text = ''{\"query\":\"/getlist\",\"body\":[\"a\"]}''"

lemma parse_list_text: "parse_request L list_text = Inr \<lparr>t_query = ''/getlist'', t_body = [], t_skip = 0,
    t_limit = -1, t_reverse = False,
    t_req = Some (RObject [(''query'', RString ''/getlist''), (''body'', RList [RString ''a''])])\<rparr>"
proof -
  have "load list_text = Some (RObject [(''query'', RString ''/getlist''), (''body'', RList [RString ''a''])])"
    by code_simp
  then show ?thesis by (simp add: parse_request_def member_or_def body_text_def)
qed

theorem tcp_as_http_witness:
  "dispatch mem_rocks mem_env list_text (mem_node [(''a'', ''1'')]) =
     (Inr (reply_text (env_lib mem_env) (Text ''{\"result\":[{\"key\":\"a\",\"value\":1}]}'')), mem_node [(''a'', ''1'')])"
proof (rule tcp_as_http [OF parse_list_text, where hreq = "with_param ''body'' ''[\"a\"]''" and m = GET and x = "RList [RString ''a'']"])
  have q: "stoi ''0'' = Inr 0" "stoi ''-1'' = Inr (-1)" by code_simp+
  have x: "load ''[\"a\"]'' = Some (RList [RString ''a''])" by code_simp
  have a: "rocks_Get mem_rocks (mem_of [(''a'', ''1'')]) ''a'' = Some ''1''" by code_simp
  let ?req = "\<lparr>t_query = ''/getlist'', t_body = [], t_skip = 0, t_limit = -1, t_reverse = False,
      t_req = Some (RObject [(''query'', RString ''/getlist''), (''body'', RList [RString ''a''])])\<rparr>"
  show "bodyJson ?req = Inr (Some (RList [RString ''a'']))" by (simp add: bodyJson_def member_or_def)
  show "load (body_of (with_param ''body'' ''[\"a\"]'')) = Some (RList [RString ''a''])"
    by (simp add: with_param_def body_of_def x)
  show "stoi (q_skip (Parse (with_param ''body'' ''[\"a\"]''))) = Inr (t_skip ?req)"
    "stoi (q_limit (Parse (with_param ''body'' ''[\"a\"]''))) = Inr (t_limit ?req)"
    by (simp_all add: with_param_def Parse_def param_or_def q)
  show "t_query ?req \<in> set shared_queries" by (simp add: shared_queries_def)
  show "serve_http mem_rocks mem_env GET (t_query ?req) (with_param ''body'' ''[\"a\"]'') (mem_node [(''a'', ''1'')]) =
      (Inr (Some (Text ''{\"result\":[{\"key\":\"a\",\"value\":1}]}'')), mem_node [(''a'', ''1'')])"
    by (simp add: serve_http_def http_routes_def route_getlist_def json_body_def with_param_def body_of_def x
        text_reply_def map_reply_def window_op_def with_window_def Parse_def param_or_def q getList_text_def
        mem_node_def get_def a selected_def lowerbound_def upperbound_def wrap32_def close_text_def text_item_def)
qed

text \<open>\<open>/getitems\<close> answers differently: over TCP the object it fills has the member \<open>result\<close>, an empty
  text, before the first key is looked up.\<close>

definition items_text :: string where
  "items_text = ''{\"query\":\"/getitems\",\"body\":[\"a\"]}''"

theorem tcp_getitems_differs:
  "fst (dispatch mem_rocks mem_env items_text (mem_node [(''a'', ''{}'')])) = Inr ''{\"result\":\"\",\"a\":{}}'' \<and>
   (case fst (serve_http mem_rocks mem_env GET ''/getitems'' (with_param ''body'' ''[\"a\"]'') (mem_node [(''a'', ''{}'')])) of
      Inr (Some reply) \<Rightarrow> reply_text (env_lib mem_env) reply = ''{\"a\":{}}'' | _ \<Rightarrow> False)"
  by code_simp

section \<open>The end of the server\<close>

text \<open>No runtime error ends the TCP server: the exception that ends it, if one does, is another one.\<close>

theorem tcp_catches_runtime_errors: "fst (snd (tcp_server R X chunks s)) \<noteq> TcpFailed RuntimeError"
proof (induction chunks arbitrary: s)
  case (Cons bytes chunks)
  have "fst (handle_read R X bytes s) \<noteq> Inl RuntimeError"
    by (auto simp: handle_read_def map_reply_def dispatch_def on_error_def Let_def case_prod_beta res_bind_def
        split: sum.splits if_splits)
  then show ?case using Cons.IH by (auto simp: Let_def case_prod_beta split: prod.splits sum.splits)
qed simp

definition test_text :: string where
  "test_text = ''{\"query\":\"/test\"}''"

lemma parse_test_text: "parse_request L test_text = Inr \<lparr>t_query = ''/test'', t_body = [], t_skip = 0,
    t_limit = -1, t_reverse = False, t_req = Some (RObject [(''query'', RString ''/test'')])\<rparr>"
proof -
  have "load test_text = Some (RObject [(''query'', RString ''/test'')])" by code_simp
  then show ?thesis by (simp add: parse_request_def member_or_def)
qed

text \<open>One request ends the TCP server. A \<open>/test\<close> request whose timeout is missing or is not a number
  leaves the server's loop by an exception: it is not answered, and no later read of any connection is
  served.\<close>

theorem tcp_test_ends_server:
  assumes "length bytes < max_length" and "parse_request (env_lib X) (c_str bytes) = Inr req" and "t_query req = ''/test''"
    and "request_get req ''timeout'' = Inr t" and "stoi t = Inl e"
  shows "tcp_server R X (bytes # chunks) s = ([], TcpFailed e, s)"
proof -
  have "load ''quit'' = None" by code_simp
  then have "c_str bytes \<noteq> ''quit''" using assms(2,3) by (auto simp: parse_request_def)
  moreover have "e \<noteq> RuntimeError" using assms(5) by (auto simp: stoi_def Let_def split: list.splits if_splits prod.splits)
  ultimately show ?thesis using assms
    by (simp add: handle_read_def dispatch_def run_handlers_def routingTableString_def tcp_test_def reading_def
        on_error_def map_reply_def)
qed

theorem tcp_test_ends_server_witness:
  "tcp_server mem_rocks mem_env (test_text # [put_text, put_text]) (mem_node []) = ([], TcpFailed InvalidArgument, mem_node [])"
proof (rule tcp_test_ends_server)
  have "c_str test_text = test_text" "length test_text = 17" by code_simp+
  then show "length test_text < max_length" "parse_request (env_lib mem_env) (c_str test_text) =
     Inr \<lparr>t_query = ''/test'', t_body = [], t_skip = 0, t_limit = -1, t_reverse = False,
       t_req = Some (RObject [(''query'', RString ''/test'')])\<rparr>"
    by (simp_all add: max_length_def parse_test_text)
  show "stoi [] = Inl InvalidArgument" by code_simp
qed (simp_all add: request_get_def member_or_def)

end
