(* ===== verification/Cloud.thy ===== *)
theory Cloud
  imports Store
begin

text \<open>
  The messages between nodes, \<^verbatim>\<open>include/quarkscloud.hpp\<close> and the nodes of \<^verbatim>\<open>src/quarks.cpp\<close> that read
  them: the frames (\<open>EncodedMsg\<close>, \<open>DecodedMsg\<close>), what \<open>runBroker\<close>, \<open>runWriter\<close> and \<open>runReader\<close> connect
  to, and what each does with one message. A message is a list of bytes; a \<^verbatim>\<open>size_t\<close> has eight, the
  lowest first. The sockets belong to ZeroMQ: a node is a function from the messages it receives, in
  order, to those it sends. Waiting, signals, interrupts and output are left out.
\<close>

section \<open>Frames\<close>

definition size_bytes :: "nat \<Rightarrow> string" where
  "size_bytes n = map (\<lambda>i. char_of (n div 256 ^ i mod 256)) [0..<8]"

definition bytes_size :: "string \<Rightarrow> nat" where
  "bytes_size bs = foldr (\<lambda>c n. of_char c + 256 * n) bs 0"

definition encode :: "string \<Rightarrow> string" where
  "encode msg = size_bytes (length msg) @ msg"

text \<open>The size is read from the frame and not compared with its length.\<close>

definition decode :: "string \<Rightarrow> string res" where
  "decode m =
     (let sz = bytes_size (take 8 m) in
      if length m < 8 \<or> length m < 8 + sz then Inl Undefined else Inr (take sz (drop 8 m)))"

definition BROKER_OK :: string where "BROKER_OK = ''brokerok''"

text \<open>\<open>Interface::write\<close> as the core calls it: the text with its terminating NUL.\<close>

definition node_write :: "bool \<Rightarrow> string \<Rightarrow> string list" where
  "node_write producerSet data = (if producerSet then [encode (data @ [NUL])] else [])"

datatype read_type = ReadUnknown | ReadBroker | ReadSave | ReadPublish

text \<open>\<open>QCWriter::onRead\<close> and \<open>QCReader::onRead\<close>, which read the data as a C string.\<close>

definition onRead :: "'db rocks \<Rightarrow> read_type \<Rightarrow> string \<Rightarrow> ('db, unit) op" where
  "onRead R type data s =
     (if NUL \<notin> set data then (Inl Undefined, s)
      else if type = ReadSave then qcSave R data s else (Inr (), s))"

section \<open>Broker\<close>

text \<open>One message: what is published to the readers, and the reply to a writer that asked.\<close>

definition broker_step :: "bool \<Rightarrow> string \<Rightarrow> (string \<times> string option) res" where
  "broker_step sinkMode request =
     res_bind (decode request) (\<lambda>req.
       Inr (encode req, if sinkMode then None else Some (encode (BROKER_OK @ [NUL]))))"

text \<open>The messages in order: what was published, the replies, and the exception that ended the loop.\<close>

fun runBroker :: "bool \<Rightarrow> string list \<Rightarrow> (string list \<times> string list) \<times> exc option" where
  "runBroker sinkMode [] = (([], []), None)"
| "runBroker sinkMode (request # requests) =
     (case broker_step sinkMode request of
        Inl e \<Rightarrow> (([], []), Some e)
      | Inr (pub, reply) \<Rightarrow>
          (let ((pubs, replies), err) = runBroker sinkMode requests
           in ((pub # pubs, (case reply of None \<Rightarrow> [] | Some r \<Rightarrow> [r]) @ replies), err)))"

definition sink_mode :: "string \<Rightarrow> bool" where
  "sink_mode sinkUrl = (sinkUrl \<noteq> [])"

section \<open>Writer\<close>

text \<open>What a writer is connected to; an address is \<open>None\<close> when there is no such connection.\<close>

record writer_links =
  producer_bound :: "string option"
  consumer_from :: "string option"
  writerChain :: bool
  firstInChain :: bool
  lastInChain :: bool
  chain_bound :: "string option"
  sink_to :: "string option"
  broker_to :: "string option"

definition connect_writer :: "string \<Rightarrow> string \<Rightarrow> string \<Rightarrow> string \<Rightarrow> writer_links" where
  "connect_writer brokerUrl producerUrl consumerUrl sinkUrl =
     (let (chain, first, last, bound, sink) =
        (if brokerUrl = ''-'' then (True, True, False, Some sinkUrl, [])
         else if brokerUrl = ''+'' then (True, False, False, Some sinkUrl, [])
         else if brokerUrl = ''.'' then (True, False, True, None, sinkUrl)
         else (False, False, False, None, sinkUrl))
      in \<lparr>producer_bound = (if producerUrl \<noteq> ''!'' then Some producerUrl else None),
          consumer_from = (if consumerUrl \<noteq> ''!'' then Some consumerUrl else None),
          writerChain = chain, firstInChain = first, lastInChain = last, chain_bound = bound,
          sink_to = (if sink \<noteq> [] then Some sink else None),
          broker_to = (if \<not> chain \<and> brokerUrl \<noteq> ''!'' then Some brokerUrl else None)\<rparr>)"

text \<open>The first message to a broker.\<close>

definition presence :: string where
  "presence = encode (''reportwriter'' @ [NUL])"

record writer_sent =
  to_broker :: "string list"
  to_chain :: "string list"
  to_sink :: "string list"

text \<open>
  One message of the consumer. The broker's reply is read, decoded and passed to \<open>onRead\<close>, which does
  nothing with it.
\<close>

definition writer_step :: "'db rocks \<Rightarrow> writer_links \<Rightarrow> string \<Rightarrow> ('db, writer_sent) op" where
  "writer_step R l message s =
     (case decode message of
        Inl e \<Rightarrow> (Inl e, s)
      | Inr req \<Rightarrow>
          if broker_to l \<noteq> None then (Inr \<lparr>to_broker = [encode req], to_chain = [], to_sink = []\<rparr>, s)
          else
            (case (if writerChain l \<and> \<not> firstInChain l then onRead R ReadSave req s else (Inr (), s)) of
               (Inl e, s1) \<Rightarrow> (Inl e, s1)
             | (Inr u, s1) \<Rightarrow>
                 (Inr \<lparr>to_broker = [],
                    to_chain = (if writerChain l \<and> \<not> lastInChain l then [encode req] else []),
                    to_sink = (if sink_to l \<noteq> None then [encode req] else [])\<rparr>, s1)))"

fun runWriter ::
    "'db rocks \<Rightarrow> writer_links \<Rightarrow> string list \<Rightarrow> 'db core \<Rightarrow> (writer_sent \<times> exc option) \<times> 'db core" where
  "runWriter R l [] s = ((\<lparr>to_broker = [], to_chain = [], to_sink = []\<rparr>, None), s)"
| "runWriter R l (message # messages) s =
     (case writer_step R l message s of
        (Inl e, s1) \<Rightarrow> ((\<lparr>to_broker = [], to_chain = [], to_sink = []\<rparr>, Some e), s1)
      | (Inr a, s1) \<Rightarrow>
          (let ((b, err), s2) = runWriter R l messages s1 in
           ((\<lparr>to_broker = to_broker a @ to_broker b, to_chain = to_chain a @ to_chain b,
              to_sink = to_sink a @ to_sink b\<rparr>, err), s2)))"

section \<open>Reader\<close>

definition reader_connected :: "string \<Rightarrow> bool" where
  "reader_connected subscriberUrl = (subscriberUrl \<noteq> ''!'')"

fun runReader :: "'db rocks \<Rightarrow> string list \<Rightarrow> ('db, unit) op" where
  "runReader R [] s = (Inr (), s)"
| "runReader R (message # messages) s =
     (case decode message of
        Inl e \<Rightarrow> (Inl e, s)
      | Inr msg \<Rightarrow>
          (case onRead R ReadSave msg s of
             (Inl e, s1) \<Rightarrow> (Inl e, s1) | (Inr u, s1) \<Rightarrow> runReader R messages s1))"

end
