(* ===== verification/Cloud_Props.thy ===== *)
theory Cloud_Props
  imports Cloud Http_Props
begin

text \<open>
  What the messages between nodes achieve: a frame gives its message back; the messages a writer
  published while it served requests reach a reader through the broker, or the writers behind it in
  a chain, and bring them to the writer's contents; one message that is JSON and lacks a field ends
  the loop of a reader.
\<close>

section \<open>Frames\<close>

lemma bytes_size_snoc: "bytes_size (bs @ [c]) = bytes_size bs + 256 ^ length bs * of_char c"
  by (induction bs) (simp_all add: bytes_size_def algebra_simps)

lemma bytes_size_digits:
  "bytes_size (map (\<lambda>i. char_of (n div 256 ^ i mod 256 :: nat)) [0..<k]) = n mod 256 ^ k"
proof (induction k)
  case (Suc k)
  have "n mod 256 ^ Suc k = 256 ^ k * (n div 256 ^ k mod 256) + n mod 256 ^ k"
    using mod_mult2_eq [of n "256 ^ k" 256] by (simp add: mult.commute)
  then show ?case using Suc by (simp add: bytes_size_snoc)
qed (simp add: bytes_size_def)

lemma length_size_bytes [simp]: "length (size_bytes n) = 8"
  by (simp add: size_bytes_def)

lemma bytes_size_bytes: "n < 256 ^ 8 \<Longrightarrow> bytes_size (size_bytes n) = n"
  using bytes_size_digits [of n 8] by (simp add: size_bytes_def)

lemma decode_encode: "length msg < 256 ^ 8 \<Longrightarrow> decode (encode msg) = Inr msg"
  using bytes_size_bytes [of "length msg"] by (simp add: decode_def encode_def Let_def)

section \<open>The messages of a writer on their way\<close>

definition frame_of :: "string \<Rightarrow> string" where
  "frame_of data = encode (data @ [NUL])"

definition sendable :: "string \<Rightarrow> bool" where
  "sendable data \<longleftrightarrow> length data + 1 < 256 ^ 8"

lemma decode_frame: "sendable data \<Longrightarrow> decode (frame_of data) = Inr (data @ [NUL])"
  by (simp add: frame_of_def sendable_def decode_encode)

lemma node_writes: "concat (map (node_write True) msgs) = map frame_of msgs"
  by (induction msgs) (simp_all add: node_write_def frame_of_def)

lemma c_str_terminated: "c_str (data @ [NUL]) = c_str data"
  by (induction data) (simp_all add: c_str_def)

lemma qcSave_terminated: "qcSave R (data @ [NUL]) s = qcSave R data s"
  by (simp add: qcSave_def c_str_terminated)

lemma onRead_save: "onRead R ReadSave (data @ [NUL]) s = qcSave R data s"
  by (simp add: onRead_def qcSave_terminated)

lemma runReader_frames:
  "list_all sendable msgs \<Longrightarrow> runReader R (map frame_of msgs) s = qcSave_all R msgs s"
  by (induction msgs arbitrary: s) (simp_all add: decode_frame onRead_save split: prod.split sum.split)

lemma runBroker_frames:
  "list_all sendable msgs \<Longrightarrow> \<exists>replies. runBroker sinkMode (map frame_of msgs) = ((map frame_of msgs, replies), None) \<and>
     length replies = (if sinkMode then 0 else length msgs)"
  by (induction msgs) (auto simp: broker_step_def decode_frame frame_of_def [symmetric])

lemma runWriter_broker:
  assumes "broker_to l \<noteq> None"
  shows "list_all sendable msgs \<Longrightarrow> runWriter R l (map frame_of msgs) s =
    ((\<lparr>to_broker = map frame_of msgs, to_chain = [], to_sink = []\<rparr>, None), s)"
  by (induction msgs) (simp_all add: writer_step_def decode_frame assms frame_of_def [symmetric])

lemma presence_frame: "presence = frame_of ''reportwriter''"
  by (simp add: presence_def frame_of_def)

lemma qcSave_presence: "qcSave R ''reportwriter'' s = (Inr (), s)"
proof -
  have "load (c_str ''reportwriter'') = None" by code_simp
  then show ?thesis by (simp add: qcSave_def)
qed

text \<open>C3: replication through a broker, from end to end. The messages that a writer published while it
  served any HTTP requests go as frames to its own consumer, from there to the broker, and from the
  broker to a reader, behind the message by which the writer reported. Every step takes all of them, the
  broker answers each, and a reader that had the writer's contents has them again.\<close>

theorem cloud_replication:
  assumes "rocksdb R entries" and "rocks_reliable R" and "um_order_ok (env_lib X)"
    and "list_all (\<lambda>(m, path, req). path \<noteq> ''/log'') calls"
    and "isWriter s" and "dbOk r" and "contents R r = contents R s"
    and "published (serve_calls R X calls s) = published s @ msgs" and "list_all sendable msgs"
    and "broker_to l \<noteq> None"
  shows "\<exists>sent pubs replies d.
    runWriter R l (concat (map (node_write True) msgs)) (serve_calls R X calls s) = ((sent, None), serve_calls R X calls s) \<and>
    runBroker False (presence # to_broker sent) = ((pubs, replies), None) \<and> length replies = length msgs + 1 \<and>
    runReader R pubs r = (Inr (), r\<lparr>db := d\<rparr>) \<and> rocks_Get R d = contents R (serve_calls R X calls s)"
proof -
  obtain d where d: "qcSave_all R msgs r = (Inr (), r\<lparr>db := d\<rparr>)" "rocks_Get R d = contents R (serve_calls R X calls s)"
    using rocksdb.refines_replicate [OF assms(1,3,2) rocksdb.refines_serve_calls [OF assms(1,2,4)] assms(5-7)]
      assms(8) by auto
  have all: "list_all sendable (''reportwriter'' # msgs)" using assms(9) by (simp add: sendable_def)
  obtain replies where b: "runBroker False (map frame_of (''reportwriter'' # msgs)) =
      ((map frame_of (''reportwriter'' # msgs), replies), None)" "length replies = length msgs + 1"
    using runBroker_frames [OF all, of False] by auto
  let ?sent = "\<lparr>to_broker = map frame_of msgs, to_chain = [], to_sink = []\<rparr>"
  have "presence # to_broker ?sent = map frame_of (''reportwriter'' # msgs)" by (simp add: presence_frame)
  moreover have "runReader R (map frame_of (''reportwriter'' # msgs)) r = (Inr (), r\<lparr>db := d\<rparr>)"
    using runReader_frames [OF all, of R r] d(1) qcSave_presence [of R r] by simp
  moreover have "runWriter R l (concat (map (node_write True) msgs)) (serve_calls R X calls s) =
      ((?sent, None), serve_calls R X calls s)"
    unfolding node_writes by (rule runWriter_broker [OF assms(10,9)])
  ultimately show ?thesis using b d(2) by metis
qed

theorem cloud_replication_witness:
  "\<exists>sent pubs replies d.
    runWriter mem_rocks (connect_writer ''tcp://b:1'' ''tcp://*:2'' ''tcp://c:2'' []) (concat (map (node_write True)
        [''{\"value\":\"\",\"key\":\"n\",\"action\":\"remove\"}'']))
      (serve_calls mem_rocks mem_env [(GET, ''/remove'', with_param ''key'' ''n'')] ((mem_node [(''n'', ''5'')])\<lparr>isWriter := True\<rparr>)) =
      ((sent, None), serve_calls mem_rocks mem_env [(GET, ''/remove'', with_param ''key'' ''n'')]
        ((mem_node [(''n'', ''5'')])\<lparr>isWriter := True\<rparr>)) \<and>
    runBroker False (presence # to_broker sent) = ((pubs, replies), None) \<and>
    length replies = length [''{\"value\":\"\",\"key\":\"n\",\"action\":\"remove\"}''] + 1 \<and>
    runReader mem_rocks pubs (mem_node [(''n'', ''5'')]) = (Inr (), (mem_node [(''n'', ''5'')])\<lparr>db := d\<rparr>) \<and>
    rocks_Get mem_rocks d = contents mem_rocks (serve_calls mem_rocks mem_env [(GET, ''/remove'', with_param ''key'' ''n'')]
      ((mem_node [(''n'', ''5'')])\<lparr>isWriter := True\<rparr>))"
proof (rule cloud_replication [OF mem.rocksdb_axioms mem_reliable])
  show "published (serve_calls mem_rocks mem_env [(GET, ''/remove'', with_param ''key'' ''n'')]
      ((mem_node [(''n'', ''5'')])\<lparr>isWriter := True\<rparr>)) =
    published ((mem_node [(''n'', ''5'')])\<lparr>isWriter := True\<rparr>) @ [''{\"value\":\"\",\"key\":\"n\",\"action\":\"remove\"}'']"
    by code_simp
qed (simp_all add: mem_node_def mem_env_def mem_lib_order sendable_def connect_writer_def)

section \<open>Chains of writers\<close>

lemma runWriter_chain:
  assumes "writerChain l" and "broker_to l = None"
  shows "list_all sendable msgs \<Longrightarrow> qcSave_all R msgs s = (Inr (), s') \<Longrightarrow>
    runWriter R l (map frame_of msgs) s =
      ((\<lparr>to_broker = [], to_chain = (if lastInChain l then [] else map frame_of msgs),
         to_sink = (if sink_to l = None then [] else map frame_of msgs)\<rparr>, None),
       if firstInChain l then s else s')"
proof (induction msgs arbitrary: s)
  case (Cons m msgs)
  obtain s1 where s1: "qcSave R m s = (Inr (), s1)" "qcSave_all R msgs s1 = (Inr (), s')"
    using Cons.prems(2) by (auto split: prod.splits sum.splits)
  have first: "runWriter R l (map frame_of msgs) s =
      ((\<lparr>to_broker = [], to_chain = (if lastInChain l then [] else map frame_of msgs),
         to_sink = (if sink_to l = None then [] else map frame_of msgs)\<rparr>, None), s)" if "firstInChain l"
    using Cons.prems(1) that
    by (induction msgs) (auto simp: writer_step_def decode_frame assms frame_of_def [symmetric])
  show ?case using Cons.prems(1) Cons.IH [OF _ s1(2)] s1(1) first
    by (auto simp: writer_step_def decode_frame onRead_save assms frame_of_def [symmetric])
qed simp

text \<open>The writers behind the first one, each fed by the one before.\<close>

fun run_chain :: "'db rocks \<Rightarrow> string list \<Rightarrow> (writer_links \<times> 'db core) list \<Rightarrow> ('db core \<times> exc option) list" where
  "run_chain R frames [] = []"
| "run_chain R frames ((l, s) # nodes) =
     (let ((sent, err), s') = runWriter R l frames s in (s', err) # run_chain R (to_chain sent) nodes)"

definition chained :: "string \<Rightarrow> writer_links \<Rightarrow> bool" where
  "chained brokerUrl l \<longleftrightarrow> (\<exists>p c k. l = connect_writer brokerUrl p c k)"

lemma chained_links:
  "chained ''+'' l \<Longrightarrow> writerChain l \<and> broker_to l = None \<and> \<not> firstInChain l \<and> \<not> lastInChain l"
  "chained ''.'' l \<Longrightarrow> writerChain l \<and> broker_to l = None \<and> \<not> firstInChain l \<and> lastInChain l"
  "chained ''-'' l \<Longrightarrow> writerChain l \<and> broker_to l = None \<and> firstInChain l \<and> \<not> lastInChain l"
  by (auto simp: chained_def connect_writer_def Let_def)

context rocksdb
begin

lemma run_chain_converges:
  assumes "um_order_ok L" and "rocks_reliable R" and "list_all sendable (map (write_message L) ws)"
    and "\<forall>(l, r) \<in> set mids. chained ''+'' l \<and> dbOk r \<and> contents R r = m"
    and "chained ''.'' l" and "dbOk r" and "contents R r = m"
  shows "list_all (\<lambda>(r', err). err = None \<and> contents R r' = apply_writes ws m)
    (run_chain R (map frame_of (map (write_message L) ws)) (mids @ [(l, r)]))"
  using assms(4)
proof (induction mids)
  case Nil
  obtain d where "qcSave_all R (map (write_message L) ws) r = (Inr (), r\<lparr>db := d\<rparr>)"
    "rocks_Get R d = apply_writes ws m"
    using qcSave_all_messages [OF assms(1,2,6), of ws] assms(7) by auto
  then show ?case
    using runWriter_chain [of l "map (write_message L) ws" R r] chained_links(2) [OF assms(5)] assms(3) by simp
next
  case (Cons node mids)
  obtain l' r' where node: "node = (l', r')" by (cases node)
  have ok: "chained ''+'' l'" "dbOk r'" "contents R r' = m" using Cons.prems by (auto simp: node)
  obtain d where "qcSave_all R (map (write_message L) ws) r' = (Inr (), r'\<lparr>db := d\<rparr>)"
    "rocks_Get R d = apply_writes ws m"
    using qcSave_all_messages [OF assms(1,2) ok(2), of ws] ok(3) by auto
  then show ?case
    using runWriter_chain [of l' "map (write_message L) ws" R r'] chained_links(1) [OF ok(1)] assms(3)
      Cons.IH Cons.prems by (simp add: node)
qed

end

text \<open>C38: replication along a chain of writers. The messages the first writer published while it served
  HTTP requests pass through any number of writers in the middle of the chain to the last one; when all
  had the same contents, no message is refused and every one of them ends with the contents of the first.\<close>

theorem chain_replication:
  assumes "rocksdb R entries" and "rocks_reliable R" and "um_order_ok (env_lib X)"
    and "list_all (\<lambda>(m, path, req). path \<noteq> ''/log'') calls" and "isWriter s"
    and "published (serve_calls R X calls s) = published s @ msgs" and "list_all sendable msgs"
    and "chained ''-'' first" and "chained ''.'' l" and "dbOk r" and "contents R r = contents R s"
    and "\<forall>(l, r) \<in> set mids. chained ''+'' l \<and> dbOk r \<and> contents R r = contents R s"
  shows "\<exists>sent.
    runWriter R first (concat (map (node_write True) msgs)) (serve_calls R X calls s) = ((sent, None), serve_calls R X calls s) \<and>
    list_all (\<lambda>(r', err). err = None \<and> contents R r' = contents R (serve_calls R X calls s))
      (run_chain R (to_chain sent) (mids @ [(l, r)]))"
proof -
  obtain ws where ws: "msgs = map (write_message (env_lib X)) ws"
      "contents R (serve_calls R X calls s) = apply_writes ws (contents R s)"
    using rocksdb.refines_serve_calls [OF assms(1,2,4), of X s] assms(5,6) by (auto simp: refines_def logged_def)
  have first: "runWriter R first (map frame_of msgs) t =
      ((\<lparr>to_broker = [], to_chain = map frame_of msgs, to_sink = []\<rparr>, None), t)" for t
    using assms(7,8) by (induction msgs)
      (auto simp: writer_step_def decode_frame frame_of_def [symmetric] chained_def connect_writer_def)
  have "list_all (\<lambda>(r', err). err = None \<and> contents R r' = contents R (serve_calls R X calls s))
      (run_chain R (map frame_of msgs) (mids @ [(l, r)]))"
    using rocksdb.run_chain_converges [OF assms(1,3,2) _ assms(12,9,10,11), of ws] assms(7) unfolding ws by simp
  then show ?thesis unfolding node_writes using first [of "serve_calls R X calls s"]
    by (intro exI [of _ "\<lparr>to_broker = [], to_chain = map frame_of msgs, to_sink = []\<rparr>"]) simp
qed

theorem chain_replication_witness:
  "\<exists>sent.
    runWriter mem_rocks (connect_writer ''-'' ''p'' ''c'' ''s'') (concat (map (node_write True)
        [''{\"value\":\"\",\"key\":\"n\",\"action\":\"remove\"}'']))
      (serve_calls mem_rocks mem_env [(GET, ''/remove'', with_param ''key'' ''n'')] ((mem_node [(''n'', ''5'')])\<lparr>isWriter := True\<rparr>)) =
      ((sent, None), serve_calls mem_rocks mem_env [(GET, ''/remove'', with_param ''key'' ''n'')]
        ((mem_node [(''n'', ''5'')])\<lparr>isWriter := True\<rparr>)) \<and>
    list_all (\<lambda>(r', err). err = None \<and> contents mem_rocks r' = contents mem_rocks
        (serve_calls mem_rocks mem_env [(GET, ''/remove'', with_param ''key'' ''n'')] ((mem_node [(''n'', ''5'')])\<lparr>isWriter := True\<rparr>)))
      (run_chain mem_rocks (to_chain sent)
        ([(connect_writer ''+'' ''p'' ''c'' ''s'', mem_node [(''n'', ''5'')])] @
         [(connect_writer ''.'' ''p'' ''c'' [], mem_node [(''n'', ''5'')])]))"
proof (rule chain_replication [OF mem.rocksdb_axioms mem_reliable])
  show "published (serve_calls mem_rocks mem_env [(GET, ''/remove'', with_param ''key'' ''n'')]
      ((mem_node [(''n'', ''5'')])\<lparr>isWriter := True\<rparr>)) =
    published ((mem_node [(''n'', ''5'')])\<lparr>isWriter := True\<rparr>) @ [''{\"value\":\"\",\"key\":\"n\",\"action\":\"remove\"}'']"
    by code_simp
qed (auto simp: mem_node_def mem_env_def mem_lib_order sendable_def chained_def)

section \<open>A message that lacks a field\<close>

text \<open>One message ends a reader. A message that is a JSON object without a member \<open>key\<close> leaves the
  loop of the reader by a runtime error, and no message after it is applied.\<close>

theorem reader_ends:
  assumes "sendable m" and "load (c_str m) = Some (RObject kvs)" and "map_of kvs ''key'' = None"
    and "list_all sendable ms" and "qcSave_all R ms s = (Inr (), s')"
  shows "runReader R (map frame_of ms @ frame_of m # rest) s = (Inl RuntimeError, s')"
  using assms(4,5)
proof (induction ms arbitrary: s)
  case Nil
  then show ?case using assms(1-3) by (simp add: decode_frame onRead_save qcSave_def)
next
  case (Cons n ms)
  then show ?case by (auto simp: decode_frame onRead_save split: prod.splits sum.splits)
qed

theorem reader_ends_witness:
  "runReader mem_rocks (map frame_of [] @ frame_of ''{}'' # [frame_of ''{}'']) (mem_node []) =
    (Inl RuntimeError, mem_node [])"
proof (rule reader_ends)
  show "load (c_str ''{}'') = Some (RObject [])" by code_simp
qed (simp_all add: sendable_def)

end
