(* ===== verification/Startup.thy ===== *)
theory Startup
  imports Queries
begin

text \<open>
  The command line and the roles of a node: \<open>Core::setEnvironment\<close> and \<open>Core::run\<close> of
  \<^verbatim>\<open>src/quarks.cpp\<close>. The flags that say what the next argument means are kept as the set of those
  that are true. Opening the database is \<open>openDB\<close> of \<open>Store\<close>; the loops that \<open>run\<close> starts are those of
  \<open>Cloud\<close>.
\<close>

section \<open>The command line\<close>

datatype flag =
    schema | port | interceptsocket | brokerFlag | sinkFlag | readerFlag | writerFlag
  | producerFlag | consumerFlag | tcpServerFlag | tcpClientFlag | loggerFlag | timeoutFlag

record settings =
  schemaname :: string
  hooksocket :: bool
  portNumber :: int
  timeout :: int
  broker :: bool
  writer :: bool
  reader :: bool
  tcpServer :: bool
  tcpClient :: bool
  withLogger :: bool
  brokerBindUrl :: string
  brokerUrl :: string
  sinkUrl :: string
  producerUrl :: string
  consumerUrl :: string
  tcpUrl :: string
  logUrl :: string
  cached :: bool

definition initial_settings :: settings where
  "initial_settings = \<lparr>schemaname = ''quarks_db'', hooksocket = True, portNumber = 18080, timeout = 0,
     broker = False, writer = False, reader = False, tcpServer = False, tcpClient = False,
     withLogger = False, brokerBindUrl = [], brokerUrl = [], sinkUrl = [], producerUrl = [],
     consumerUrl = [], tcpUrl = [], logUrl = [], cached = False\<rparr>"

text \<open>The first chain of conditions: the argument as the operand of the flag that is set.\<close>

definition take_operand :: "string \<Rightarrow> flag set \<times> settings \<Rightarrow> (flag set \<times> settings) res" where
  "take_operand v st = (case st of (flags, c) \<Rightarrow>
     if schema \<in> flags then Inr (flags - {schema}, c\<lparr>schemaname := v\<rparr>)
     else if port \<in> flags then
       res_bind (stoi v) (\<lambda>n. Inr (flags - {port}, c\<lparr>portNumber := n\<rparr>))
     else if interceptsocket \<in> flags then Inr (flags - {interceptsocket}, c\<lparr>hooksocket := False\<rparr>)
     else if brokerFlag \<in> flags then
       Inr (flags - {brokerFlag}, c\<lparr>broker := True, brokerBindUrl := v\<rparr>)
     else if sinkFlag \<in> flags then Inr (flags - {sinkFlag}, c\<lparr>sinkUrl := v\<rparr>)
     else if readerFlag \<in> flags then Inr (flags - {readerFlag}, c\<lparr>reader := True, brokerUrl := v\<rparr>)
     else if writerFlag \<in> flags then Inr (flags - {writerFlag}, c\<lparr>writer := True, brokerUrl := v\<rparr>)
     else if producerFlag \<in> flags then Inr (flags - {producerFlag}, c\<lparr>producerUrl := v\<rparr>)
     else if consumerFlag \<in> flags then Inr (flags - {consumerFlag}, c\<lparr>consumerUrl := v\<rparr>)
     else if tcpServerFlag \<in> flags then
       Inr (flags - {tcpServerFlag}, c\<lparr>tcpUrl := v, tcpServer := True\<rparr>)
     else if tcpClientFlag \<in> flags then
       Inr (flags - {tcpClientFlag}, c\<lparr>tcpUrl := v, tcpClient := True\<rparr>)
     else if loggerFlag \<in> flags then
       Inr (flags - {loggerFlag}, c\<lparr>logUrl := v, withLogger := True\<rparr>)
     else if timeoutFlag \<in> flags then
       res_bind (stoi v) (\<lambda>n. Inr (flags - {timeoutFlag}, c\<lparr>timeout := n\<rparr>))
     else Inr (flags, c))"

text \<open>The second chain: the argument as an option.\<close>

definition option_flag :: "string \<Rightarrow> flag option" where
  "option_flag v =
     (if v = ''-db'' \<or> v = ''-store'' then Some schema
      else if v = ''-port'' then Some port
      else if v = ''-nohooksocket'' then Some interceptsocket
      else if v = ''-broker'' then Some brokerFlag
      else if v = ''-sink'' then Some sinkFlag
      else if v = ''-reader'' then Some readerFlag
      else if v = ''-writer'' then Some writerFlag
      else if v = ''-producer'' \<or> v = ''-publisher'' then Some producerFlag
      else if v = ''-consumer'' \<or> v = ''-subscriber'' then Some consumerFlag
      else if v = ''-tcpserver'' then Some tcpServerFlag
      else if v = ''-tcpclient'' then Some tcpClientFlag
      else if v = ''-log'' then Some loggerFlag
      else if v = ''-timeout'' then Some timeoutFlag
      else None)"

definition take_option :: "string \<Rightarrow> flag set \<times> settings \<Rightarrow> flag set \<times> settings" where
  "take_option v st = (case st of (flags, c) \<Rightarrow>
     (case option_flag v of
        Some f \<Rightarrow> (insert f flags, c)
      | None \<Rightarrow> if v = ''-cached'' then (flags, c\<lparr>cached := True\<rparr>) else (flags, c)))"

definition read_argument :: "string \<Rightarrow> flag set \<times> settings \<Rightarrow> (flag set \<times> settings) res" where
  "read_argument v st = res_bind (take_operand v st) (\<lambda>st'. Inr (take_option v st'))"

text \<open>\<open>args\<close> are the arguments after the name of the program.\<close>

definition read_arguments :: "string list \<Rightarrow> (flag set \<times> settings) res" where
  "read_arguments args = fold_res read_argument args ({}, initial_settings)"

text \<open>
  The settings, the arguments kept (the name of the database is added at the end) and the node: \<open>d\<close> and
  \<open>ok\<close> are what opening the database of that name gives.
\<close>

definition setEnvironment ::
    "'db rocks \<Rightarrow> (string \<Rightarrow> 'db \<times> bool) \<Rightarrow> string list \<Rightarrow> (settings \<times> string list \<times> 'db core) res" where
  "setEnvironment R opened args =
     res_bind (read_arguments args) (\<lambda>(flags, c).
       let (d, ok) = opened (schemaname c) in
       Inr (c, args @ [schemaname c],
         openDB R d ok \<lparr>db = d, dbOk = ok, cacheEnabled = cached c, cacheMap = [], isWriter = writer c,
           hasLogger = withLogger c, loggerUrl = logUrl c, published = [], httpLog = []\<rparr>))"

section \<open>The roles\<close>

text \<open>What \<open>run\<close> starts, with the addresses it passes on.\<close>

datatype cloud_role =
    Broker string string string
  | Writer string string string string
  | Reader string
  | Single

definition run_broker :: "settings \<Rightarrow> (cloud_role \<times> settings) res" where
  "run_broker c =
     (let tokens = tokenize (CHR '':'') (brokerBindUrl c) in
      res_bind (if 1 < length tokens then
                  (if 2 < length tokens then stoi (tokens ! 2) else Inl Undefined)
                else Inr 5556) (\<lambda>portNumber.
        let p = (if producerUrl c = [] then ''tcp://*:'' @ to_string (wrap32 (portNumber + 1)) else producerUrl c);
            s = (if sinkUrl c = ''x'' then ''tcp://*:5558'' else sinkUrl c);
            c' = c\<lparr>producerUrl := p, sinkUrl := s\<rparr>
        in Inr (Broker (brokerBindUrl c) p s, c')))"

definition run_writer :: "settings \<Rightarrow> cloud_role \<times> settings" where
  "run_writer c =
     (let p = (if producerUrl c = [] then ''tcp://*:5557'' else producerUrl c);
          q = (if consumerUrl c = [] then ''tcp://localhost:5557'' else consumerUrl c);
          s = (if sinkUrl c = ''x'' then ''tcp://*:5558''
               else if sinkUrl c = ''+'' then ''tcp://localhost:5558'' else sinkUrl c)
      in (Writer (brokerUrl c) p q s, c\<lparr>producerUrl := p, consumerUrl := q, sinkUrl := s\<rparr>))"

definition run_reader :: "settings \<Rightarrow> cloud_role \<times> settings" where
  "run_reader c =
     (let b = (if brokerUrl c = ''+'' then ''tcp://localhost:5556'' else brokerUrl c)
      in (Reader b, c\<lparr>brokerUrl := b\<rparr>))"

definition run_core :: "settings \<Rightarrow> (cloud_role \<times> settings) res" where
  "run_core c =
     (if broker c then run_broker c
      else if writer c then Inr (run_writer c)
      else if reader c then Inr (run_reader c)
      else Inr (Single, c))"

text \<open>\<open>isANode\<close> decides which thread of \<open>main\<close> runs the HTTP server.\<close>

definition isANode :: "settings \<Rightarrow> bool" where
  "isANode c = (broker c \<or> writer c \<or> reader c)"

section \<open>Addresses of the TCP server\<close>

text \<open>
  \<open>tcpServerStart\<close> takes the port from the second part of the address, \<open>tcpClientStart\<close> both parts.
  The port of the server becomes the default.
\<close>

definition server_port :: "string \<Rightarrow> int \<Rightarrow> int res" where
  "server_port url tcp_port =
     (let tokens = tokenize (CHR '':'') (c_str url) in
      if 1 < length tokens then stoi (tokens ! 1) else Inr tcp_port)"

definition client_endpoint :: "string \<Rightarrow> int \<Rightarrow> (string \<times> int) res" where
  "client_endpoint url tcp_port =
     (let tokens = tokenize (CHR '':'') (c_str url) in
      if 1 < length tokens
      then res_bind (stoi (tokens ! 1)) (\<lambda>p. Inr (tokens ! 0, p)) else Inr (''127.0.0.1'', tcp_port))"

end
