(* ===== verification/Startup_Props.thy ===== *)
theory Startup_Props
  imports Startup Store_Laws
begin

text \<open>
  The command line: at most one flag is ever set, so that the order in which the flags are tested does
  not matter; options with operands act one after the other; and the settings decide the roles.
\<close>

section \<open>One flag at a time\<close>

lemma take_operand_single:
  "take_operand v ({f}, c) = Inr st \<Longrightarrow> fst st = {}"
  by (cases f) (auto simp: take_operand_def res_bind_Inr_iff)

lemma take_operand_none: "take_operand v ({}, c) = Inr ({}, c)"
  by (simp add: take_operand_def)

lemma take_option_card: "flags = {} \<Longrightarrow> \<exists>f. fst (take_option v (flags, c)) \<subseteq> {f}"
  by (auto simp: take_option_def split: option.split)

definition few_flags :: "flag set \<times> settings \<Rightarrow> bool" where
  "few_flags st \<longleftrightarrow> (\<exists>f. fst st \<subseteq> {f})"

lemma few_flags_step: "few_flags st \<Longrightarrow> read_argument v st = Inr st' \<Longrightarrow> few_flags st'"
proof -
  assume st: "few_flags st" "read_argument v st = Inr st'"
  obtain flags c where [simp]: "st = (flags, c)" by (cases st)
  obtain f where "flags = {} \<or> flags = {f}" using st(1) by (auto simp: few_flags_def subset_singleton_iff)
  then obtain c' where "take_operand v (flags, c) = Inr ({}, c')"
    using st(2) take_operand_single [of v f c] by (auto simp: read_argument_def take_operand_none res_bind_Inr_iff)
  then show "few_flags st'" using st(2) take_option_card [of "{}" v c'] by (auto simp: read_argument_def few_flags_def)
qed

text \<open>Whatever the arguments are, at most one of the flags that say what the next argument means is
  set after them.\<close>

theorem one_flag:
  assumes "read_arguments args = Inr (flags, c)"
  shows "\<exists>f. flags \<subseteq> {f}"
  using fold_res_invariant [where P = few_flags, OF few_flags_step _ assms [unfolded read_arguments_def]]
  by (simp add: few_flags_def)

theorem one_flag_witness: "\<exists>f. {schema} \<subseteq> {f :: flag}"
proof (rule one_flag)
  show "read_arguments [''-cached'', ''-db''] = Inr ({schema}, initial_settings\<lparr>cached := True\<rparr>)"
    by (simp add: read_arguments_def read_argument_def take_operand_def take_option_def option_flag_def initial_settings_def)
qed

section \<open>Options with operands\<close>

text \<open>What an option does with its operand.\<close>

fun set_option :: "flag \<Rightarrow> string \<Rightarrow> settings \<Rightarrow> settings res" where
  "set_option schema v c = Inr (c\<lparr>schemaname := v\<rparr>)"
| "set_option port v c = res_bind (stoi v) (\<lambda>n. Inr (c\<lparr>portNumber := n\<rparr>))"
| "set_option interceptsocket v c = Inr (c\<lparr>hooksocket := False\<rparr>)"
| "set_option brokerFlag v c = Inr (c\<lparr>broker := True, brokerBindUrl := v\<rparr>)"
| "set_option sinkFlag v c = Inr (c\<lparr>sinkUrl := v\<rparr>)"
| "set_option readerFlag v c = Inr (c\<lparr>reader := True, brokerUrl := v\<rparr>)"
| "set_option writerFlag v c = Inr (c\<lparr>writer := True, brokerUrl := v\<rparr>)"
| "set_option producerFlag v c = Inr (c\<lparr>producerUrl := v\<rparr>)"
| "set_option consumerFlag v c = Inr (c\<lparr>consumerUrl := v\<rparr>)"
| "set_option tcpServerFlag v c = Inr (c\<lparr>tcpUrl := v, tcpServer := True\<rparr>)"
| "set_option tcpClientFlag v c = Inr (c\<lparr>tcpUrl := v, tcpClient := True\<rparr>)"
| "set_option loggerFlag v c = Inr (c\<lparr>logUrl := v, withLogger := True\<rparr>)"
| "set_option timeoutFlag v c = res_bind (stoi v) (\<lambda>n. Inr (c\<lparr>timeout := n\<rparr>))"

definition is_option :: "string \<Rightarrow> bool" where
  "is_option v \<longleftrightarrow> option_flag v \<noteq> None \<or> v = ''-cached''"

lemma operand_of: "take_operand v ({f}, c) = res_bind (set_option f v c) (\<lambda>c'. Inr ({}, c'))"
  by (cases f) (simp_all add: take_operand_def, (cases "stoi v"; simp)+)

lemma option_pair:
  assumes "option_flag opt = Some f" and "\<not> is_option v"
  shows "res_bind (read_argument opt ({}, c)) (read_argument v) = res_bind (set_option f v c) (\<lambda>c'. Inr ({}, c'))"
  using assms by (cases "set_option f v c")
    (simp_all add: read_argument_def take_operand_none take_option_def operand_of is_option_def)

text \<open>C39: a command line of options with their operands, none of which is itself an option, sets what
  the options say, one after the other; the first operand that has to be a number and is none, or is out of
  range, ends the program with the exception of the conversion.\<close>

theorem options_set:
  assumes "\<forall>(opt, v) \<in> set ps. option_flag opt \<noteq> None \<and> \<not> is_option v"
  shows "read_arguments (concat (map (\<lambda>(opt, v). [opt, v]) ps)) =
    res_bind (fold_res (\<lambda>(opt, v). set_option (the (option_flag opt)) v) ps initial_settings) (\<lambda>c. Inr ({}, c))"
proof -
  have "fold_res read_argument (concat (map (\<lambda>(opt, v). [opt, v]) ps)) ({}, c) =
      res_bind (fold_res (\<lambda>(opt, v). set_option (the (option_flag opt)) v) ps c) (\<lambda>c. Inr ({}, c))" for c
    using assms
  proof (induction ps arbitrary: c)
    case (Cons p ps)
    obtain opt v where p: "p = (opt, v)" by (cases p)
    obtain f where f: "option_flag opt = Some f" "\<not> is_option v" using Cons.prems by (auto simp: p)
    have "fold_res read_argument (concat (map (\<lambda>(opt, v). [opt, v]) (p # ps))) ({}, c) =
        res_bind (res_bind (read_argument opt ({}, c)) (read_argument v))
          (fold_res read_argument (concat (map (\<lambda>(opt, v). [opt, v]) ps)))"
      by (cases "read_argument opt ({}, c)") (simp_all add: p)
    then show ?case using option_pair [OF f, of c] Cons f(1)
      by (cases "set_option f v c") (simp_all add: p)
  qed simp
  then show ?thesis by (simp add: read_arguments_def)
qed

theorem options_set_witness:
  "read_arguments (concat (map (\<lambda>(opt, v). [opt, v]) [(''-port'', ''8080''), (''-writer'', ''+'')])) =
    res_bind (fold_res (\<lambda>(opt, v). set_option (the (option_flag opt)) v) [(''-port'', ''8080''), (''-writer'', ''+'')]
      initial_settings) (\<lambda>c. Inr ({}, c))"
  by (rule options_set) (simp add: option_flag_def is_option_def)

section \<open>Roles\<close>

text \<open>Binding a broker to an address without a scheme, such as \<open>host:port\<close>, is undefined behaviour: the
  port is looked for in a third part of the address, which does not exist.\<close>

theorem broker_address_undefined:
  assumes "broker c" and "brokerBindUrl c = host @ CHR '':'' # p" and "CHR '':'' \<notin> set host" and "CHR '':'' \<notin> set p"
    and "p \<noteq> []"
  shows "run_core c = Inl Undefined"
proof -
  have p: "takeWhile (\<lambda>c. c \<noteq> CHR '':'') p = p" "dropWhile (\<lambda>c. c \<noteq> CHR '':'') p = []"
    using assms(4) by (auto simp: takeWhile_eq_all_conv dropWhile_eq_Nil_conv)
  have host: "takeWhile (\<lambda>c. c \<noteq> CHR '':'') (host @ CHR '':'' # p) = host"
    "dropWhile (\<lambda>c. c \<noteq> CHR '':'') (host @ CHR '':'' # p) = CHR '':'' # p"
    using assms(3) by (auto simp: takeWhile_append takeWhile_eq_all_conv dropWhile_append dropWhile_eq_Nil_conv)
  have "tokenize (CHR '':'') [] = []" by (simp add: tokenize.simps)
  then have "tokenize (CHR '':'') p = [p]"
    using assms(5) by (subst tokenize.simps) (simp only: p if_False list.sel)
  then have "tokenize (CHR '':'') (brokerBindUrl c) = [host, p]"
    by (subst tokenize.simps) (simp add: assms(2) host)
  then show ?thesis by (simp add: run_core_def run_broker_def assms(1))
qed

theorem broker_address_undefined_witness:
  "run_core (initial_settings\<lparr>broker := True, brokerBindUrl := ''localhost'' @ CHR '':'' # ''5555''\<rparr>) = Inl Undefined"
  by (rule broker_address_undefined [where host = "''localhost''" and p = "''5555''"]) (simp_all add: initial_settings_def)

end
