(* ===== verification/Keys_Multi.thy ===== *)
theory Keys_Multi
  imports Scan Http_Routes
begin

text \<open>
  \<open>Core::getKeysMulti\<close> of \<^verbatim>\<open>src/quarks.cpp\<close>: several threads take the wildcards of a list one after
  the other and scan the database for them, with a common counter of the matches, a common list of
  results and a common flag that ends the scans. A step of a thread is one access to the variables
  they share, with the local work before the next; the steps of different threads interleave. The
  database is taken not to change meanwhile. An exception other than a runtime error leaves its thread
  and ends the program.
\<close>

section \<open>Threads\<close>

datatype scan_thread =
    Fetching
  | Extracting int
  | Testing string
  | Scanning string "(string \<times> string) list" bool
  | Counting string "string \<times> string" "(string \<times> string) list" bool
  | Pushing "wvalue list" int string "(string \<times> string) list" bool
  | Storing bool
  | Done
  | Aborted exc

record multi_shared =
  wildIndex :: int
  atomic_index :: int
  exit_flag :: bool
  all_ok :: bool
  matched :: "wvalue list"

definition multi_start :: multi_shared where
  "multi_start = \<lparr>wildIndex = -1, atomic_index = -1, exit_flag = False, all_ok = True, matched = []\<rparr>"

text \<open>
  One step of a thread; \<open>x\<close> is the list of the wildcards and \<open>wildSize\<close> its size. \<open>ret && f()\<close> reads
  the flag first, and stores the result of the call when it returns.
\<close>

fun advance ::
    "'db rocks \<Rightarrow> lib \<Rightarrow> 'db core \<Rightarrow> rvalue \<Rightarrow> int \<Rightarrow> int \<Rightarrow> int \<Rightarrow> scan_thread \<Rightarrow> multi_shared \<Rightarrow>
     (scan_thread \<times> multi_shared) option" where
  "advance R L s x wildSize skip limit Fetching sh =
     (let wildIndx = wildIndex sh + 1; sh' = sh\<lparr>wildIndex := wildIndx\<rparr> in
      Some (if wildIndx < wildSize then Extracting wildIndx else Done, sh'))"
| "advance R L s x wildSize skip limit (Extracting wildIndx) sh =
     (case res_bind (r_at x wildIndx) r_s of
        Inr wild \<Rightarrow> Some (Testing wild, sh)
      | Inl e \<Rightarrow> Some (if e = RuntimeError then Storing False else Aborted e, sh))"
| "advance R L s x wildSize skip limit (Testing wild) sh =
     Some (if \<not> all_ok sh \<or> \<not> dbOk s \<or> star_first wild then Storing False
           else Scanning wild (seek_entries R s wild) True, sh)"
| "advance R L s x wildSize skip limit (Scanning wild [] ret) sh = Some (Storing ret, sh)"
| "advance R L s x wildSize skip limit (Scanning wild (e # es) ret) sh =
     Some (if \<not> in_prefix (before_star wild) e \<or> exit_flag sh then Storing ret
           else if key_hit wild e then Counting wild e es ret else Scanning wild es ret, sh)"
| "advance R L s x wildSize skip limit (Counting wild e es ret) sh =
     (let i = atomic_index sh + 1; sh' = sh\<lparr>atomic_index := i\<rparr> in
      if selected skip limit i then
        (case push_pair L e (True, []) of
           Inl ex \<Rightarrow> Some (Aborted ex, sh')
         | Inr (ok, ws) \<Rightarrow> Some (Pushing ws i wild es (ret \<and> ok), sh'))
      else Some (Pushing [] i wild es ret, sh'))"
| "advance R L s x wildSize skip limit (Pushing (w # ws) i wild es ret) sh =
     Some (Pushing ws i wild es ret, sh\<lparr>matched := matched sh @ [w]\<rparr>)"
| "advance R L s x wildSize skip limit (Pushing [] i wild es ret) sh =
     (if finished skip limit i then Some (Storing ret, sh\<lparr>exit_flag := True\<rparr>)
      else Some (Scanning wild es ret, sh))"
| "advance R L s x wildSize skip limit (Storing ret) sh = Some (Fetching, sh\<lparr>all_ok := ret\<rparr>)"
| "advance R L s x wildSize skip limit Done sh = None"
| "advance R L s x wildSize skip limit (Aborted e) sh = None"

section \<open>Interleavings\<close>

type_synonym multi_state = "scan_thread list \<times> multi_shared"

definition step_of ::
    "'db rocks \<Rightarrow> lib \<Rightarrow> 'db core \<Rightarrow> rvalue \<Rightarrow> int \<Rightarrow> int \<Rightarrow> int \<Rightarrow> nat \<Rightarrow> multi_state \<Rightarrow> multi_state option" where
  "step_of R L s x wildSize skip limit i st = (case st of (ts, sh) \<Rightarrow>
     if i < length ts
     then map_option (\<lambda>(t, sh'). (ts[i := t], sh')) (advance R L s x wildSize skip limit (ts ! i) sh)
     else None)"

inductive multi_step ::
    "'db rocks \<Rightarrow> lib \<Rightarrow> 'db core \<Rightarrow> rvalue \<Rightarrow> int \<Rightarrow> int \<Rightarrow> int \<Rightarrow> multi_state \<Rightarrow> multi_state \<Rightarrow> bool"
  for R L s x wildSize skip limit where
  thread: "step_of R L s x wildSize skip limit i st = Some st' \<Longrightarrow> multi_step R L s x wildSize skip limit st st'"

inductive_cases multi_stepE: "multi_step R L s x wildSize skip limit st st'"

text \<open>
  The outcomes of a call with \<open>n\<close> threads (\<^verbatim>\<open>hardware_concurrency\<close>, which may be 0): the results when
  every thread has been joined.
\<close>

inductive getKeysMulti ::
    "'db rocks \<Rightarrow> lib \<Rightarrow> nat \<Rightarrow> string \<Rightarrow> int \<Rightarrow> int \<Rightarrow> 'db core \<Rightarrow> results \<Rightarrow> bool"
  for R L n wilds skip limit s where
  invalid: "load wilds = None \<Longrightarrow> getKeysMulti R L n wilds skip limit s (False, [])"
| no_container: "load wilds = Some x \<Longrightarrow> r_size x = Inl RuntimeError \<Longrightarrow>
    getKeysMulti R L n wilds skip limit s (False, [])"
| joined: "load wilds = Some x \<Longrightarrow> r_size x = Inr k \<Longrightarrow>
    (multi_step R L s x (int k) skip limit)\<^sup>*\<^sup>* (replicate n Fetching, multi_start) (ts, sh) \<Longrightarrow>
    list_all (\<lambda>t. t = Done) ts \<Longrightarrow> getKeysMulti R L n wilds skip limit s (all_ok sh, matched sh)"

inductive_cases getKeysMultiE: "getKeysMulti R L n wilds skip limit s r"

section \<open>Routes\<close>

text \<open>The replies the handlers of \<open>/getkeysmulti\<close> may give.\<close>

definition multi_reply :: "results \<Rightarrow> wvalue" where
  "multi_reply r = (case r of (ret, rs) \<Rightarrow>
     let out = w_set WNull ''result'' (WList rs) in
     if ret then out else w_set out ''error'' (WString ''{\"error\" : \"query returned error\"}''))"

inductive route_getkeysmulti ::
    "'db rocks \<Rightarrow> env \<Rightarrow> nat \<Rightarrow> web_request \<Rightarrow> 'db core \<Rightarrow> web_reply res \<Rightarrow> bool"
  for R X n req s where
  no_body: "body_of req = [] \<Longrightarrow> route_getkeysmulti R X n req s
    (Inr (Allowed (dump_json (env_lib X)
       (error_reply ''{\"error\":\"parameter 'body' missing or has no content\"}''))))"
| bad_window: "body_of req \<noteq> [] \<Longrightarrow> with_window (Parse req) (\<lambda>skip limit. Inr (skip, limit)) = Inl e \<Longrightarrow>
    route_getkeysmulti R X n req s (Inl e)"
| answered: "body_of req \<noteq> [] \<Longrightarrow> with_window (Parse req) (\<lambda>skip limit. Inr (skip, limit)) = Inr (skip, limit) \<Longrightarrow>
    getKeysMulti R (env_lib X) n (body_of req) skip limit s r \<Longrightarrow>
    route_getkeysmulti R X n req s (Inr (Allowed (dump_json (env_lib X) (multi_reply r))))"

end
