(* ===== verification/Keys_Multi_Props.thy ===== *)
theory Keys_Multi_Props
  imports Keys_Multi Scan_Props
begin

text \<open>
  What the threads of \<^verbatim>\<open>getKeysMulti\<close> guarantee for every interleaving of their steps: which entries they
  list and how many, that they end, and the two ways in which the reported success is wrong. The
  invariant is a set of books: every matching entry has been counted, or is still in the part that a
  thread or the shared index has before it, or was given up when the end flag was set.
\<close>

section \<open>Steps\<close>

lemma multi_step_split:
  assumes "multi_step R L s x n skip limit st st'"
  obtains us t vs sh t' sh' where "st = (us @ t # vs, sh)" and "st' = (us @ t' # vs, sh')"
    and "advance R L s x n skip limit t sh = Some (t', sh')"
proof -
  obtain i ts sh where st: "st = (ts, sh)" by (cases st)
  from assms obtain i where i: "step_of R L s x n skip limit i st = Some st'" by (rule multi_stepE) blast
  then obtain t' sh' where lt: "i < length ts" and t': "st' = (ts[i := t'], sh')"
    and a: "advance R L s x n skip limit (ts ! i) sh = Some (t', sh')"
    by (auto simp: step_of_def st split: if_splits)
  have "ts = take i ts @ ts ! i # drop (Suc i) ts" using lt by (rule id_take_nth_drop)
  moreover have "ts[i := t'] = take i ts @ t' # drop (Suc i) ts" using lt by (rule upd_conv_take_nth_drop)
  ultimately show thesis using that a st t' by metis
qed

text \<open>How many of the first \<open>n\<close> numbers are in the window.\<close>

definition selected_below :: "int \<Rightarrow> int \<Rightarrow> nat \<Rightarrow> nat" where
  "selected_below skip limit n = length (filter (\<lambda>i. selected skip limit (int i)) [0..<n])"

lemma selected_below_simps [simp]:
  "selected_below skip limit 0 = 0"
  "selected_below skip limit (Suc n) =
     selected_below skip limit n + (if selected skip limit (int n) then 1 else 0)"
  by (simp_all add: selected_below_def)

lemma length_window:
  assumes "window_ok skip limit"
  shows "length (window skip limit xs) = selected_below skip limit (length xs)"
proof -
  have "length (picked skip limit 0 xs) = selected_below skip limit (length xs)"
    by (induction xs rule: rev_induct) (simp_all add: picked_append)
  then show ?thesis by (simp add: picked_window [OF assms])
qed

lemma selected_below_after_end:
  assumes "limit \<noteq> -1" and "upperbound skip limit \<le> int n" and "n \<le> m"
  shows "selected_below skip limit m = selected_below skip limit n"
  using assms(3)
proof (induction rule: dec_induct)
  case (step k)
  have "\<not> selected skip limit (int k)" using step(1) assms(1,2) by (auto simp: selected_def)
  with step show ?case by simp
qed simp

section \<open>The books\<close>

definition scan_hits :: "string \<Rightarrow> (string \<times> string) list \<Rightarrow> (string \<times> string) list" where
  "scan_hits wild es = filter (key_hit wild) (takeWhile (in_prefix (before_star wild)) es)"

lemma scan_hits_simps [simp]:
  "scan_hits wild [] = []"
  "scan_hits wild (e # es) =
     (if in_prefix (before_star wild) e
      then if key_hit wild e then e # scan_hits wild es else scan_hits wild es else [])"
  by (simp_all add: scan_hits_def)

text \<open>The hits a thread has before it, and the results it has still to push.\<close>

fun ahead :: "(string \<Rightarrow> (string \<times> string) list) \<Rightarrow> string list \<Rightarrow> scan_thread \<Rightarrow> (string \<times> string) list" where
  "ahead m wl (Extracting i) = m (wl ! nat i)"
| "ahead m wl (Testing wild) = m wild"
| "ahead m wl (Scanning wild es ret) = scan_hits wild es"
| "ahead m wl (Counting wild e es ret) = e # scan_hits wild es"
| "ahead m wl (Pushing ws i wild es ret) = scan_hits wild es"
| "ahead m wl t = []"

fun to_push :: "scan_thread \<Rightarrow> wvalue list" where
  "to_push (Pushing ws i wild es ret) = ws"
| "to_push t = []"

fun thread_fine :: "string list \<Rightarrow> multi_shared \<Rightarrow> scan_thread \<Rightarrow> bool" where
  "thread_fine wl sh Fetching = True"
| "thread_fine wl sh (Extracting i) = (0 \<le> i \<and> i < int (length wl))"
| "thread_fine wl sh (Testing wild) = (wild \<in> set wl)"
| "thread_fine wl sh (Scanning wild es ret) = ret"
| "thread_fine wl sh (Counting wild e es ret) = ret"
| "thread_fine wl sh (Pushing ws i wild es ret) = (ret \<and> i \<le> atomic_index sh)"
| "thread_fine wl sh (Storing ret) = ret"
| "thread_fine wl sh Done = (int (length wl) \<le> wildIndex sh)"
| "thread_fine wl sh (Aborted e) = False"

definition unfetched :: "(string \<Rightarrow> (string \<times> string) list) \<Rightarrow> string list \<Rightarrow> multi_shared \<Rightarrow> (string \<times> string) list" where
  "unfetched m wl sh = concat (map m (drop (nat (wildIndex sh + 1)) wl))"

definition books ::
    "lib \<Rightarrow> int \<Rightarrow> int \<Rightarrow> (string \<Rightarrow> (string \<times> string) list) \<Rightarrow> string list \<Rightarrow>
     (string \<times> string) multiset \<Rightarrow> wvalue multiset \<Rightarrow> multi_shared \<Rightarrow> bool" where
  "books L skip limit m wl A P sh \<longleftrightarrow>
     -1 \<le> wildIndex sh \<and> -1 \<le> atomic_index sh \<and> all_ok sh \<and>
     (exit_flag sh \<longrightarrow> limit \<noteq> -1 \<and> upperbound skip limit \<le> atomic_index sh) \<and>
     (\<exists>C S K. mset (concat (map m wl)) = C + A + mset (unfetched m wl sh) + K \<and>
        (\<not> exit_flag sh \<longrightarrow> K = {#}) \<and> S \<subseteq># C \<and> image_mset (listed L) S = mset (matched sh) + P \<and>
        size C = nat (atomic_index sh + 1) \<and> size S = selected_below skip limit (size C))"

lemma booksE:
  assumes "books L skip limit m wl A P sh"
  obtains C S K where "mset (concat (map m wl)) = C + A + mset (unfetched m wl sh) + K"
    and "\<not> exit_flag sh \<longrightarrow> K = {#}" and "S \<subseteq># C"
    and "image_mset (listed L) S = mset (matched sh) + P"
    and "size C = nat (atomic_index sh + 1)" and "size S = selected_below skip limit (size C)"
  using assms unfolding books_def by blast

lemma books_give_up:
  assumes "books L skip limit m wl (A + B) P sh" and "exit_flag sh"
  shows "books L skip limit m wl A P sh"
proof -
  from assms(1) obtain C S K where "mset (concat (map m wl)) = C + (A + B) + mset (unfetched m wl sh) + K"
    "S \<subseteq># C" "image_mset (listed L) S = mset (matched sh) + P" "size C = nat (atomic_index sh + 1)"
    "size S = selected_below skip limit (size C)"
    by (rule booksE) blast
  then show ?thesis using assms unfolding books_def
    by (intro conjI exI [of _ C] exI [of _ S] exI [of _ "B + K"]) (auto simp: ac_simps)
qed

lemma books_fetch:
  assumes "books L skip limit m wl A P sh" and "i = wildIndex sh + 1"
  shows "books L skip limit m wl (if i < int (length wl) then A + mset (m (wl ! nat i)) else A) P
    (sh\<lparr>wildIndex := i\<rparr>)"
proof -
  have i: "0 \<le> i" using assms by (simp add: books_def)
  have "unfetched m wl sh =
      (if i < int (length wl) then m (wl ! nat i) else []) @ unfetched m wl (sh\<lparr>wildIndex := i\<rparr>)"
  proof (cases "i < int (length wl)")
    case True
    then have "drop (nat i) wl = wl ! nat i # drop (Suc (nat i)) wl" using i by (simp add: Cons_nth_drop_Suc)
    moreover have "nat (i + 1) = Suc (nat i)" using i by simp
    ultimately show ?thesis using True assms(2) by (simp add: unfetched_def)
  qed (use assms(2) in \<open>simp add: unfetched_def\<close>)
  then have eq: "A + mset (unfetched m wl sh) =
      (if i < int (length wl) then A + mset (m (wl ! nat i)) else A) +
      mset (unfetched m wl (sh\<lparr>wildIndex := i\<rparr>))" by simp
  from assms(1) obtain C S K where *: "mset (concat (map m wl)) = C + A + mset (unfetched m wl sh) + K"
    "\<not> exit_flag sh \<longrightarrow> K = {#}" "S \<subseteq># C" "image_mset (listed L) S = mset (matched sh) + P"
    "size C = nat (atomic_index sh + 1)" "size S = selected_below skip limit (size C)"
    by (rule booksE) blast
  from *(1) have "mset (concat (map m wl)) = C + (A + mset (unfetched m wl sh)) + K" by (simp only: ac_simps)
  then have new: "mset (concat (map m wl)) = C + (if i < int (length wl) then A + mset (m (wl ! nat i)) else A) +
      mset (unfetched m wl (sh\<lparr>wildIndex := i\<rparr>)) + K" unfolding eq by (simp only: ac_simps)
  from assms * new show ?thesis unfolding books_def
    by (intro conjI exI [of _ C] exI [of _ S] exI [of _ K]) simp_all
qed

lemma books_count:
  assumes "books L skip limit m wl (add_mset e A) P sh" and "i = atomic_index sh + 1"
    and "listed L e = w"
  shows "books L skip limit m wl A (if selected skip limit i then add_mset w P else P)
    (sh\<lparr>atomic_index := i\<rparr>)"
proof -
  from assms(1) obtain C S K where *: "mset (concat (map m wl)) = C + add_mset e A + mset (unfetched m wl sh) + K"
    "\<not> exit_flag sh \<longrightarrow> K = {#}" "S \<subseteq># C" "image_mset (listed L) S = mset (matched sh) + P"
    "size C = nat (atomic_index sh + 1)" "size S = selected_below skip limit (size C)"
    by (rule booksE) blast
  have i: "0 \<le> i" and flag: "exit_flag sh \<longrightarrow> limit \<noteq> -1 \<and> upperbound skip limit \<le> atomic_index sh"
    using assms(1,2) unfolding books_def by auto
  have len: "int (size C) = i" using *(5) i assms(2) by simp
  have suc: "nat (i + 1) = Suc (size C)" using len by simp
  show ?thesis
  proof (cases "selected skip limit i")
    case True
    show ?thesis using assms * True len suc flag unfolding books_def
      by (intro conjI exI [of _ "add_mset e C"] exI [of _ "add_mset e S"] exI [of _ K])
        (auto simp: unfetched_def)
  next
    case False
    have "S \<subseteq># add_mset e C" using *(3) by (rule subset_mset.order_trans) simp
    then show ?thesis using assms * False len suc flag unfolding books_def
      by (intro conjI exI [of _ "add_mset e C"] exI [of _ S] exI [of _ K])
        (auto simp: unfetched_def)
  qed
qed

lemma books_push:
  "books L skip limit m wl A (add_mset w P) sh \<Longrightarrow>
     books L skip limit m wl A P (sh\<lparr>matched := matched sh @ [w]\<rparr>)"
  by (simp add: books_def unfetched_def)

lemma books_flags:
  assumes "books L skip limit m wl A P sh"
  shows "books L skip limit m wl A P (sh\<lparr>all_ok := True\<rparr>)"
    and "finished skip limit i \<Longrightarrow> i \<le> atomic_index sh \<Longrightarrow> books L skip limit m wl A P (sh\<lparr>exit_flag := True\<rparr>)"
proof -
  from assms obtain C S K where *: "mset (concat (map m wl)) = C + A + mset (unfetched m wl sh) + K"
    "\<not> exit_flag sh \<longrightarrow> K = {#}" "S \<subseteq># C" "image_mset (listed L) S = mset (matched sh) + P"
    "size C = nat (atomic_index sh + 1)" "size S = selected_below skip limit (size C)"
    by (rule booksE) blast
  show "books L skip limit m wl A P (sh\<lparr>all_ok := True\<rparr>)"
    using assms * unfolding books_def unfetched_def
    by (intro conjI exI [of _ C] exI [of _ S] exI [of _ K]) simp_all
  assume "finished skip limit i" and "i \<le> atomic_index sh"
  then show "books L skip limit m wl A P (sh\<lparr>exit_flag := True\<rparr>)"
    using assms * unfolding books_def unfetched_def finished_def
    by (intro conjI exI [of _ C] exI [of _ S] exI [of _ K]) simp_all
qed

lemma books_all_ok: "books L skip limit m wl A P sh \<Longrightarrow> all_ok sh"
  by (simp add: books_def)

lemma books_member: "books L skip limit m wl (add_mset e A) P sh \<Longrightarrow> e \<in> set (concat (map m wl))"
proof -
  assume "books L skip limit m wl (add_mset e A) P sh"
  then obtain C K where "mset (concat (map m wl)) = C + add_mset e A + mset (unfetched m wl sh) + K"
    by (rule booksE) blast
  then have "e \<in># mset (concat (map m wl))" by simp
  then show ?thesis by (simp only: set_mset_mset)
qed

lemma push_pair_listed: "value_ok L e \<Longrightarrow> push_pair L e (True, []) = Inr (True, [listed L e])"
  by (auto simp: value_ok_def listed_def push_pair_def split: sum.splits)

section \<open>One step keeps the books\<close>

definition multi_ready ::
    "'db rocks \<Rightarrow> lib \<Rightarrow> ('db \<Rightarrow> (string \<times> string) list) \<Rightarrow> rvalue \<Rightarrow> string list \<Rightarrow> 'db core \<Rightarrow> bool" where
  "multi_ready R L entries x wl s \<longleftrightarrow>
     rocksdb R entries \<and> dbOk s \<and> list_all (\<lambda>w. \<not> star_first w) wl \<and>
     (\<exists>xs. x = RList xs \<and> map r_s xs = map Inr wl) \<and>
     list_all (value_ok L) (concat (map (matching (entries (db s))) wl))"

lemma extract_wild:
  assumes "multi_ready R L entries x wl s" and "0 \<le> i" and "i < int (length wl)"
  shows "res_bind (r_at x i) r_s = Inr (wl ! nat i)"
proof -
  obtain xs where x: "x = RList xs" "map r_s xs = map Inr wl" using assms(1) by (auto simp: multi_ready_def)
  then have len: "length xs = length wl" by (metis length_map)
  then have "r_s (xs ! nat i) = Inr (wl ! nat i)"
    using assms(2,3) arg_cong [OF x(2), of "\<lambda>l. l ! nat i"] by simp
  then show ?thesis using assms(2,3) x(1) len by simp
qed

lemma scan_hits_seek:
  "multi_ready R L entries x wl s \<Longrightarrow> scan_hits wild (seek_entries R s wild) = matching (entries (db s)) wild"
  unfolding scan_hits_def by (rule rocksdb.query_run) (simp add: multi_ready_def)

definition in_books ::
    "lib \<Rightarrow> int \<Rightarrow> int \<Rightarrow> (string \<Rightarrow> (string \<times> string) list) \<Rightarrow> string list \<Rightarrow>
     (string \<times> string) multiset \<Rightarrow> wvalue multiset \<Rightarrow> scan_thread \<times> multi_shared \<Rightarrow> bool" where
  "in_books L skip limit m wl A P st \<longleftrightarrow>
     (case st of (t, sh) \<Rightarrow> thread_fine wl sh t \<and>
        books L skip limit m wl (A + mset (ahead m wl t)) (P + mset (to_push t)) sh)"

lemma scanning_keeps:
  assumes inb: "in_books L skip limit m wl A P (Scanning wild es ret, sh)"
    and adv: "advance R L s x n skip limit (Scanning wild es ret) sh = Some (t', sh')"
  shows "in_books L skip limit m wl A P (t', sh')"
proof (cases es)
  case Nil
  then show ?thesis using inb adv by (auto simp: in_books_def)
next
  case (Cons e es')
  have bk: "books L skip limit m wl (A + mset (scan_hits wild es)) P sh"
    using inb by (simp add: in_books_def)
  show ?thesis
  proof (cases "in_prefix (before_star wild) e \<and> exit_flag sh")
    case True
    have "books L skip limit m wl A P sh" using bk True by (auto dest: books_give_up)
    then show ?thesis using True inb adv Cons by (auto simp: in_books_def)
  qed (use inb adv Cons in \<open>auto simp: in_books_def split: if_splits\<close>)
qed

lemma pushing_keeps:
  assumes inb: "in_books L skip limit m wl A P (Pushing ws i wild es ret, sh)"
    and adv: "advance R L s x n skip limit (Pushing ws i wild es ret) sh = Some (t', sh')"
  shows "in_books L skip limit m wl A P (t', sh')"
proof (cases ws)
  case Nil
  have bk: "books L skip limit m wl (A + mset (scan_hits wild es)) P sh" and i: "i \<le> atomic_index sh"
    using inb Nil by (auto simp: in_books_def)
  show ?thesis
  proof (cases "finished skip limit i")
    case True
    from books_flags(2) [OF bk True i] have "books L skip limit m wl A P (sh\<lparr>exit_flag := True\<rparr>)"
      by (rule books_give_up) simp
    then show ?thesis using True inb adv Nil by (auto simp: in_books_def)
  qed (use inb adv Nil in \<open>auto simp: in_books_def\<close>)
next
  case (Cons w ws')
  have "books L skip limit m wl (A + mset (scan_hits wild es)) (add_mset w (P + mset ws')) sh"
    using inb Cons by (simp add: in_books_def)
  then show ?thesis using books_push inb adv Cons by (auto simp: in_books_def)
qed

lemma advance_keeps:
  assumes ready: "multi_ready R L entries x wl s"
    and inb: "in_books L skip limit (matching (entries (db s))) wl A P (t, sh)"
    and adv: "advance R L s x (int (length wl)) skip limit t sh = Some (t', sh')"
  shows "in_books L skip limit (matching (entries (db s))) wl A P (t', sh')"
proof -
  let ?m = "matching (entries (db s))"
  have fine: "thread_fine wl sh t"
    and bk: "books L skip limit ?m wl (A + mset (ahead ?m wl t)) (P + mset (to_push t)) sh"
    using inb by (auto simp: in_books_def)
  note ok = books_all_ok [OF bk]
  show ?thesis
  proof (cases t)
    case Fetching
    have "0 \<le> wildIndex sh + 1" using bk by (simp add: books_def)
    then show ?thesis using books_fetch [OF bk refl] adv Fetching
      by (auto simp: in_books_def Let_def split: if_splits)
  next
    case (Extracting i)
    then show ?thesis using extract_wild [OF ready, of i] fine bk adv by (auto simp: in_books_def)
  next
    case (Testing wild)
    have "dbOk s" "\<not> star_first wild" using ready fine Testing by (auto simp: multi_ready_def list_all_iff)
    then show ?thesis using scan_hits_seek [OF ready, of wild] bk adv ok Testing by (auto simp: in_books_def)
  next
    case (Scanning wild es ret)
    then show ?thesis using scanning_keeps inb adv by simp
  next
    case (Counting wild e es ret)
    have bk': "books L skip limit ?m wl (add_mset e (A + mset (scan_hits wild es))) P sh"
      using bk Counting by simp
    have "value_ok L e" using books_member [OF bk'] ready by (auto simp: multi_ready_def list_all_iff)
    then show ?thesis using books_count [OF bk' refl refl] push_pair_listed fine adv Counting
      by (auto simp: in_books_def Let_def split: if_splits)
  next
    case (Pushing ws i wild es ret)
    then show ?thesis using pushing_keeps inb adv by simp
  next
    case (Storing ret)
    then show ?thesis using books_flags(1) [OF bk] fine adv by (auto simp: in_books_def)
  next
    case Done
    then show ?thesis using adv by simp
  next
    case (Aborted e)
    then show ?thesis using adv by simp
  qed
qed

section \<open>Every interleaving keeps the books\<close>

lemma advance_forward:
  "advance R L s x n skip limit t sh = Some (t', sh') \<Longrightarrow>
     wildIndex sh \<le> wildIndex sh' \<and> atomic_index sh \<le> atomic_index sh'"
  by (induction R L s x n skip limit t sh rule: advance.induct)
    (auto simp: Let_def split: if_splits sum.splits)

lemma thread_fine_later:
  "thread_fine wl sh t \<Longrightarrow> wildIndex sh \<le> wildIndex sh' \<Longrightarrow> atomic_index sh \<le> atomic_index sh' \<Longrightarrow>
     thread_fine wl sh' t"
  by (cases t) auto

definition multi_inv ::
    "lib \<Rightarrow> int \<Rightarrow> int \<Rightarrow> (string \<Rightarrow> (string \<times> string) list) \<Rightarrow> string list \<Rightarrow> multi_state \<Rightarrow> bool" where
  "multi_inv L skip limit m wl st \<longleftrightarrow>
     (case st of (ts, sh) \<Rightarrow> list_all (thread_fine wl sh) ts \<and>
        books L skip limit m wl (mset (concat (map (ahead m wl) ts))) (mset (concat (map to_push ts))) sh)"

lemma multi_inv_start: "multi_inv L skip limit m wl (replicate n Fetching, multi_start)"
  by (simp add: multi_inv_def multi_start_def books_def unfetched_def list_all_iff concat_replicate_trivial)

lemma multi_inv_step:
  assumes ready: "multi_ready R L entries x wl s"
    and "multi_step R L s x (int (length wl)) skip limit st st'"
    and "multi_inv L skip limit (matching (entries (db s))) wl st"
  shows "multi_inv L skip limit (matching (entries (db s))) wl st'"
proof -
  let ?m = "matching (entries (db s))"
  obtain us t vs sh t' sh' where st: "st = (us @ t # vs, sh)" "st' = (us @ t' # vs, sh')"
    and adv: "advance R L s x (int (length wl)) skip limit t sh = Some (t', sh')"
    using assms(2) by (rule multi_step_split)
  let ?A = "mset (concat (map (ahead ?m wl) (us @ vs)))" and ?P = "mset (concat (map to_push (us @ vs)))"
  have "in_books L skip limit ?m wl ?A ?P (t, sh)"
    using assms(3) by (simp add: multi_inv_def st in_books_def ac_simps)
  then have "in_books L skip limit ?m wl ?A ?P (t', sh')" by (rule advance_keeps [OF ready _ adv])
  moreover have "list_all (thread_fine wl sh') us" "list_all (thread_fine wl sh') vs"
    using assms(3) advance_forward [OF adv] by (auto simp: multi_inv_def st list_all_iff intro: thread_fine_later)
  ultimately show ?thesis by (simp add: multi_inv_def st in_books_def ac_simps)
qed

lemma multi_inv_reached:
  assumes "multi_ready R L entries x wl s"
    and "(multi_step R L s x (int (length wl)) skip limit)\<^sup>*\<^sup>* st st'"
    and "multi_inv L skip limit (matching (entries (db s))) wl st"
  shows "multi_inv L skip limit (matching (entries (db s))) wl st'"
  using assms(2,3) by (induction rule: rtranclp_induct) (auto intro: multi_inv_step [OF assms(1)])

lemma all_done_listed:
  assumes "multi_inv L skip limit m wl (ts, sh)" and "list_all (\<lambda>t. t = Done) ts" and "ts \<noteq> []"
    and "window_ok skip limit"
  shows "all_ok sh \<and> (\<exists>S. S \<subseteq># mset (concat (map m wl)) \<and> mset (matched sh) = image_mset (listed L) S) \<and>
    length (matched sh) = length (window skip limit (concat (map m wl)))"
proof -
  let ?all = "concat (map m wl)"
  have "concat (map (ahead m wl) ts) = []" "concat (map to_push ts) = []"
    using assms(2) by (auto simp: list_all_iff)
  then have bk: "books L skip limit m wl {#} {#} sh" and "thread_fine wl sh (hd ts)"
    using assms(1,3) by (auto simp: multi_inv_def list_all_iff simp del: concat_eq_Nil_conv)
  moreover have "hd ts = Done" using assms(2,3) by (cases ts) auto
  ultimately have unf: "unfetched m wl sh = []" by (simp add: unfetched_def)
  obtain C S K where *: "mset ?all = C + K" "\<not> exit_flag sh \<longrightarrow> K = {#}" "S \<subseteq># C"
    "image_mset (listed L) S = mset (matched sh)" "size C = nat (atomic_index sh + 1)"
    "size S = selected_below skip limit (size C)"
    using bk by (rule booksE) (auto simp: unf)
  have "size C \<le> length ?all" using arg_cong [OF *(1), of size] by simp
  moreover have "size C = length ?all" if "\<not> exit_flag sh"
    using that *(1,2) by (metis add.right_neutral size_mset)
  moreover have "limit \<noteq> -1 \<and> upperbound skip limit \<le> int (size C)" if "exit_flag sh"
    using that bk *(5) by (auto simp: books_def)
  ultimately have "selected_below skip limit (size C) = selected_below skip limit (length ?all)"
    using selected_below_after_end by metis
  moreover have "size S = length (matched sh)" using arg_cong [OF *(4), of size] by simp
  moreover have "S \<subseteq># mset ?all" unfolding *(1) using *(3) by (rule subset_mset.order_trans) simp
  ultimately show ?thesis using *(4,6) length_window [OF assms(4)] books_all_ok [OF bk] by metis
qed

section \<open>Every run ends\<close>

text \<open>The steps a thread has before it until it fetches the next wildcard, for scans of at most \<open>b\<close>
  entries, and the same of all threads with the wildcards not yet fetched.\<close>

fun thread_weight :: "nat \<Rightarrow> scan_thread \<Rightarrow> nat" where
  "thread_weight b Fetching = 1"
| "thread_weight b (Extracting i) = 6 * b + 5"
| "thread_weight b (Testing wild) = 6 * b + 4"
| "thread_weight b (Scanning wild es ret) = 6 * length es + 3"
| "thread_weight b (Counting wild e es ret) = 6 * length es + 8"
| "thread_weight b (Pushing ws i wild es ret) = 6 * length es + 4 + length ws"
| "thread_weight b (Storing ret) = 2"
| "thread_weight b Done = 0"
| "thread_weight b (Aborted e) = 0"

definition multi_weight :: "nat \<Rightarrow> int \<Rightarrow> multi_state \<Rightarrow> nat" where
  "multi_weight b n st = (case st of (ts, sh) \<Rightarrow>
     sum_list (map (thread_weight b) ts) + nat (n - 1 - wildIndex sh) * (6 * b + 5))"

lemma push_pair_short: "push_pair L e (True, []) = Inr (ok, ws) \<Longrightarrow> length ws \<le> 2"
  by (auto simp: push_pair_def split: sum.splits if_splits)

lemma advance_weight:
  assumes "advance R L s x n skip limit t sh = Some (t', sh')"
    and "\<And>wild. length (seek_entries R s wild) \<le> b"
  shows "thread_weight b t' + nat (n - 1 - wildIndex sh') * (6 * b + 5) <
    thread_weight b t + nat (n - 1 - wildIndex sh) * (6 * b + 5)"
proof (cases t)
  case Fetching
  show ?thesis
  proof (cases "wildIndex sh + 1 < n")
    case True
    then have "nat (n - 1 - wildIndex sh) = Suc (nat (n - 1 - (wildIndex sh + 1)))" by simp
    with True Fetching assms(1) show ?thesis by (auto simp: Let_def)
  qed (use Fetching assms(1) in \<open>auto simp: Let_def\<close>)
next
  case (Testing wild)
  then show ?thesis using assms(1) assms(2) [of wild] by (auto split: if_splits)
next
  case (Scanning wild es ret)
  then show ?thesis using assms(1) by (cases es) (auto split: if_splits)
next
  case (Pushing ws i wild es ret)
  then show ?thesis using assms(1) by (cases ws) (auto split: if_splits)
qed (use assms(1) in \<open>auto simp: Let_def split: if_splits sum.splits dest!: push_pair_short\<close>)

lemma multi_step_weight:
  assumes "rocksdb R entries" and "multi_step R L s x n skip limit st st'"
  shows "multi_weight (length (entries (db s))) n st' < multi_weight (length (entries (db s))) n st"
proof -
  obtain us t vs sh t' sh' where st: "st = (us @ t # vs, sh)" "st' = (us @ t' # vs, sh')"
    and adv: "advance R L s x n skip limit t sh = Some (t', sh')"
    using assms(2) by (rule multi_step_split)
  have "length (seek_entries R s wild) \<le> length (entries (db s))" for wild
    by (simp add: rocksdb.seek [OF assms(1)] length_dropWhile_le)
  from advance_weight [OF adv this] show ?thesis by (simp add: multi_weight_def st)
qed

text \<open>A run that can go no further, from every state.\<close>

lemma multi_run_ends:
  assumes "rocksdb R entries"
  shows "\<exists>st'. (multi_step R L s x n skip limit)\<^sup>*\<^sup>* st st' \<and> (\<nexists>st''. multi_step R L s x n skip limit st' st'')"
proof (induction "multi_weight (length (entries (db s))) n st" arbitrary: st rule: less_induct)
  case less
  show ?case
  proof (cases "\<exists>st1. multi_step R L s x n skip limit st st1")
    case True
    then obtain st1 where st1: "multi_step R L s x n skip limit st st1" by blast
    from less [OF multi_step_weight [OF assms st1]] obtain st'
      where "(multi_step R L s x n skip limit)\<^sup>*\<^sup>* st1 st'" "\<nexists>st''. multi_step R L s x n skip limit st' st''"
      by blast
    with st1 show ?thesis by (blast intro: converse_rtranclp_into_rtranclp)
  qed blast
qed

lemma only_done_stops:
  assumes "thread_fine wl sh t" and "advance R L s x n skip limit t sh = None"
  shows "t = Done"
proof (cases t)
  case (Scanning wild es ret)
  then show ?thesis using assms(2) by (cases es) (simp_all split: if_splits)
next
  case (Pushing ws i wild es ret)
  then show ?thesis using assms(2) by (cases ws) (simp_all split: if_splits)
qed (use assms in \<open>auto simp: Let_def split: sum.splits if_splits\<close>)

lemma multi_threads:
  "(multi_step R L s x n skip limit)\<^sup>*\<^sup>* st st' \<Longrightarrow> length (fst st') = length (fst st)"
  by (induction rule: rtranclp_induct) (auto elim!: multi_step_split)

lemma stuck_threads:
  assumes "\<nexists>st'. multi_step R L s x n skip limit (ts, sh) st'" and "list_all (thread_fine wl sh) ts"
  shows "list_all (\<lambda>t. t = Done) ts"
proof -
  have "t = Done" if mem: "t \<in> set ts" for t
  proof (rule ccontr)
    assume not_done: "t \<noteq> Done"
    have "thread_fine wl sh t" using assms(2) that by (auto simp: list_all_iff)
    then have "advance R L s x n skip limit t sh \<noteq> None"
      by (rule contrapos_nn [OF not_done only_done_stops])
    moreover obtain i where "i < length ts" "ts ! i = t" using mem by (auto simp: in_set_conv_nth)
    ultimately obtain st' where "step_of R L s x n skip limit i (ts, sh) = Some st'"
      by (auto simp: step_of_def)
    then have "multi_step R L s x n skip limit (ts, sh) st'" by (rule multi_step.thread)
    with assms(1) show False by blast
  qed
  then show ?thesis by (simp add: list_all_iff)
qed

lemma ready_size: "multi_ready R L entries x wl s \<Longrightarrow> r_size x = Inr (length wl)"
  unfolding multi_ready_def by (metis length_map r_size.simps(2))

section \<open>Schedules\<close>

text \<open>A run given by the sequence of the threads that take a step.\<close>

fun run_schedule ::
    "'db rocks \<Rightarrow> lib \<Rightarrow> 'db core \<Rightarrow> rvalue \<Rightarrow> int \<Rightarrow> int \<Rightarrow> int \<Rightarrow> nat list \<Rightarrow> multi_state \<Rightarrow> multi_state option" where
  "run_schedule R L s x n skip limit [] st = Some st"
| "run_schedule R L s x n skip limit (i # is) st =
     Option.bind (step_of R L s x n skip limit i st) (run_schedule R L s x n skip limit is)"

lemma schedule_runs:
  "run_schedule R L s x n skip limit is st = Some st' \<Longrightarrow> (multi_step R L s x n skip limit)\<^sup>*\<^sup>* st st'"
  by (induction "is" arbitrary: st)
    (auto simp: bind_eq_Some_conv intro: converse_rtranclp_into_rtranclp multi_step.thread)

definition run_result ::
    "'db rocks \<Rightarrow> lib \<Rightarrow> 'db core \<Rightarrow> rvalue \<Rightarrow> nat \<Rightarrow> int \<Rightarrow> int \<Rightarrow> nat \<Rightarrow> nat list \<Rightarrow>
     (scan_thread list \<times> results) option" where
  "run_result R L s x k skip limit n is = map_option (\<lambda>(ts, sh). (ts, all_ok sh, matched sh))
     (run_schedule R L s x (int k) skip limit is (replicate n Fetching, multi_start))"

lemma schedule_outcome:
  assumes "load wilds = Some x" and "r_size x = Inr k"
    and "run_result R L s x k skip limit n is = Some (replicate n Done, r)"
  shows "getKeysMulti R L n wilds skip limit s r"
proof -
  obtain sh where "run_schedule R L s x (int k) skip limit is (replicate n Fetching, multi_start) =
      Some (replicate n Done, sh)" and r: "r = (all_ok sh, matched sh)"
    using assms(3) by (auto simp: run_result_def)
  from joined [OF assms(1,2) schedule_runs [OF this(1)]] show ?thesis by (simp add: r list_all_iff)
qed

section \<open>Properties\<close>

text \<open>C16: for every interleaving of the threads \<open>getKeysMulti\<close> succeeds and lists as many entries as
  the window selects from the hits of all wildcards, and nothing that no wildcard matches; which of the
  hits are selected, and their order, depend on the interleaving.\<close>

theorem getKeysMulti_window:
  assumes "multi_ready R L entries x wl s" and "load wilds = Some x" and "window_ok skip limit"
    and "0 < n" and "getKeysMulti R L n wilds skip limit s (ret, rs)"
  shows "ret \<and> length rs = length (window skip limit (concat (map (matching (entries (db s))) wl))) \<and>
    (\<exists>S. S \<subseteq># mset (concat (map (matching (entries (db s))) wl)) \<and> mset rs = image_mset (listed L) S)"
  using assms(5)
proof (cases rule: getKeysMulti.cases)
  case (joined x' k ts sh)
  then have x: "x' = x" "k = length wl" using assms(2) ready_size [OF assms(1)] by auto
  have "multi_inv L skip limit (matching (entries (db s))) wl (ts, sh)"
    using multi_inv_reached [OF assms(1)] joined multi_inv_start by (auto simp: x)
  moreover have "ts \<noteq> []" using multi_threads [OF joined(5)] assms(4) by auto
  ultimately show ?thesis using all_done_listed [OF _ _ _ assms(3)] joined by auto
qed (use assms(2) ready_size [OF assms(1)] in auto)

lemma multi_inputs_ready:
  "multi_ready mem_rocks mem_lib mem_entries (RList [RString ''u*'', RString ''w'']) [''u*'', ''w''] three_users"
proof -
  have "list_all (value_ok mem_lib) (concat (map (matching (mem_entries (db three_users))) [''u*'', ''w'']))"
    by code_simp
  then show ?thesis
    unfolding multi_ready_def using mem.rocksdb_axioms by (simp add: run_simps)
qed

lemma multi_inputs_load:
  "load ''[\"u*\",\"w\"]'' = Some (RList [RString ''u*'', RString ''w''])"
  by code_simp

theorem getKeysMulti_window_witness:
  "length [listed mem_lib (''u1'', ''null''), listed mem_lib (''w'', ''1'')] =
     length (window 0 2 (concat (map (matching (mem_entries (db three_users))) [''u*'', ''w''])))"
proof -
  have "getKeysMulti mem_rocks mem_lib 2 ''[\"u*\",\"w\"]'' 0 2 three_users
      (True, [listed mem_lib (''u1'', ''null''), listed mem_lib (''w'', ''1'')])"
  proof (rule schedule_outcome [OF multi_inputs_load])
    show "r_size (RList [RString ''u*'', RString ''w'']) = Inr 2" by simp
    show "run_result mem_rocks mem_lib three_users (RList [RString ''u*'', RString ''w'']) 2 0 2 2
        [0, 1, 0, 1, 0, 1, 0, 1, 0, 1, 0, 1, 1, 0, 0, 1, 0, 1, 0, 0, 0, 1] =
      Some (replicate 2 Done, True, [listed mem_lib (''u1'', ''null''), listed mem_lib (''w'', ''1'')])"
      by code_simp
  qed
  from getKeysMulti_window [OF multi_inputs_ready multi_inputs_load _ _ this]
  show ?thesis by (simp add: window_ok_def INT_MAX_def INT_MIN_def)
qed

text \<open>C17: \<open>getKeysMulti\<close> returns: no interleaving of \<open>n\<close> threads over the wildcards takes more than
  \<open>n\<close> steps and \<open>6 b + 5\<close> for each wildcard, \<open>b\<close> the number of entries of the database, and one is
  complete, with success.\<close>

theorem getKeysMulti_returns:
  assumes "multi_ready R L entries x wl s" and "load wilds = Some x" and "window_ok skip limit" and "0 < n"
  shows "(\<exists>rs. getKeysMulti R L n wilds skip limit s (True, rs)) \<and>
    ((multi_step R L s x (int (length wl)) skip limit ^^ k) (replicate n Fetching, multi_start) st \<longrightarrow>
      k \<le> n + length wl * (6 * length (entries (db s)) + 5))"
proof -
  let ?start = "(replicate n Fetching, multi_start) :: multi_state"
  let ?step = "multi_step R L s x (int (length wl)) skip limit"
  let ?w = "multi_weight (length (entries (db s))) (int (length wl))"
  have rocks: "rocksdb R entries" using assms(1) by (simp add: multi_ready_def)
  have start: "?w ?start = n + length wl * (6 * length (entries (db s)) + 5)"
    by (simp add: multi_weight_def multi_start_def sum_list_replicate)
  have "?w st + k \<le> ?w ?start" if "(?step ^^ k) ?start st" for k st
    using that
  proof (induction k arbitrary: st)
    case (Suc k)
    then obtain st1 where st1: "(?step ^^ k) ?start st1" "?step st1 st" by auto
    show ?case using Suc.IH [OF st1(1)] multi_step_weight [OF rocks st1(2)] by simp
  qed simp
  then have bound: "(?step ^^ k) ?start st \<longrightarrow> k \<le> ?w ?start" by fastforce
  obtain ts sh where run: "?step\<^sup>*\<^sup>* ?start (ts, sh)" and stuck: "\<nexists>st'. ?step (ts, sh) st'"
    using multi_run_ends [OF rocks, of L s x "int (length wl)" skip limit ?start] by auto
  have inv: "multi_inv L skip limit (matching (entries (db s))) wl (ts, sh)"
    by (rule multi_inv_reached [OF assms(1) run multi_inv_start])
  then have "list_all (\<lambda>t. t = Done) ts" by (intro stuck_threads [OF stuck, of wl]) (simp add: multi_inv_def)
  moreover from this have "all_ok sh"
    using inv by (auto simp: multi_inv_def dest: books_all_ok)
  ultimately have "getKeysMulti R L n wilds skip limit s (True, matched sh)"
    using joined [OF assms(2) ready_size [OF assms(1)] run] by simp
  then show ?thesis using bound start by auto
qed

theorem getKeysMulti_returns_witness:
  "\<exists>rs. getKeysMulti mem_rocks mem_lib 3 ''[\"u*\",\"w\"]'' 1 (-1) three_users (True, rs)"
  using getKeysMulti_returns [OF multi_inputs_ready multi_inputs_load, of 1 "-1" 3]
  by (simp add: window_ok_def INT_MAX_def INT_MIN_def)

text \<open>A failure may be lost: a wildcard that begins with a star fails, but the threads read and
  write the common flag in two steps, and a scan that began before the failure overwrites it with its
  own success; with another interleaving the same call reports the failure. With no threads at all
  (\<^verbatim>\<open>hardware_concurrency\<close> may answer 0) nothing is scanned and the call succeeds.\<close>

theorem getKeysMulti_loses_failure:
  "getKeysMulti mem_rocks mem_lib 2 ''[\"u*\",\"*\"]'' 0 (-1) three_users
      (True, [listed mem_lib (''u1'', ''null''), listed mem_lib (''u2'', ''true'')]) \<and>
   getKeysMulti mem_rocks mem_lib 2 ''[\"u*\",\"*\"]'' 0 (-1) three_users (False, []) \<and>
   getKeysMulti mem_rocks mem_lib 0 ''[\"u*\",\"*\"]'' 0 (-1) three_users (True, [])"
proof -
  have ld: "load ''[\"u*\",\"*\"]'' = Some (RList [RString ''u*'', RString ''*''])"
    and size: "r_size (RList [RString ''u*'', RString ''*'']) = Inr 2" by code_simp simp
  let ?run = "run_result mem_rocks mem_lib three_users (RList [RString ''u*'', RString ''*'']) 2 0 (-1)"
  have "?run 2 [0, 0, 0, 1, 1, 1, 1, 0, 0, 0, 0, 0, 0, 0, 0, 0, 0, 0, 1] =
      Some (replicate 2 Done, True, [listed mem_lib (''u1'', ''null''), listed mem_lib (''u2'', ''true'')])"
    "?run 2 [0, 1, 1, 1, 1, 1, 0, 0, 0, 0] = Some (replicate 2 Done, False, [])"
    "?run 0 [] = Some (replicate 0 Done, True, [])"
    by code_simp+
  from this [THEN schedule_outcome [OF ld size]] show ?thesis by blast
qed

end
