(* ===== verification/Join_Threads.thy ===== *)
theory Join_Threads
  imports Queries
begin

text \<open>
  \<open>getJoinedMapThreaded\<close> of \<^verbatim>\<open>src/quarks.cpp\<close>: one thread walks the iterator and appends the keys to a
  vector, the other takes them from it, compares them with the wildcard and collects the selected parts.
  The threads share the vector and its two indices, guarded by a mutex, and two flags. The second thread
  keeps a \<^verbatim>\<open>c_str()\<close> of an element while it compares, outside of the mutex; an append that reallocates the
  vector makes it invalid. When a vector of \<open>n\<close> elements reallocates is up to the library: the
  parameter \<open>grow\<close>. The database is taken not to change meanwhile, the status of the iterator to be ok.
\<close>

section \<open>The two threads\<close>

datatype key_writer = Appending "(string \<times> string) list" | Asking "(string \<times> string) list" | Ending | Written

datatype key_reader = Taking | Comparing string | Catching_up | Leaving | Compared | Dangling

text \<open>\<open>nextKey\<close> is always one less than the number of keys.\<close>

record key_exchange =
  wthread :: key_writer
  rthread :: key_reader
  iteratorKeys :: "string list"
  currentKey :: int
  writerExit :: bool
  readerExit :: bool
  stale :: bool
  hits :: int
  sFinalKeys :: "string list"

definition exchange_start :: "(string \<times> string) list \<Rightarrow> key_exchange" where
  "exchange_start es = \<lparr>wthread = Appending es, rthread = Taking, iteratorKeys = [], currentKey = -1,
     writerExit = False, readerExit = False, stale = False, hits = -1, sFinalKeys = []\<rparr>"

definition nextKey :: "key_exchange \<Rightarrow> int" where
  "nextKey st = int (length (iteratorKeys st)) - 1"

definition write_step :: "(nat \<Rightarrow> bool) \<Rightarrow> string \<Rightarrow> key_exchange \<Rightarrow> key_exchange option" where
  "write_step grow pre st =
     (case wthread st of
        Appending [] \<Rightarrow> Some (st\<lparr>wthread := Ending\<rparr>)
      | Appending (e # es) \<Rightarrow>
          Some (if in_prefix pre e
                then st\<lparr>wthread := Asking es, iteratorKeys := iteratorKeys st @ [c_str (fst e)],
                        stale := stale st \<or> grow (length (iteratorKeys st))\<rparr>
                else st\<lparr>wthread := Ending\<rparr>)
      | Asking es \<Rightarrow> Some (st\<lparr>wthread := if writerExit st then Ending else Appending es\<rparr>)
      | Ending \<Rightarrow> Some (st\<lparr>wthread := Written, readerExit := True\<rparr>)
      | Written \<Rightarrow> None)"

definition select_part :: "char \<Rightarrow> int \<Rightarrow> string \<Rightarrow> string list" where
  "select_part delim selindex key =
     (let tokens = tokenize delim key in
      if 0 \<le> selindex \<and> selindex < int (length tokens) then [tokens ! nat selindex] else [])"

definition read_step :: "string \<Rightarrow> (string \<Rightarrow> string list) \<Rightarrow> int \<Rightarrow> int \<Rightarrow> key_exchange \<Rightarrow> key_exchange option" where
  "read_step wild sel skip limit st =
     (case rthread st of
        Taking \<Rightarrow>
          Some (if currentKey st < nextKey st
                then st\<lparr>rthread := Comparing (iteratorKeys st ! nat (currentKey st + 1)),
                        currentKey := currentKey st + 1, stale := False\<rparr>
                else st\<lparr>rthread := Catching_up\<rparr>)
      | Comparing key \<Rightarrow>
          Some (if stale st then st\<lparr>rthread := Dangling\<rparr>
                else if wildcmp wild key then
                  let i = hits st + 1;
                      ks = (if selected skip limit i then sFinalKeys st @ sel key else sFinalKeys st);
                      st' = st\<lparr>hits := i, sFinalKeys := ks\<rparr>
                  in if finished skip limit i then st'\<lparr>rthread := Compared, writerExit := True\<rparr>
                     else st'\<lparr>rthread := Catching_up\<rparr>
                else st\<lparr>rthread := Catching_up\<rparr>)
      | Catching_up \<Rightarrow> Some (st\<lparr>rthread := if currentKey st = nextKey st then Leaving else Taking\<rparr>)
      | Leaving \<Rightarrow> Some (st\<lparr>rthread := if readerExit st then Compared else Taking\<rparr>)
      | Compared \<Rightarrow> None
      | Dangling \<Rightarrow> None)"

inductive exchange_step ::
    "(nat \<Rightarrow> bool) \<Rightarrow> string \<Rightarrow> (string \<Rightarrow> string list) \<Rightarrow> int \<Rightarrow> int \<Rightarrow> key_exchange \<Rightarrow> key_exchange \<Rightarrow> bool"
  for grow wild sel skip limit where
  writes: "write_step grow (before_star wild) st = Some st' \<Longrightarrow> exchange_step grow wild sel skip limit st st'"
| reads: "read_step wild sel skip limit st = Some st' \<Longrightarrow> exchange_step grow wild sel skip limit st st'"

inductive_cases exchange_stepE: "exchange_step grow wild sel skip limit st st'"

text \<open>What the threads may leave: the selected parts when both have been joined, or a read through an
  invalid pointer.\<close>

inductive exchanged ::
    "(nat \<Rightarrow> bool) \<Rightarrow> string \<Rightarrow> (string \<Rightarrow> string list) \<Rightarrow> int \<Rightarrow> int \<Rightarrow> (string \<times> string) list \<Rightarrow>
     string list res \<Rightarrow> bool"
  for grow wild sel skip limit es where
  both: "(exchange_step grow wild sel skip limit)\<^sup>*\<^sup>* (exchange_start es) st \<Longrightarrow>
    wthread st = Written \<Longrightarrow> rthread st = Compared \<Longrightarrow>
    exchanged grow wild sel skip limit es (Inr (sFinalKeys st))"
| dangling: "(exchange_step grow wild sel skip limit)\<^sup>*\<^sup>* (exchange_start es) st \<Longrightarrow>
    rthread st = Dangling \<Longrightarrow> exchanged grow wild sel skip limit es (Inl Undefined)"

section \<open>The query\<close>

definition threaded_args :: "lib \<Rightarrow> rvalue \<Rightarrow> (string \<times> string \<times> int \<times> rvalue) res" where
  "threaded_args L args =
     res_bind (res_bind (r_get args ''keys'') r_s) (\<lambda>wild.
     res_bind (res_bind (r_get args ''splitby'') r_s) (\<lambda>splitby.
     res_bind (res_bind (r_get args ''selindex'') (r_i L)) (\<lambda>selindex.
     res_bind (r_get args ''join'') (\<lambda>join. Inr (wild, splitby, selindex, join)))))"

definition finish_join ::
    "'db rocks \<Rightarrow> lib \<Rightarrow> 'db core \<Rightarrow> rvalue \<Rightarrow> wvalue list \<Rightarrow> string list \<Rightarrow> results res" where
  "finish_join R L s join rs ks =
     res_bind (r_members join) (\<lambda>vs. res_bind (join_all R L s ks vs (True, WNull)) (\<lambda>(ret, w).
       Inr (ret, rs @ [WList (map WString ks), w])))"

inductive getJoinedMapThreaded ::
    "'db rocks \<Rightarrow> lib \<Rightarrow> (nat \<Rightarrow> bool) \<Rightarrow> rvalue \<Rightarrow> wvalue list \<Rightarrow> int \<Rightarrow> int \<Rightarrow> 'db core \<Rightarrow> results res \<Rightarrow> bool"
  for R L grow args rs skip limit s where
  not_open: "\<not> dbOk s \<Longrightarrow> getJoinedMapThreaded R L grow args rs skip limit s (Inr (False, rs))"
| bad_args: "dbOk s \<Longrightarrow> threaded_args L args = Inl e \<Longrightarrow> getJoinedMapThreaded R L grow args rs skip limit s (Inl e)"
| refused: "dbOk s \<Longrightarrow> threaded_args L args = Inr (wild, splitby, selindex, join) \<Longrightarrow> star_first wild \<Longrightarrow>
    getJoinedMapThreaded R L grow args rs skip limit s (Inr (False, rs))"
| ran: "dbOk s \<Longrightarrow> threaded_args L args = Inr (wild, splitby, selindex, join) \<Longrightarrow> \<not> star_first wild \<Longrightarrow>
    exchanged grow wild (select_part (first_char splitby) selindex) skip limit (seek_entries R s wild) r \<Longrightarrow>
    getJoinedMapThreaded R L grow args rs skip limit s (res_bind r (finish_join R L s join rs))"

end
