(* ===== verification/Join_Threads_Props.thy ===== *)
theory Join_Threads_Props
  imports Join_Threads Queries_Props
begin

text \<open>
  What \<open>getJoinedMapThreaded\<close> collects: always a beginning of what a query without threads would
  collect; all of it when the writing thread is the first to run; less when the reading thread sees the
  end flag after it found the vector exhausted and before it looks again; and undefined behaviour when
  the vector grows while a key is compared.
\<close>

section \<open>The invariant of the exchange\<close>

definition run_keys :: "string \<Rightarrow> (string \<times> string) list \<Rightarrow> string list" where
  "run_keys pre es = map (\<lambda>e. c_str (fst e)) (takeWhile (in_prefix pre) es)"

lemma run_keys_simps [simp]:
  "run_keys pre [] = []"
  "run_keys pre (e # es) = (if in_prefix pre e then c_str (fst e) # run_keys pre es else [])"
  by (simp_all add: run_keys_def)

definition collected :: "string \<Rightarrow> (string \<Rightarrow> string list) \<Rightarrow> int \<Rightarrow> int \<Rightarrow> string list \<Rightarrow> string list" where
  "collected wild sel skip limit ks = concat (map sel (picked skip limit 0 (filter (wildcmp wild) ks)))"

lemma collected_snoc:
  "collected wild sel skip limit (ks @ [k]) = collected wild sel skip limit ks @
     (if wildcmp wild k \<and> selected skip limit (int (length (filter (wildcmp wild) ks))) then sel k else [])"
  by (simp add: collected_def picked_append)

lemma collected_prefix: "prefix (collected wild sel skip limit (take n ks)) (collected wild sel skip limit ks)"
proof -
  have "collected wild sel skip limit ks = collected wild sel skip limit (take n ks @ drop n ks)" by simp
  then show ?thesis by (simp only: collected_def filter_append picked_append map_append concat_append) (rule prefixI, rule refl)
qed

definition writer_left :: "string \<Rightarrow> key_exchange \<Rightarrow> string list \<Rightarrow> bool" where
  "writer_left pre st ks \<longleftrightarrow> (\<forall>es. wthread st = Appending es \<or> wthread st = Asking es \<longrightarrow> run_keys pre es = ks)"

definition counted_upto ::
    "string \<Rightarrow> (string \<Rightarrow> string list) \<Rightarrow> int \<Rightarrow> int \<Rightarrow> string list \<Rightarrow> key_exchange \<Rightarrow> bool" where
  "counted_upto wild sel skip limit ks st \<longleftrightarrow>
     hits st = int (length (filter (wildcmp wild) ks)) - 1 \<and> sFinalKeys st = collected wild sel skip limit ks"

definition exchange_inv ::
    "string \<Rightarrow> (string \<Rightarrow> string list) \<Rightarrow> int \<Rightarrow> int \<Rightarrow> string list \<Rightarrow> key_exchange \<Rightarrow> bool" where
  "exchange_inv wild sel skip limit ks st \<longleftrightarrow>
     (\<exists>rest. ks = iteratorKeys st @ rest \<and> writer_left (before_star wild) st rest) \<and>
     -1 \<le> currentKey st \<and> currentKey st \<le> nextKey st \<and>
     (case rthread st of
        Comparing k \<Rightarrow> \<exists>before. take (nat (currentKey st + 1)) ks = before @ [k] \<and>
          counted_upto wild sel skip limit before st
      | Dangling \<Rightarrow> True
      | _ \<Rightarrow> counted_upto wild sel skip limit (take (nat (currentKey st + 1)) ks) st)"

lemma exchange_inv_start:
  "exchange_inv wild sel skip limit (run_keys (before_star wild) es) (exchange_start es)"
  by (simp add: exchange_inv_def exchange_start_def writer_left_def nextKey_def counted_upto_def collected_def)

lemma write_step_inv:
  assumes "write_step grow (before_star wild) st = Some st'" and "exchange_inv wild sel skip limit ks st"
  shows "exchange_inv wild sel skip limit ks st'"
proof -
  have frame: "rthread st' = rthread st" "currentKey st' = currentKey st" "hits st' = hits st"
    "sFinalKeys st' = sFinalKeys st" "nextKey st \<le> nextKey st'"
    using assms(1) by (auto simp: write_step_def nextKey_def split: key_writer.splits list.splits if_splits)
  obtain rest where rest: "ks = iteratorKeys st @ rest" "writer_left (before_star wild) st rest"
    using assms(2) by (auto simp: exchange_inv_def)
  then have "\<exists>rest. ks = iteratorKeys st' @ rest \<and> writer_left (before_star wild) st' rest"
    using assms(1)
    by (auto simp: write_step_def writer_left_def split: key_writer.splits list.splits if_splits)
  then show ?thesis using assms(2) frame
    unfolding exchange_inv_def counted_upto_def by (auto split: key_reader.splits)
qed

lemma take_next:
  assumes "ks = xs @ rest" and "0 \<le> i" and "i < int (length xs)"
  shows "take (nat (i + 1)) ks = take (nat i) ks @ [xs ! nat i]"
proof -
  have "nat (i + 1) = Suc (nat i)" and lt: "nat i < length xs" using assms(2,3) by simp_all
  then show ?thesis using assms(1) by (simp add: take_Suc_conv_app_nth nth_append)
qed

lemma read_step_inv:
  assumes "read_step wild sel skip limit st = Some st'" and "exchange_inv wild sel skip limit ks st"
  shows "exchange_inv wild sel skip limit ks st'"
proof -
  have frame: "wthread st' = wthread st" "iteratorKeys st' = iteratorKeys st" "nextKey st' = nextKey st"
    using assms(1) by (auto simp: read_step_def nextKey_def Let_def split: key_reader.splits if_splits)
  have left: "\<exists>rest. ks = iteratorKeys st' @ rest \<and> writer_left (before_star wild) st' rest"
    using assms(2) frame by (auto simp: exchange_inv_def writer_left_def)
  show ?thesis
  proof (cases "rthread st")
    case Taking
    show ?thesis
    proof (cases "currentKey st < nextKey st")
      case True
      obtain rest where rest: "ks = iteratorKeys st @ rest" using assms(2) by (auto simp: exchange_inv_def)
      have "take (nat (currentKey st + 1 + 1)) ks =
          take (nat (currentKey st + 1)) ks @ [iteratorKeys st ! nat (currentKey st + 1)]"
        by (rule take_next [OF rest]) (use assms(2) True in \<open>simp_all add: exchange_inv_def nextKey_def\<close>)
      then show ?thesis using assms left frame True Taking
        by (auto simp: exchange_inv_def read_step_def counted_upto_def nextKey_def)
    qed (use assms left frame Taking in \<open>auto simp: exchange_inv_def read_step_def counted_upto_def\<close>)
  next
    case (Comparing k)
    then obtain before where b: "take (nat (currentKey st + 1)) ks = before @ [k]"
      "counted_upto wild sel skip limit before st"
      using assms(2) by (auto simp: exchange_inv_def)
    show ?thesis
    proof (cases "stale st")
      case True
      then show ?thesis using assms left frame Comparing by (auto simp: exchange_inv_def read_step_def)
    next
      case False
      have "counted_upto wild sel skip limit (before @ [k]) st'"
        using assms(1) b(2) Comparing False
        by (auto simp: read_step_def counted_upto_def collected_snoc Let_def split: if_splits)
      moreover have "rthread st' = Catching_up \<or> rthread st' = Compared" "currentKey st' = currentKey st"
        using assms(1) Comparing False by (auto simp: read_step_def Let_def split: if_splits)
      ultimately show ?thesis using assms(2) left frame b(1) by (auto simp: exchange_inv_def)
    qed
  qed (use assms left frame in \<open>auto simp: exchange_inv_def read_step_def counted_upto_def split: if_splits\<close>)
qed

lemma exchange_inv_reached:
  assumes "(exchange_step grow wild sel skip limit)\<^sup>*\<^sup>* (exchange_start es) st"
  shows "exchange_inv wild sel skip limit (run_keys (before_star wild) es) st"
  using assms
proof (induction rule: rtranclp_induct)
  case (step st1 st2)
  from step(2) show ?case by (cases rule: exchange_step.cases) (auto intro: write_step_inv read_step_inv step)
qed (rule exchange_inv_start)

lemma exchanged_prefix:
  assumes "exchanged grow wild sel skip limit es (Inr ks)"
  shows "prefix ks (collected wild sel skip limit (run_keys (before_star wild) es))"
  using assms
proof (cases rule: exchanged.cases)
  case (both st)
  from exchange_inv_reached [OF this(2)] both show ?thesis
    using collected_prefix by (auto simp: exchange_inv_def counted_upto_def)
qed

section \<open>A run that collects everything\<close>

lemma reads_then:
  "read_step wild sel skip limit st = Some st1 \<Longrightarrow> (exchange_step grow wild sel skip limit)\<^sup>*\<^sup>* st1 st2 \<Longrightarrow>
     (exchange_step grow wild sel skip limit)\<^sup>*\<^sup>* st st2"
  by (blast intro: converse_rtranclp_into_rtranclp exchange_step.reads)

lemma writes_then:
  "write_step grow (before_star wild) st = Some st1 \<Longrightarrow> (exchange_step grow wild sel skip limit)\<^sup>*\<^sup>* st1 st2 \<Longrightarrow>
     (exchange_step grow wild sel skip limit)\<^sup>*\<^sup>* st st2"
  by (blast intro: converse_rtranclp_into_rtranclp exchange_step.writes)

lemma writer_alone:
  assumes "wthread st = Appending es" and "\<not> writerExit st"
  shows "\<exists>b. (exchange_step grow wild sel skip limit)\<^sup>*\<^sup>* st
    (st\<lparr>wthread := Written, iteratorKeys := iteratorKeys st @ run_keys (before_star wild) es,
        readerExit := True, stale := b\<rparr>)"
  using assms
proof (induction es arbitrary: st)
  case Nil
  have "(exchange_step grow wild sel skip limit)\<^sup>*\<^sup>* st (st\<lparr>wthread := Written, readerExit := True\<rparr>)"
    by (rule writes_then, simp add: write_step_def Nil, rule writes_then, simp add: write_step_def, simp)
  then show ?case by (intro exI [of _ "stale st"]) simp
next
  case (Cons e es)
  show ?case
  proof (cases "in_prefix (before_star wild) e")
    case True
    let ?st = "st\<lparr>wthread := Appending es, iteratorKeys := iteratorKeys st @ [c_str (fst e)],
        stale := stale st \<or> grow (length (iteratorKeys st))\<rparr>"
    obtain b where b: "(exchange_step grow wild sel skip limit)\<^sup>*\<^sup>* ?st (?st\<lparr>wthread := Written,
        iteratorKeys := iteratorKeys ?st @ run_keys (before_star wild) es, readerExit := True, stale := b\<rparr>)"
      using Cons.IH [of ?st] Cons.prems by auto
    have w1: "write_step grow (before_star wild) st = Some (?st\<lparr>wthread := Asking es\<rparr>)"
      and w2: "write_step grow (before_star wild) (?st\<lparr>wthread := Asking es\<rparr>) = Some ?st"
      using Cons.prems True by (simp_all add: write_step_def)
    have "(exchange_step grow wild sel skip limit)\<^sup>*\<^sup>* st (?st\<lparr>wthread := Written,
        iteratorKeys := iteratorKeys ?st @ run_keys (before_star wild) es, readerExit := True, stale := b\<rparr>)"
      by (rule writes_then [OF w1 writes_then [OF w2 b]])
    then show ?thesis using True by (intro exI [of _ b]) simp
  next
    case False
    have "(exchange_step grow wild sel skip limit)\<^sup>*\<^sup>* st (st\<lparr>wthread := Written, readerExit := True\<rparr>)"
      by (rule writes_then, simp add: write_step_def Cons.prems False, rule writes_then,
          simp add: write_step_def, simp)
    then show ?thesis using False by (intro exI [of _ "stale st"]) simp
  qed
qed

text \<open>The state of the reading thread when the other has ended and \<open>done\<close> keys have been compared.\<close>

definition reading_on ::
    "string \<Rightarrow> (string \<Rightarrow> string list) \<Rightarrow> int \<Rightarrow> int \<Rightarrow> string list \<Rightarrow> string list \<Rightarrow> key_exchange \<Rightarrow> bool" where
  "reading_on wild sel skip limit done todo st \<longleftrightarrow>
     wthread st = Written \<and> readerExit st \<and> iteratorKeys st = done @ todo \<and>
     currentKey st = int (length done) - 1 \<and> counted_upto wild sel skip limit done st"

definition ends_with :: "key_exchange \<Rightarrow> string list \<Rightarrow> bool" where
  "ends_with st ks \<longleftrightarrow> wthread st = Written \<and> rthread st = Compared \<and> sFinalKeys st = ks"

lemma collected_finished:
  assumes "finished skip limit (int (length (filter (wildcmp wild) xs)))" and "wildcmp wild k"
  shows "collected wild sel skip limit (xs @ k # ys) = collected wild sel skip limit (xs @ [k])"
proof -
  have "picked skip limit (int (length (filter (wildcmp wild) xs)) + 1) zs = []" for zs :: "string list"
    using assms(1) by (intro picked_after_finish) (auto simp: finished_def)
  then show ?thesis using assms(2) by (simp add: collected_def picked_append add.commute)
qed

lemma compare_step:
  assumes "rthread st = Comparing k" and "\<not> stale st"
    and "fin \<longleftrightarrow> wildcmp wild k \<and> finished skip limit (hits st + 1)"
  shows "read_step wild sel skip limit st = Some (st\<lparr>
    rthread := if fin then Compared else Catching_up, writerExit := writerExit st \<or> fin,
    hits := if wildcmp wild k then hits st + 1 else hits st,
    sFinalKeys := if wildcmp wild k \<and> selected skip limit (hits st + 1) then sFinalKeys st @ sel k else sFinalKeys st\<rparr>)"
  using assms by (simp add: read_step_def Let_def)

lemma reader_takes:
  assumes "reading_on wild sel skip limit done (k # todo) st" and "rthread st = Taking"
  shows "\<exists>st'. (exchange_step grow wild sel skip limit)\<^sup>*\<^sup>* st st' \<and>
    (ends_with st' (collected wild sel skip limit (done @ k # todo)) \<or>
     rthread st' = Catching_up \<and> reading_on wild sel skip limit (done @ [k]) todo st')"
proof -
  let ?i = "hits st + 1"
  define fin where "fin \<longleftrightarrow> wildcmp wild k \<and> finished skip limit ?i"
  let ?st1 = "st\<lparr>rthread := Comparing k, currentKey := currentKey st + 1, stale := False\<rparr>"
  let ?st2 = "?st1\<lparr>rthread := if fin then Compared else Catching_up, writerExit := writerExit st \<or> fin,
    hits := if wildcmp wild k then ?i else hits st,
    sFinalKeys := if wildcmp wild k \<and> selected skip limit ?i then sFinalKeys st @ sel k else sFinalKeys st\<rparr>"
  have step1: "read_step wild sel skip limit st = Some ?st1"
    using assms by (simp add: read_step_def reading_on_def nextKey_def)
  have step2: "read_step wild sel skip limit ?st1 = Some ?st2"
    using compare_step [of ?st1 k fin wild skip limit sel] by (simp add: fin_def)
  have run: "(exchange_step grow wild sel skip limit)\<^sup>*\<^sup>* st ?st2"
    by (rule reads_then [OF step1 reads_then [OF step2 rtranclp.rtrancl_refl]])
  have i: "?i = int (length (filter (wildcmp wild) done))"
    using assms(1) by (simp add: reading_on_def counted_upto_def)
  have counted: "counted_upto wild sel skip limit (done @ [k]) ?st2"
    using assms(1) i by (simp add: reading_on_def counted_upto_def collected_snoc)
  show ?thesis
  proof (cases fin)
    case True
    then have "collected wild sel skip limit (done @ k # todo) = collected wild sel skip limit (done @ [k])"
      using collected_finished [of skip limit wild "done" k sel todo] i by (simp add: fin_def)
    then have "ends_with ?st2 (collected wild sel skip limit (done @ k # todo))"
      using True counted assms(1) unfolding ends_with_def counted_upto_def reading_on_def by simp
    then show ?thesis using run by blast
  next
    case False
    then have "rthread ?st2 = Catching_up \<and> reading_on wild sel skip limit (done @ [k]) todo ?st2"
      using counted assms(1) unfolding reading_on_def by simp
    then show ?thesis using run by blast
  qed
qed

lemma reader_alone:
  assumes "reading_on wild sel skip limit done todo st" and "rthread st = Catching_up"
  shows "\<exists>st'. (exchange_step grow wild sel skip limit)\<^sup>*\<^sup>* st st' \<and>
    ends_with st' (collected wild sel skip limit (done @ todo))"
  using assms
proof (induction todo arbitrary: "done" st)
  case Nil
  have "(exchange_step grow wild sel skip limit)\<^sup>*\<^sup>* st (st\<lparr>rthread := Compared\<rparr>)"
    by (rule reads_then, simp add: read_step_def Nil, rule reads_then [OF _ rtranclp.rtrancl_refl])
      (use Nil in \<open>simp add: read_step_def reading_on_def nextKey_def\<close>)
  then show ?case using Nil by (intro exI conjI) (auto simp: ends_with_def reading_on_def counted_upto_def)
next
  case (Cons k todo)
  let ?st = "st\<lparr>rthread := Taking\<rparr>"
  have step: "read_step wild sel skip limit st = Some ?st"
    using Cons.prems by (simp add: read_step_def reading_on_def nextKey_def)
  have on: "reading_on wild sel skip limit done (k # todo) ?st"
    using Cons.prems(1) by (simp add: reading_on_def counted_upto_def)
  from reader_takes [OF this] obtain st2 where run: "(exchange_step grow wild sel skip limit)\<^sup>*\<^sup>* ?st st2"
    and st2: "ends_with st2 (collected wild sel skip limit (done @ k # todo)) \<or>
     rthread st2 = Catching_up \<and> reading_on wild sel skip limit (done @ [k]) todo st2" by auto
  from st2 show ?case
  proof
    assume "rthread st2 = Catching_up \<and> reading_on wild sel skip limit (done @ [k]) todo st2"
    with Cons.IH obtain st3 where "(exchange_step grow wild sel skip limit)\<^sup>*\<^sup>* st2 st3"
      "ends_with st3 (collected wild sel skip limit (done @ k # todo))" by fastforce
    then show ?thesis using reads_then [OF step] run by (metis rtranclp_trans)
  qed (use reads_then [OF step run] in blast)
qed

lemma exchanged_all:
  "exchanged grow wild sel skip limit es (Inr (collected wild sel skip limit (run_keys (before_star wild) es)))"
proof -
  let ?ks = "run_keys (before_star wild) es"
  obtain b where writes: "(exchange_step grow wild sel skip limit)\<^sup>*\<^sup>* (exchange_start es)
      ((exchange_start es)\<lparr>wthread := Written, iteratorKeys := [] @ ?ks, readerExit := True, stale := b\<rparr>)"
    using writer_alone [of "exchange_start es" es grow wild sel skip limit] by (auto simp: exchange_start_def)
  let ?st = "(exchange_start es)\<lparr>wthread := Written, iteratorKeys := [] @ ?ks, readerExit := True, stale := b\<rparr>"
  have on: "reading_on wild sel skip limit [] ?ks ?st"
    by (simp add: reading_on_def exchange_start_def counted_upto_def collected_def)
  have taking: "rthread ?st = Taking" by (simp add: exchange_start_def)
  obtain st' where "(exchange_step grow wild sel skip limit)\<^sup>*\<^sup>* ?st st'"
    and "ends_with st' (collected wild sel skip limit ?ks)"
  proof (cases ?ks)
    case Nil
    have step: "read_step wild sel skip limit ?st = Some (?st\<lparr>rthread := Catching_up\<rparr>)"
      using Nil by (simp add: read_step_def exchange_start_def nextKey_def)
    have "reading_on wild sel skip limit [] ?ks (?st\<lparr>rthread := Catching_up\<rparr>)"
      using on by (simp add: reading_on_def counted_upto_def)
    from reader_alone [OF this, of grow] obtain st3
      where "(exchange_step grow wild sel skip limit)\<^sup>*\<^sup>* (?st\<lparr>rthread := Catching_up\<rparr>) st3"
        and "ends_with st3 (collected wild sel skip limit ?ks)"
      by auto
    then show thesis using that reads_then [OF step] by blast
  next
    case (Cons k ks)
    have "reading_on wild sel skip limit [] (k # ks) ?st" using on Cons by simp
    from reader_takes [OF this taking, of grow] obtain st2
      where run: "(exchange_step grow wild sel skip limit)\<^sup>*\<^sup>* ?st st2"
        and st2: "ends_with st2 (collected wild sel skip limit ?ks) \<or>
          rthread st2 = Catching_up \<and> reading_on wild sel skip limit [k] ks st2"
      using Cons by auto
    from st2 show thesis
    proof
      assume "rthread st2 = Catching_up \<and> reading_on wild sel skip limit [k] ks st2"
      then obtain st3 where "(exchange_step grow wild sel skip limit)\<^sup>*\<^sup>* st2 st3"
        "ends_with st3 (collected wild sel skip limit ?ks)"
        using reader_alone [of wild sel skip limit "[k]" ks st2 grow] Cons by auto
      then show thesis using that rtranclp_trans [OF run] by blast
    qed (use that run in blast)
  qed
  then show ?thesis using both rtranclp_trans [OF writes] by (fastforce simp: ends_with_def)
qed

section \<open>Schedules\<close>

text \<open>A run given by who takes each step: the writing thread at \<open>True\<close>.\<close>

fun run_exchange ::
    "(nat \<Rightarrow> bool) \<Rightarrow> string \<Rightarrow> (string \<Rightarrow> string list) \<Rightarrow> int \<Rightarrow> int \<Rightarrow> bool list \<Rightarrow> key_exchange \<Rightarrow> key_exchange option" where
  "run_exchange grow wild sel skip limit [] st = Some st"
| "run_exchange grow wild sel skip limit (b # bs) st =
     Option.bind (if b then write_step grow (before_star wild) st else read_step wild sel skip limit st)
       (run_exchange grow wild sel skip limit bs)"

lemma run_exchange_steps:
  "run_exchange grow wild sel skip limit bs st = Some st' \<Longrightarrow>
     (exchange_step grow wild sel skip limit)\<^sup>*\<^sup>* st st'"
  by (induction bs arbitrary: st) (auto simp: bind_eq_Some_conv intro: reads_then writes_then split: if_splits)

definition exchange_result ::
    "(nat \<Rightarrow> bool) \<Rightarrow> string \<Rightarrow> (string \<Rightarrow> string list) \<Rightarrow> int \<Rightarrow> int \<Rightarrow> bool list \<Rightarrow>
     (string \<times> string) list \<Rightarrow> (key_writer \<times> key_reader \<times> string list) option" where
  "exchange_result grow wild sel skip limit bs es =
     map_option (\<lambda>st. (wthread st, rthread st, sFinalKeys st))
       (run_exchange grow wild sel skip limit bs (exchange_start es))"

lemma exchange_result_outcome:
  "exchange_result grow wild sel skip limit bs es = Some (Written, Compared, ks) \<Longrightarrow>
     exchanged grow wild sel skip limit es (Inr ks)"
  "exchange_result grow wild sel skip limit bs es = Some (w, Dangling, ks) \<Longrightarrow>
     exchanged grow wild sel skip limit es (Inl Undefined)"
  unfolding exchange_result_def
  by (auto dest!: run_exchange_steps intro: exchanged.intros dangling)

section \<open>Properties\<close>

lemma collected_matching:
  assumes "rocksdb R entries" and "window_ok skip limit"
  shows "collected wild sel skip limit (run_keys (before_star wild) (seek_entries R s wild)) =
    concat (map (\<lambda>e. sel (c_str (fst e))) (window skip limit (matching (entries (db s)) wild)))"
proof -
  have "filter (wildcmp wild) (run_keys (before_star wild) (seek_entries R s wild)) =
      map (\<lambda>e. c_str (fst e)) (matching (entries (db s)) wild)"
    unfolding run_keys_def rocksdb.query_run [OF assms(1), symmetric]
    by (simp add: filter_map comp_def wildcmp_eq)
  then show ?thesis by (simp add: collected_def picked_window [OF assms(2)] window_map comp_def)
qed

text \<open>C18: whatever the interleaving and the growth of the vector, a threaded joined map that returns
  is that of a beginning of the list of selected key parts a query without threads collects, and the
  one of the whole list is among the outcomes.\<close>

theorem getJoinedMapThreaded_prefix:
  assumes "rocksdb R entries" and "dbOk s" and "window_ok skip limit"
    and "threaded_args L args = Inr (wild, splitby, selindex, join)" and "\<not> star_first wild"
    and "r_members join = Inr vs"
    and "full = concat (map (\<lambda>e. select_part (first_char splitby) selindex (c_str (fst e)))
      (window skip limit (matching (entries (db s)) wild)))"
  shows "(getJoinedMapThreaded R L grow args rs skip limit s (Inr out) \<longrightarrow>
      (\<exists>ks. prefix ks full \<and> Inr out = finish_join R L s join rs ks)) \<and>
    getJoinedMapThreaded R L grow args rs skip limit s (finish_join R L s join rs full)"
proof
  let ?sel = "select_part (first_char splitby) selindex"
  have full: "collected wild ?sel skip limit (run_keys (before_star wild) (seek_entries R s wild)) = full"
    by (simp add: collected_matching [OF assms(1,3)] assms(7))
  show "getJoinedMapThreaded R L grow args rs skip limit s (Inr out) \<longrightarrow>
      (\<exists>ks. prefix ks full \<and> Inr out = finish_join R L s join rs ks)"
  proof
    assume "getJoinedMapThreaded R L grow args rs skip limit s (Inr out)"
    then obtain r where r: "exchanged grow wild ?sel skip limit (seek_entries R s wild) r"
      "Inr out = res_bind r (finish_join R L s join rs)"
      using assms(2,4,5) by (cases rule: getJoinedMapThreaded.cases) auto
    then obtain ks where "r = Inr ks" "Inr out = finish_join R L s join rs ks" by (cases r) auto
    then show "\<exists>ks. prefix ks full \<and> Inr out = finish_join R L s join rs ks"
      using exchanged_prefix [of grow wild ?sel skip limit "seek_entries R s wild" ks] r(1) full by auto
  qed
  from ran [where R = R and grow = grow and skip = skip and limit = limit and rs = rs,
      OF assms(2,4,5) exchanged_all]
  show "getJoinedMapThreaded R L grow args rs skip limit s (finish_join R L s join rs full)"
    by (simp add: full)
qed

text \<open>A query on three keys, two of which match, and the growth of a vector that doubles its space.\<close>

definition join_args :: rvalue where
  "join_args = RObject [(''keys'', RString ''g*''), (''splitby'', RString ''_''), (''selindex'', RNumber ''1''),
     (''join'', RList [RObject [(''prefix'', RString ''p''), (''suffix'', RString [])]])]"

definition join_node :: "memdb core" where
  "join_node = mem_node [(''g_a'', ''1''), (''g_b'', ''2''), (''pa'', ''true'')]"

definition doubling :: "nat \<Rightarrow> bool" where
  "doubling n \<longleftrightarrow> n = 0 \<or> n = 1 \<or> n = 2 \<or> n = 4 \<or> n = 8"

lemma join_args_read:
  "threaded_args mem_lib join_args =
     Inr (''g*'', ''_'', 1, RList [RObject [(''prefix'', RString ''p''), (''suffix'', RString [])]])"
  by code_simp

lemma join_node_ok: "dbOk join_node" and g_star: "\<not> star_first ''g*''"
  by (simp_all add: join_node_def mem_node_def star_first_def)

theorem getJoinedMapThreaded_prefix_witness:
  "getJoinedMapThreaded mem_rocks mem_lib doubling join_args [] 0 (-1) join_node
     (finish_join mem_rocks mem_lib join_node
       (RList [RObject [(''prefix'', RString ''p''), (''suffix'', RString [])]]) [] [''a'', ''b''])"
proof -
  have full: "[''a'', ''b''] = concat (map (\<lambda>e. select_part (first_char ''_'') 1 (c_str (fst e)))
      (window 0 (-1) (matching (mem_entries (db join_node)) ''g*'')))"
    by code_simp
  have "window_ok 0 (-1)" by (simp add: window_ok_def INT_MAX_def INT_MIN_def)
  from getJoinedMapThreaded_prefix [OF mem.rocksdb_axioms join_node_ok this join_args_read g_star _ full]
  show ?thesis by simp
qed

text \<open>A threaded joined map of a database with two matching keys may come back empty, with success:
  the reading thread finds the vector exhausted, the writing thread appends its keys and sets the end
  flag, and the reading thread then looks at the flag only. And when the vector grows while a key is
  compared, the program reads freed memory.\<close>

theorem getJoinedMapThreaded_loses_keys:
  "getJoinedMapThreaded mem_rocks mem_lib doubling join_args [] 0 (-1) join_node
     (Inr (True, [WList [], WNull])) \<and>
   getJoinedMapThreaded mem_rocks mem_lib doubling join_args [] 0 (-1) join_node (Inl Undefined)"
proof -
  let ?sel = "select_part (first_char ''_'') 1"
  note ran1 = ran [where R = mem_rocks and grow = doubling and skip = 0 and limit = "-1" and rs = "[]",
      OF join_node_ok join_args_read g_star]
  have "exchange_result doubling ''g*'' ?sel 0 (-1)
      [False, False, True, True, True, True, True, True, False] (seek_entries mem_rocks join_node ''g*'') =
    Some (Written, Compared, [])"
    by code_simp
  from ran1 [OF exchange_result_outcome(1) [OF this]]
  have lost: "getJoinedMapThreaded mem_rocks mem_lib doubling join_args [] 0 (-1) join_node
     (Inr (True, [WList [], WNull]))"
    by (simp add: finish_join_def)
  have "exchange_result doubling ''g*'' ?sel 0 (-1)
      [True, False, True, True, False] (seek_entries mem_rocks join_node ''g*'') =
    Some (Asking [(''pa'', ''true'')], Dangling, [])"
    by code_simp
  from ran1 [OF exchange_result_outcome(2) [OF this]] lost show ?thesis by simp
qed

end
