(* ===== verification/Script_Search.thy ===== *)
theory Script_Search
  imports Queries Scan_Props
begin

text \<open>
  \<open>Core::searchJson\<close> of \<^verbatim>\<open>src/quarks.cpp\<close> in the build with the script engine, and the use \<open>Core::fileTransfer\<close>
  makes of it. The engine is V8, a library: a module is given by what its functions answer, which is the
  parameter \<open>script\<close>; loading a module that is missing or does not compile ends the process. A prefix is
  read through a \<^verbatim>\<open>Slice\<close> of a temporary string, so only patterns that begin with a star are defined.
\<close>

section \<open>The engine\<close>

type_synonym engine = "string \<Rightarrow> (string \<Rightarrow> string \<Rightarrow> string \<Rightarrow> string) option"

text \<open>\<open>v8Engine::load\<close> runs the module and then the callback with it.\<close>

definition engine_load :: "engine \<Rightarrow> string \<Rightarrow> ((string \<Rightarrow> string \<Rightarrow> string \<Rightarrow> string) \<Rightarrow> ('db, 'a) op) \<Rightarrow> ('db, 'a) op" where
  "engine_load script fileName onLoad s =
     (case script fileName of None \<Rightarrow> (Inl Undefined, s) | Some invoke \<Rightarrow> onLoad invoke s)"

text \<open>\<^verbatim>\<open>atoi\<close>, which answers 0 for what is not a number and is undefined for what does not fit.\<close>

definition atoi :: "string \<Rightarrow> int res" where
  "atoi t = (case stoi (c_str t) of
     Inr n \<Rightarrow> Inr n | Inl e \<Rightarrow> if e = InvalidArgument then Inr 0 else Inl Undefined)"

section \<open>Search\<close>

record script_query =
  sq_field :: string
  sq_as :: string
  sq_module :: string
  sq_func :: string
  sq_params :: string

definition script_query_of :: "lib \<Rightarrow> rvalue \<Rightarrow> (string \<times> script_query) res" where
  "script_query_of L args =
     res_bind (wvalue_of_rvalue L args) (\<lambda>sArgs.
     res_bind (res_bind (r_get args ''keys'') r_s) (\<lambda>wild.
     res_bind (res_bind (r_get args ''include'') (wvalue_of_rvalue L)) (\<lambda>inc.
     case load (dump_json L inc) of
       None \<Rightarrow> Inl RuntimeError
     | Some flt \<Rightarrow>
         res_bind (res_bind (r_get flt ''map'') (\<lambda>m. res_bind (r_get m ''field'') r_s)) (\<lambda>field.
         res_bind (res_bind (r_get flt ''map'') (\<lambda>m. res_bind (r_get m ''as'') r_s)) (\<lambda>as.
         res_bind (res_bind (r_get flt ''module'') r_s) (\<lambda>md.
         res_bind (res_bind (r_get flt ''filter'') r_s) (\<lambda>f.
         res_bind (res_bind (r_get flt ''params'') r_s) (\<lambda>ps.
           Inr (wild, \<lparr>sq_field = field, sq_as = as, sq_module = md, sq_func = f, sq_params = ps\<rparr>)))))))))"

text \<open>A hit with the value stored under the key it names, and the answer of the script on it.\<close>

definition script_entry ::
    "'db rocks \<Rightarrow> lib \<Rightarrow> script_query \<Rightarrow> (string \<Rightarrow> string \<Rightarrow> string \<Rightarrow> string) \<Rightarrow> string \<times> string \<Rightarrow>
     ('db, bool \<times> wvalue) op" where
  "script_entry R L q invoke e s =
     (case (case load (snd e) of None \<Rightarrow> load (''[\"'' @ snd e @ ''\"]'') | Some x \<Rightarrow> Some x) of
        None \<Rightarrow> (Inl RuntimeError, s)
      | Some r \<Rightarrow>
          (case res_bind (r_get r (c_str (sq_field q))) r_s of
             Inl x \<Rightarrow> (Inl x, s)
           | Inr mapKey \<Rightarrow>
               (case wvalue_of_rvalue L r of
                  Inl x \<Rightarrow> (Inl x, s)
                | Inr w \<Rightarrow>
                    (case getJson R L mapKey s of
                       (Inl x, s1) \<Rightarrow> (Inl x, s1)
                     | (Inr j, s1) \<Rightarrow>
                         (let w' = (case j of None \<Rightarrow> w | Some mapJson \<Rightarrow> w_set w (sq_as q) mapJson)
                          in (res_bind (atoi (invoke (c_str (sq_func q)) (c_str (dump_json L w')) (c_str (sq_params q))))
                                (\<lambda>n. Inr (n = 1, w')), s1))))))"

fun script_loop ::
    "'db rocks \<Rightarrow> lib \<Rightarrow> script_query \<Rightarrow> (string \<Rightarrow> string \<Rightarrow> string \<Rightarrow> string) \<Rightarrow> string \<Rightarrow> int \<Rightarrow> int \<Rightarrow>
     (string \<times> string) list \<Rightarrow> int \<Rightarrow> wvalue list \<Rightarrow> ('db, wvalue list) op" where
  "script_loop R L q invoke wild skip limit [] i rs s = (Inr rs, s)"
| "script_loop R L q invoke wild skip limit (e # es) i rs s =
     (if key_hit wild e then
        (case script_entry R L q invoke e s of
           (Inl x, s1) \<Rightarrow> (Inl x, s1)
         | (Inr (allow, w), s1) \<Rightarrow>
             if allow then
               if skip = 0 \<and> limit = -1
               then script_loop R L q invoke wild skip limit es (i + 1) (rs @ [w]) s1
               else if i + 1 > lowerbound skip \<and> i + 1 < upperbound skip limit
               then script_loop R L q invoke wild skip limit es (i + 1) (rs @ [w]) s1
               else (Inr rs, s1)
             else script_loop R L q invoke wild skip limit es i rs s1)
      else script_loop R L q invoke wild skip limit es i rs s)"

definition searchScript ::
    "'db rocks \<Rightarrow> lib \<Rightarrow> engine \<Rightarrow> rvalue \<Rightarrow> wvalue list \<Rightarrow> int \<Rightarrow> int \<Rightarrow> ('db, results) op" where
  "searchScript R L script args rs skip limit s =
     (if \<not> dbOk s then (Inr (False, rs), s)
      else case script_query_of L args of
          Inl x \<Rightarrow> (Inl x, s)
        | Inr (wild, q) \<Rightarrow>
            engine_load script (sq_module q @ ''.js'') (\<lambda>invoke s1.
              if \<not> star_first wild then (Inl Undefined, s1)
              else (case script_loop R L q invoke wild skip limit (snd (rocks_SeekToFirst R (db s1))) (-1) rs s1 of
                  (r, s2) \<Rightarrow> (res_bind r (\<lambda>rs'. Inr (True, rs')), s2))) s)"

definition fileTransfer :: "engine \<Rightarrow> string \<Rightarrow> string \<Rightarrow> string \<Rightarrow> string \<Rightarrow> ('db, bool) op" where
  "fileTransfer script moduleName funcName channelName remoteDescription =
     engine_load script (moduleName @ ''.js'')
       (\<lambda>invoke s. (Inr (0 < length (invoke (c_str funcName) (c_str channelName) (c_str remoteDescription))), s))"

section \<open>What the search lists\<close>

text \<open>The hits the script allows, in key order, when nothing is thrown.\<close>

fun allowed ::
    "'db rocks \<Rightarrow> lib \<Rightarrow> script_query \<Rightarrow> (string \<Rightarrow> string \<Rightarrow> string \<Rightarrow> string) \<Rightarrow> (string \<times> string) list \<Rightarrow>
     'db core \<Rightarrow> wvalue list res" where
  "allowed R L q invoke [] s = Inr []"
| "allowed R L q invoke (e # es) s =
     (case script_entry R L q invoke e s of
        (Inl x, s1) \<Rightarrow> Inl x
      | (Inr (allow, w), s1) \<Rightarrow>
          res_bind (allowed R L q invoke es s1) (\<lambda>ws. Inr (if allow then w # ws else ws)))"

lemma script_loop_all:
  "allowed R L q invoke (filter (key_hit wild) es) s = Inr ws \<Longrightarrow>
     fst (script_loop R L q invoke wild 0 (-1) es i rs s) = Inr (rs @ ws)"
proof (induction es arbitrary: i rs s ws)
  case (Cons e es)
  then show ?case
    by (cases "script_entry R L q invoke e s")
      (auto simp: res_bind_Inr_iff split: sum.splits prod.splits if_splits)
qed simp

lemma script_loop_limit:
  assumes "window_ok 0 limit" and "limit \<noteq> -1" and "-1 \<le> i"
    and "allowed R L q invoke (filter (key_hit wild) es) s = Inr ws"
  shows "fst (script_loop R L q invoke wild 0 limit es i rs s) = Inr (rs @ take (nat (limit - (i + 1))) ws)"
  using assms(3,4)
proof (induction es arbitrary: i rs s ws)
  case (Cons e es)
  have inside: "i + 1 > lowerbound 0 \<and> i + 1 < upperbound 0 limit \<longleftrightarrow> i + 1 < limit"
    using selected_alt [OF assms(1), of "i + 1"] assms(2) Cons.prems(1) by (auto simp: selected_def)
  have take_it: "take (nat (limit - (i + 1))) (w # ws) = w # take (nat (limit - (i + 1 + 1))) ws"
    if "i + 1 < limit" for w and ws :: "wvalue list"
  proof -
    have "nat (limit - (i + 1)) = Suc (nat (limit - (i + 1 + 1)))" using that by simp
    then show ?thesis by simp
  qed
  show ?case
  proof (cases "key_hit wild e")
    case True
    then obtain allow w s1 ws1 where e: "script_entry R L q invoke e s = (Inr (allow, w), s1)"
      and ws: "allowed R L q invoke (filter (key_hit wild) es) s1 = Inr ws1" "ws = (if allow then w # ws1 else ws1)"
      using Cons.prems(2) by (auto simp: res_bind_Inr_iff split: sum.splits prod.splits)
    show ?thesis
    proof (cases "i + 1 < limit")
      case True
      then show ?thesis using Cons.IH [OF _ ws(1)] Cons.prems(1) ws(2) \<open>key_hit wild e\<close> assms(2)
          inside take_it [OF True] by (auto simp: e)
    next
      case False
      then show ?thesis using Cons.IH [OF _ ws(1)] Cons.prems(1) ws(2) True assms(2) inside by (auto simp: e)
    qed
  qed (use Cons in auto)
qed simp

lemma script_loop_skips:
  assumes "window_ok skip limit" and "0 < skip"
    and "allowed R L q invoke (filter (key_hit wild) es) s = Inr ws"
  shows "fst (script_loop R L q invoke wild skip limit es (-1) rs s) = Inr rs"
  using assms(3)
proof (induction es arbitrary: s ws)
  case (Cons e es)
  have "\<not> 0 > lowerbound skip" using assms(1,2) wrap32_id [of "skip - 1"]
    by (auto simp: lowerbound_def window_ok_def INT_MIN_def INT_MAX_def)
  with Cons assms(2) show ?case by (auto simp: res_bind_Inr_iff split: sum.splits prod.splits if_splits)
qed simp

text \<open>With the script engine a search lists the hits the script allows in a window from the first
  on; with anything to skip it lists nothing, since the first allowed hit before the window ends it.\<close>

theorem searchScript_lists:
  assumes "rocksdb R entries" and "dbOk s" and "window_ok skip limit"
    and "script_query_of L args = Inr (wild, q)" and "star_first wild"
    and "script (sq_module q @ ''.js'') = Some invoke"
    and "allowed R L q invoke (filter (key_hit wild) (entries (db s))) s = Inr ws"
  shows "fst (searchScript R L script args rs skip limit s) =
    Inr (True, rs @ (if skip = 0 then window 0 limit ws else []))"
proof -
  let ?loop = "script_loop R L q invoke wild skip limit (entries (db s)) (-1) rs s"
  have "fst ?loop = Inr (rs @ (if skip = 0 then window 0 limit ws else []))"
  proof (cases "skip = 0")
    case True
    show ?thesis
    proof (cases "limit = -1")
      case False
      then show ?thesis using script_loop_limit [of limit "-1"] assms(3,7) True by (simp add: window_def)
    qed (use script_loop_all assms(7) True in \<open>simp add: window_def\<close>)
  next
    case False
    then have "0 < skip" using assms(3) by (simp add: window_ok_def)
    then show ?thesis using script_loop_skips [OF assms(3) _ assms(7)] by simp
  qed
  then obtain s2 where "?loop = (Inr (rs @ (if skip = 0 then window 0 limit ws else [])), s2)"
    by (cases ?loop) auto
  then show ?thesis
    by (simp add: searchScript_def engine_load_def assms(2,4,5,6) rocksdb.seek_first [OF assms(1)])
qed

definition search_args :: rvalue where
  "search_args = RObject [(''keys'', RString ''*''), (''include'', RObject [
     (''map'', RObject [(''field'', RString ''to''), (''as'', RString ''target'')]), (''module'', RString ''m''),
     (''filter'', RString ''f''), (''params'', RString [])])]"

theorem searchScript_lists_witness:
  "fst (searchScript mem_rocks mem_lib (\<lambda>m. Some (\<lambda>f e p. ''1'')) search_args [] 1 (-1)
      (mem_node [(''a'', ''{\"to\":\"b\"}''), (''b'', ''{\"to\":\"a\"}'')])) = Inr (True, [] @ [])"
proof -
  let ?s = "mem_node [(''a'', ''{\"to\":\"b\"}''), (''b'', ''{\"to\":\"a\"}'')]"
  let ?q = "\<lparr>sq_field = ''to'', sq_as = ''target'', sq_module = ''m'', sq_func = ''f'', sq_params = []\<rparr>"
  have q: "script_query_of mem_lib search_args = Inr (''*'', ?q)" by code_simp
  have "\<not> isl (allowed mem_rocks mem_lib ?q (\<lambda>f e p. ''1'') (filter (key_hit ''*'') (mem_entries (db ?s))) ?s)"
    by code_simp
  then obtain ws where ws: "allowed mem_rocks mem_lib ?q (\<lambda>f e p. ''1'')
      (filter (key_hit ''*'') (mem_entries (db ?s))) ?s = Inr ws"
    by (cases "allowed mem_rocks mem_lib ?q (\<lambda>f e p. ''1'') (filter (key_hit ''*'') (mem_entries (db ?s))) ?s") auto
  have "dbOk ?s" "window_ok 1 (-1)" "star_first ''*''"
    by (simp_all add: mem_node_def window_ok_def INT_MAX_def INT_MIN_def star_first_def)
  from searchScript_lists [OF mem.rocksdb_axioms this(1,2) q this(3) _ ws, where script = "\<lambda>m. Some (\<lambda>f e p. ''1'')" and rs = "[]"]
  show ?thesis by simp
qed

end
