(* ===== verification/Scripting.thy ===== *)
theory Scripting
  imports Tcp_Routes
begin

text \<open>
  Scripting with Wren: \<^verbatim>\<open>include/wrenengine.hpp\<close> (the virtual machine each thread gets, the routes scripts
  define, the functions scripts may call, the handler that gives every request to the script first) and
  \<^verbatim>\<open>include/plugins.hpp\<close> (shared libraries scripts load and call). The virtual machine is a library: a
  call of a script's method is a parameter, an operation on the node that answers a text or throws. The
  loader of shared libraries is a parameter with the laws of \<^verbatim>\<open>dlopen\<close> and \<^verbatim>\<open>dlclose\<close>.
\<close>

section \<open>Plugins\<close>

record 'd loader =
  dl_open :: "string \<Rightarrow> 'd \<Rightarrow> nat option \<times> 'd"
  dl_close :: "nat \<Rightarrow> 'd \<Rightarrow> bool \<times> 'd"
  dl_execute :: "nat \<Rightarrow> 'd \<Rightarrow> (string \<Rightarrow> string \<Rightarrow> string res) option res"

text \<open>\<open>refs\<close> counts the references to a library that are open; the symbol of one without is undefined.\<close>

locale shared_libraries =
  fixes D :: "'d loader" and refs :: "'d \<Rightarrow> nat \<Rightarrow> nat"
  assumes open_counts: "dl_open D path d = (Some h, d') \<Longrightarrow> refs d' = (refs d)(h := refs d h + 1)"
    and close_counts: "dl_close D h d = (True, d') \<Longrightarrow> refs d' = (refs d)(h := refs d h - 1)"
    and closed_symbol: "refs d h = 0 \<Longrightarrow> dl_execute D h d = Inl Undefined"

record 'd plugins =
  handles :: "string \<rightharpoonup> nat"
  libraries :: 'd

definition plugin_path :: "string \<Rightarrow> string" where
  "plugin_path pluginName = (if 0 < length pluginName then ''./plugins/'' @ pluginName else pluginName)"

definition loadPlugin :: "'d loader \<Rightarrow> string \<Rightarrow> 'd plugins \<Rightarrow> bool \<times> 'd plugins" where
  "loadPlugin D pluginName p =
     (case dl_open D (c_str (plugin_path pluginName)) (libraries p) of
        (None, d) \<Rightarrow> (False, p\<lparr>libraries := d\<rparr>)
      | (Some handle, d) \<Rightarrow>
          (True, p\<lparr>handles := (handles p)(plugin_path pluginName \<mapsto> handle), libraries := d\<rparr>))"

text \<open>The entry is erased when closing has not succeeded.\<close>

definition unloadPlugin :: "'d loader \<Rightarrow> string \<Rightarrow> 'd plugins \<Rightarrow> bool \<times> 'd plugins" where
  "unloadPlugin D pluginName p =
     (let (ret, d) = (case handles p (plugin_path pluginName) of
            None \<Rightarrow> (False, libraries p) | Some handle \<Rightarrow> dl_close D handle (libraries p)) in
      (ret, p\<lparr>handles := if ret then handles p else (handles p)(plugin_path pluginName := None),
              libraries := d\<rparr>))"

definition executePluginFn :: "'d loader \<Rightarrow> string \<Rightarrow> string \<Rightarrow> string \<Rightarrow> 'd plugins \<Rightarrow> string res" where
  "executePluginFn D pluginName params body p =
     (case handles p (plugin_path pluginName) of
        None \<Rightarrow> Inr []
      | Some handle \<Rightarrow> res_bind (dl_execute D handle (libraries p)) (\<lambda>exec.
          case exec of
            None \<Rightarrow> Inr []
          | Some f \<Rightarrow> (case f params body of
              Inl e \<Rightarrow> if e = Undefined then Inl Undefined else Inr [] | Inr result \<Rightarrow> Inr result)))"

section \<open>Virtual machines\<close>

text \<open>\<open>vmIndex\<close> and \<open>assignedIndex\<close>; a thread gets the next machine at its first call.\<close>

record 't vm_pool =
  vmIndex :: "'t \<rightharpoonup> nat"
  assignedIndex :: nat

definition getCurrentVM :: "nat \<Rightarrow> 't \<Rightarrow> 't vm_pool \<Rightarrow> nat res \<times> 't vm_pool" where
  "getCurrentVM vmSize this_id p =
     (case vmIndex p this_id of
        Some i \<Rightarrow> (if i < vmSize then Inr i else Inl Undefined, p)
      | None \<Rightarrow>
          (let a = (if vmSize \<le> assignedIndex p then 0 else assignedIndex p) in
           (if a < vmSize then Inr a else Inl Undefined,
            p\<lparr>vmIndex := (vmIndex p)(this_id \<mapsto> a), assignedIndex := a + 1\<rparr>)))"

definition first_pool :: "'t vm_pool" where
  "first_pool = \<lparr>vmIndex = (\<lambda>t. None), assignedIndex = 0\<rparr>"

text \<open>The number of machines \<open>wrenEngineInitialize\<close> makes.\<close>

definition vm_count :: "nat \<Rightarrow> nat" where
  "vm_count hardware_concurrency = (if hardware_concurrency = 0 then 1 else hardware_concurrency)"

section \<open>What scripts may call\<close>

record script_request = web_request +
  req_url :: string
  req_header :: "string \<Rightarrow> string"
  req_params :: string

definition vm_setroute :: "string \<Rightarrow> string \<Rightarrow> (string \<rightharpoonup> string) \<Rightarrow> string \<times> (string \<rightharpoonup> string)" where
  "vm_setroute url handler routes = (handler, routes(url \<mapsto> handler))"

definition vm_findroute :: "string \<Rightarrow> (string \<rightharpoonup> string) \<Rightarrow> string option" where
  "vm_findroute url routes = routes url"

definition vm_getheader :: "string \<Rightarrow> script_request option \<Rightarrow> string" where
  "vm_getheader key req = (case req of None \<Rightarrow> ''not found'' | Some q \<Rightarrow> req_header q key)"

text \<open>A missing parameter is a null pointer, which a \<^verbatim>\<open>std::string\<close> cannot be made of.\<close>

definition vm_getparam :: "string \<Rightarrow> script_request option \<Rightarrow> string res" where
  "vm_getparam key req =
     (case req of
        None \<Rightarrow> Inr ''not found''
      | Some q \<Rightarrow> (case url_param q key of None \<Rightarrow> Inl Undefined | Some v \<Rightarrow> Inr v))"

definition vm_dispatch :: "'db rocks \<Rightarrow> env \<Rightarrow> string \<Rightarrow> ('db, string) op" where
  "vm_dispatch R X body = dispatch R X (c_str body)"

definition vm_get :: "'db rocks \<Rightarrow> string \<Rightarrow> ('db, string) op" where
  "vm_get R key s =
     (if 0 < length key then (let ((ret, out), s1) = get R key s in (Inr out, s1))
      else (Inr ''{\"error\": \"parameter 'key' missing\"}'', s))"

definition vm_getkeys :: "'db rocks \<Rightarrow> string \<Rightarrow> int \<Rightarrow> int \<Rightarrow> ('db, string) op" where
  "vm_getkeys R wild skip limit = map_reply snd (reading (getKeys_text R wild [] skip limit))"

definition vm_getkeys_r :: "'db rocks \<Rightarrow> string \<Rightarrow> int \<Rightarrow> int \<Rightarrow> ('db, string) op" where
  "vm_getkeys_r R wild skip limit = map_reply snd (reading (getKeysReversed_text R wild [] skip limit))"

definition vm_put :: "'db rocks \<Rightarrow> lib \<Rightarrow> string \<Rightarrow> ('db, string) op" where
  "vm_put R L body = map_reply snd (put R L body)"

definition vm_incrval :: "'db rocks \<Rightarrow> lib \<Rightarrow> string \<Rightarrow> ('db, string) op" where
  "vm_incrval R L body = map_reply snd (incrementValue R L body)"

section \<open>The handler of scripts\<close>

record script_reply =
  reply_body :: string
  reply_code :: int
  reply_ended :: bool

text \<open>The fields of the answer are set one after the other; the exception comes with what is set.\<close>

definition take_answer :: "lib \<Rightarrow> string \<Rightarrow> script_reply \<Rightarrow> exc option \<times> script_reply" where
  "take_answer L result reply =
     (case load result of
        None \<Rightarrow> (Some RuntimeError, reply)
      | Some jsonResult \<Rightarrow>
          (case res_bind (r_get jsonResult ''result'') r_s of
             Inl e \<Rightarrow> (Some e, reply)
           | Inr b \<Rightarrow>
               (case res_bind (res_bind (r_get jsonResult ''code'') (r_d L)) double_to_int of
                  Inl e \<Rightarrow> (Some e, reply\<lparr>reply_body := b\<rparr>)
                | Inr c \<Rightarrow> (None, reply\<lparr>reply_body := b, reply_code := c, reply_ended := True\<rparr>))))"

text \<open>
  The general handler of the script, whose exceptions are caught, and then the one of the route.
  \<open>call\<close> is a method of the script on its arguments.
\<close>

definition before_handler ::
    "lib \<Rightarrow> (string \<Rightarrow> string list \<Rightarrow> ('db, string) op) \<Rightarrow> (string \<rightharpoonup> string) \<Rightarrow> script_request \<Rightarrow>
     script_reply \<Rightarrow> ('db, script_reply) op" where
  "before_handler L call routes req reply s =
     (let (first, s1) = call ''handleRequest(_,_,_)'' [req_url req, req_params req, req_body req] s;
          (err, reply1) = (case first of
             Inl e \<Rightarrow> (Some e, reply)
           | Inr result \<Rightarrow> if result = [] then (None, reply) else take_answer L result reply)
      in if err = Some Undefined then (Inl Undefined, s1)
         else (case vm_findroute (req_url req) routes of
             None \<Rightarrow> (Inr reply1, s1)
           | Some handler \<Rightarrow>
               (let (r, s2) = call handler [req_params req, req_body req] s1 in
                (res_bind r (\<lambda>result. case take_answer L result reply1 of
                   (None, reply2) \<Rightarrow> Inr reply2 | (Some e, reply2) \<Rightarrow> Inl e), s2))))"

text \<open>\<open>CrowMiddleware::before_handle\<close> and \<open>after_handle\<close>: the handler, when one is set.\<close>

definition middleware :: "(script_reply \<Rightarrow> ('db, script_reply) op) option \<Rightarrow> script_reply \<Rightarrow> ('db, script_reply) op" where
  "middleware handler reply s = (case handler of None \<Rightarrow> (Inr reply, s) | Some h \<Rightarrow> h reply s)"

end
