(* ===== verification/Scripting_Props.thy ===== *)
theory Scripting_Props
  imports Scripting
begin

text \<open>
  What scripting promises: every thread keeps one virtual machine, and the machines are given to threads
  in turn, so that there are two threads with one machine as soon as there are more threads than
  machines; a plugin that has been unloaded is still called, and one that could not be is forgotten.
\<close>

section \<open>Machines\<close>

fun vm_calls :: "nat \<Rightarrow> 't list \<Rightarrow> 't vm_pool \<Rightarrow> nat res list" where
  "vm_calls n [] p = []"
| "vm_calls n (t # ts) p = (let (r, p') = getCurrentVM n t p in r # vm_calls n ts p')"

text \<open>How many other threads came before the first call of \<open>t\<close>.\<close>

definition arrival :: "'t list \<Rightarrow> 't \<Rightarrow> nat" where
  "arrival ts t = card (set (takeWhile (\<lambda>u. u \<noteq> t) ts))"

definition pool_after :: "nat \<Rightarrow> 't list \<Rightarrow> 't vm_pool \<Rightarrow> bool" where
  "pool_after n ts p \<longleftrightarrow>
     (\<forall>t. vmIndex p t = (if t \<in> set ts then Some (arrival ts t mod n) else None)) \<and>
     assignedIndex p = (if ts = [] then 0 else (card (set ts) - 1) mod n + 1)"

lemma arrival_known: "t \<in> set xs \<Longrightarrow> arrival (xs @ ys) t = arrival xs t"
  by (auto simp: arrival_def takeWhile_append)

lemma arrival_new: "t \<notin> set xs \<Longrightarrow> arrival (xs @ t # ys) t = card (set xs)"
  by (simp add: arrival_def takeWhile_append)

lemma next_mod:
  assumes "0 < n" and "0 < c"
  shows "(if n \<le> (c - 1) mod n + 1 then 0 else (c - 1) mod n + 1) = c mod (n :: nat)"
proof -
  obtain k where "c = Suc k" using assms(2) by (cases c) auto
  moreover have "k mod n < n" using assms(1) by simp
  ultimately show ?thesis by (auto simp: mod_Suc)
qed

lemma pool_step:
  assumes "0 < n" and "pool_after n xs p"
  shows "fst (getCurrentVM n t p) = Inr (arrival (xs @ t # ys) t mod n) \<and>
    pool_after n (xs @ [t]) (snd (getCurrentVM n t p))"
proof (cases "t \<in> set xs")
  case True
  have "vmIndex p t = Some (arrival xs t mod n)" using assms(2) True by (simp add: pool_after_def)
  moreover have "set (xs @ [t]) = set xs" "xs \<noteq> []" using True by auto
  moreover have "\<And>u. u \<in> set xs \<Longrightarrow> arrival (xs @ [t]) u = arrival xs u" by (rule arrival_known)
  ultimately show ?thesis
    using assms True arrival_known [OF True] by (auto simp: getCurrentVM_def pool_after_def)
next
  case False
  let ?c = "card (set xs)"
  have a: "(if n \<le> assignedIndex p then 0 else assignedIndex p) = ?c mod n"
  proof (cases "xs = []")
    case False
    then have "0 < ?c" by (simp add: card_gt_0_iff)
    moreover have "assignedIndex p = (?c - 1) mod n + 1" using assms(2) False by (simp add: pool_after_def)
    ultimately show ?thesis using next_mod [OF assms(1)] by presburger
  qed (use assms in \<open>simp add: pool_after_def\<close>)
  have call: "getCurrentVM n t p =
      (Inr (?c mod n), p\<lparr>vmIndex := (vmIndex p)(t \<mapsto> ?c mod n), assignedIndex := ?c mod n + 1\<rparr>)"
    using assms False unfolding getCurrentVM_def a by (simp add: pool_after_def Let_def)
  have "\<And>u. u \<in> set xs \<Longrightarrow> arrival (xs @ [t]) u = arrival xs u" by (rule arrival_known)
  then show ?thesis using assms(2) False arrival_new [OF False]
    by (auto simp: call pool_after_def)
qed

lemma vm_calls_after:
  "0 < n \<Longrightarrow> pool_after n xs p \<Longrightarrow> vm_calls n ts p = map (\<lambda>t. Inr (arrival (xs @ ts) t mod n)) ts"
proof (induction ts arbitrary: xs p)
  case (Cons t ts)
  obtain r p' where call: "getCurrentVM n t p = (r, p')" by (cases "getCurrentVM n t p")
  have "r = Inr (arrival (xs @ t # ts) t mod n)" and "pool_after n (xs @ [t]) p'"
    using pool_step [OF Cons.prems, of t ts] call by auto
  with Cons.IH [of "xs @ [t]" p'] Cons.prems(1) call show ?case by simp
qed simp

text \<open>C40: whatever the order in which threads ask, each gets the same virtual machine every time, the
  one whose number is the thread's place in the order of first arrival modulo the number of machines;
  the number is always valid.\<close>

theorem vm_round_robin:
  assumes "0 < n"
  shows "vm_calls n ts first_pool = map (\<lambda>t. Inr (arrival ts t mod n)) ts"
  using vm_calls_after [OF assms, of "[]" first_pool ts] by (simp add: pool_after_def first_pool_def)

theorem vm_round_robin_witness:
  "vm_calls 2 [7, 9, 7, 8, 9 :: nat] first_pool =
     map (\<lambda>t. Inr (arrival [7, 9, 7, 8, 9] t mod 2)) [7, 9, 7, 8, 9 :: nat]"
  by (rule vm_round_robin) simp

section \<open>Plugins\<close>

context shared_libraries
begin

lemma unloaded_still_called:
  assumes "dl_open D (c_str (plugin_path name)) (libraries p) = (Some h, d1)"
    and "refs (libraries p) h = 0" and "dl_close D h d1 = (True, d2)"
  shows "executePluginFn D name params body (snd (unloadPlugin D name (snd (loadPlugin D name p)))) = Inl Undefined"
proof -
  have "refs d2 h = 0" using open_counts [OF assms(1)] close_counts [OF assms(3)] assms(2) by simp
  then show ?thesis
    using closed_symbol by (simp add: executePluginFn_def unloadPlugin_def loadPlugin_def assms(1,3))
qed

end

text \<open>A loader of a fixed list of libraries, with their functions.\<close>

definition list_loader :: "(string \<times> (string \<Rightarrow> string \<Rightarrow> string res) option) list \<Rightarrow> (nat \<Rightarrow> nat) loader" where
  "list_loader libs = \<lparr>
     dl_open = (\<lambda>name d. case List.find (\<lambda>i. fst (libs ! i) = name) [0..<length libs] of
        None \<Rightarrow> (None, d) | Some h \<Rightarrow> (Some h, d(h := d h + 1))),
     dl_close = (\<lambda>h d. if d h = 0 then (False, d) else (True, d(h := d h - 1))),
     dl_execute = (\<lambda>h d. if d h = 0 then Inl Undefined else Inr (snd (libs ! h)))\<rparr>"

interpretation list_libraries: shared_libraries "list_loader libs" "\<lambda>d. d" for libs
  by unfold_locales (auto simp: list_loader_def split: option.splits if_splits)

text \<open>The test after \<^verbatim>\<open>dlclose\<close> is the wrong way round: a plugin that was loaded once and unloaded
  with success keeps its handle, and calling it uses the closed library; a plugin that could not be
  closed loses its handle and is not called any more.\<close>

theorem plugin_unload_inverted:
  assumes "shared_libraries D refs" and "dl_open D (c_str (plugin_path name)) (libraries p) = (Some h, d1)"
    and "refs (libraries p) h = 0"
  shows "(case dl_close D h d1 of
      (True, d2) \<Rightarrow> executePluginFn D name params body (snd (unloadPlugin D name (snd (loadPlugin D name p)))) = Inl Undefined
    | (False, d2) \<Rightarrow> executePluginFn D name params body (snd (unloadPlugin D name (snd (loadPlugin D name p)))) = Inr [])"
proof -
  obtain ok d2 where close: "dl_close D h d1 = (ok, d2)" by (cases "dl_close D h d1")
  show ?thesis
  proof (cases ok)
    case True
    with close shared_libraries.unloaded_still_called [OF assms(1,2,3)] show ?thesis by simp
  next
    case False
    with close assms(2) show ?thesis by (simp add: executePluginFn_def unloadPlugin_def loadPlugin_def)
  qed
qed

theorem plugin_unload_inverted_witness:
  "executePluginFn (list_loader [(''./plugins/p'', Some (\<lambda>a b. Inr ''done''))]) ''p'' [] []
     (snd (unloadPlugin (list_loader [(''./plugins/p'', Some (\<lambda>a b. Inr ''done''))]) ''p''
       (snd (loadPlugin (list_loader [(''./plugins/p'', Some (\<lambda>a b. Inr ''done''))]) ''p''
         \<lparr>handles = (\<lambda>n. None), libraries = (\<lambda>h. 0)\<rparr>)))) = Inl Undefined"
  using plugin_unload_inverted [OF list_libraries.shared_libraries_axioms,
      of "[(''./plugins/p'', Some (\<lambda>a b. Inr ''done''))]" "''p''"
        "\<lparr>handles = (\<lambda>n. None), libraries = (\<lambda>h. 0)\<rparr>" 0 "\<lambda>h. if h = 0 then 1 else 0" "[]" "[]"]
  by (simp add: list_loader_def plugin_path_def c_str_def fun_eq_iff)

end
