(* ===== verification/Socket_Files.thy ===== *)
theory Socket_Files
  imports Store
begin

text \<open>
  The file interceptor of web sockets, \<^verbatim>\<open>class InterceptorFile\<close> of \<^verbatim>\<open>include/qsocket.hpp\<close>: a text message
  opens or closes a file for its connection, a binary message is written to it. Streams are numbered
  in the order of their opening, and have a position in their file; what is written is in the file at
  once, the buffer of a stream is left out, and a write is never short and never fails. \<open>writable\<close> tells which files can be opened for writing.
\<close>

section \<open>Streams\<close>

record file_world =
  streams :: "nat \<rightharpoonup> string \<times> nat"
  next_stream :: nat
  contents_of :: "string \<rightharpoonup> string"

text \<open>\<^verbatim>\<open>fopen(name, "wb")\<close>, \<^verbatim>\<open>fwrite\<close> and \<^verbatim>\<open>fclose\<close>; a stream that is not open is undefined behaviour.\<close>

definition fopen_wb :: "(string \<Rightarrow> bool) \<Rightarrow> string \<Rightarrow> file_world \<Rightarrow> nat option \<times> file_world" where
  "fopen_wb writable name f =
     (if writable name then
        (Some (next_stream f),
         f\<lparr>streams := (streams f)(next_stream f \<mapsto> (name, 0)), next_stream := next_stream f + 1,
           contents_of := (contents_of f)(name \<mapsto> [])\<rparr>)
      else (None, f))"

definition write_at :: "string \<Rightarrow> nat \<Rightarrow> string \<Rightarrow> string" where
  "write_at c pos msg = take pos (c @ replicate (pos - length c) NUL) @ msg @ drop (pos + length msg) c"

definition fwrite :: "string \<Rightarrow> nat \<Rightarrow> file_world \<Rightarrow> nat res \<times> file_world" where
  "fwrite msg fp f =
     (case streams f fp of
        None \<Rightarrow> (Inl Undefined, f)
      | Some (name, pos) \<Rightarrow>
          (Inr (length msg),
           f\<lparr>streams := (streams f)(fp \<mapsto> (name, pos + length msg)),
             contents_of := (contents_of f)(name \<mapsto>
               write_at (case contents_of f name of None \<Rightarrow> [] | Some c \<Rightarrow> c) pos msg)\<rparr>))"

definition fclose :: "nat option \<Rightarrow> file_world \<Rightarrow> unit res \<times> file_world" where
  "fclose fp f =
     (case fp of
        None \<Rightarrow> (Inl Undefined, f)
      | Some i \<Rightarrow> if streams f i = None then (Inl Undefined, f)
                  else (Inr (), f\<lparr>streams := (streams f)(i := None)\<rparr>))"

section \<open>The interceptor\<close>

text \<open>A connection without an entry in \<open>mFiles\<close> gets a null pointer on access.\<close>

record file_socket =
  mFiles :: "nat \<rightharpoonup> nat"
  world :: file_world

definition file_command :: "lib \<Rightarrow> rvalue option \<Rightarrow> (int \<times> string) option res" where
  "file_command L x =
     (case x of
        None \<Rightarrow> Inl RuntimeError
      | Some j \<Rightarrow> res_bind (r_has j ''cmd'') (\<lambda>has.
          if has then
            res_bind (res_bind (r_get j ''cmd'') (r_i L)) (\<lambda>cmd.
            res_bind (res_bind (r_get j ''data'') r_s) (\<lambda>fileName. Inr (Some (wrap32 cmd, fileName))))
          else Inr None))"

text \<open>A text message; runtime errors are caught.\<close>

definition file_text :: "(string \<Rightarrow> bool) \<Rightarrow> lib \<Rightarrow> nat \<Rightarrow> string \<Rightarrow> file_socket \<Rightarrow> bool res \<times> file_socket" where
  "file_text writable L conn msg st =
     (case file_command L (load msg) of
        Inl e \<Rightarrow> (if e = RuntimeError then Inr True else Inl e, st)
      | Inr None \<Rightarrow> (Inr True, st)
      | Inr (Some (cmd, fileName)) \<Rightarrow>
          if cmd = 1 then
            (let (fp, f) = fopen_wb writable (c_str fileName) (world st) in
             (Inr True, st\<lparr>mFiles := (mFiles st)(conn := fp), world := f\<rparr>))
          else if cmd = 2 then
            (let (r, f) = fclose (mFiles st conn) (world st) in
             (res_bind r (\<lambda>u. Inr True), st\<lparr>world := f\<rparr>))
          else (Inr True, st))"

definition file_binary :: "nat \<Rightarrow> string \<Rightarrow> file_socket \<Rightarrow> bool res \<times> file_socket" where
  "file_binary conn msg st =
     (case mFiles st conn of
        None \<Rightarrow> (Inr True, st)
      | Some fp \<Rightarrow> (let (r, f) = fwrite msg fp (world st) in (res_bind r (\<lambda>n. Inr (0 < n)), st\<lparr>world := f\<rparr>)))"

definition file_message ::
    "(string \<Rightarrow> bool) \<Rightarrow> lib \<Rightarrow> nat \<Rightarrow> string \<Rightarrow> bool \<Rightarrow> file_socket \<Rightarrow> bool res \<times> file_socket" where
  "file_message writable L conn msg is_binary st =
     (if is_binary then file_binary conn msg st else file_text writable L conn msg st)"

text \<open>Messages one after the other, until one is undefined.\<close>

fun file_messages ::
    "(string \<Rightarrow> bool) \<Rightarrow> lib \<Rightarrow> (nat \<times> string \<times> bool) list \<Rightarrow> file_socket \<Rightarrow> bool list res \<times> file_socket" where
  "file_messages writable L [] st = (Inr [], st)"
| "file_messages writable L ((conn, msg, is_binary) # ms) st =
     (case file_message writable L conn msg is_binary st of
        (Inl e, st1) \<Rightarrow> (Inl e, st1)
      | (Inr b, st1) \<Rightarrow>
          (let (r, st2) = file_messages writable L ms st1 in (res_bind r (\<lambda>bs. Inr (b # bs)), st2)))"

section \<open>What is written\<close>

lemma write_at_end: "write_at c (length c) msg = c @ msg"
  by (simp add: write_at_def)

text \<open>The connection writes to a stream that stands at the end of its file.\<close>

definition writes_to :: "nat \<Rightarrow> nat \<Rightarrow> string \<Rightarrow> string \<Rightarrow> file_socket \<Rightarrow> bool" where
  "writes_to conn fp name c st \<longleftrightarrow>
     mFiles st conn = Some fp \<and> streams (world st) fp = Some (name, length c) \<and>
     contents_of (world st) name = Some c"

lemma binary_appends:
  assumes "writes_to conn fp name c st"
  shows "fst (file_binary conn msg st) = Inr (msg \<noteq> []) \<and>
    writes_to conn fp name (c @ msg) (snd (file_binary conn msg st)) \<and>
    mFiles (snd (file_binary conn msg st)) = mFiles st"
  using assms by (auto simp: writes_to_def file_binary_def fwrite_def write_at_end)

lemma binaries_append:
  assumes "writes_to conn fp name c st"
  shows "\<exists>st'. file_messages writable L (map (\<lambda>msg. (conn, msg, True)) ms) st = (Inr (map (\<lambda>msg. msg \<noteq> []) ms), st') \<and>
    writes_to conn fp name (c @ concat ms) st'"
  using assms
proof (induction ms arbitrary: c st)
  case (Cons m ms)
  obtain st1 where st1: "file_binary conn m st = (Inr (m \<noteq> []), st1)" "writes_to conn fp name (c @ m) st1"
    using binary_appends [OF Cons.prems, of m] by (metis prod.collapse)
  show ?case using Cons.IH [OF st1(2)] st1(1) by (auto simp: file_message_def)
qed simp

lemma messages_append:
  "file_messages writable L (xs @ ys) st =
     (case file_messages writable L xs st of
        (Inl e, st1) \<Rightarrow> (Inl e, st1)
      | (Inr bs, st1) \<Rightarrow> (let (r, st2) = file_messages writable L ys st1 in (res_bind r (\<lambda>cs. Inr (bs @ cs)), st2)))"
proof (induction xs arbitrary: st)
  case (Cons x xs)
  obtain conn msg bin where x: "x = (conn, msg, bin)" by (cases x)
  show ?case by (auto simp: x Cons.IH Let_def res_bind_def split: prod.splits sum.splits)
qed (auto simp: Let_def res_bind_def split: prod.splits sum.splits)

definition opens :: "lib \<Rightarrow> string \<Rightarrow> string \<Rightarrow> bool" where
  "opens L msg name \<longleftrightarrow> (\<exists>n. file_command L (load msg) = Inr (Some (1, n)) \<and> c_str n = name)"

definition closes :: "lib \<Rightarrow> string \<Rightarrow> bool" where
  "closes L msg \<longleftrightarrow> (\<exists>n. file_command L (load msg) = Inr (Some (2, n)))"

text \<open>C22: after a message that opens a file, the binary messages of the connection and a message that
  closes it, the file holds exactly the binary messages in order; each is answered with success unless
  it is empty. After that every further binary message or close of the connection is undefined
  behaviour: the pointer to the closed stream is kept.\<close>

theorem socket_file_session:
  assumes "opens L m1 name" and "writable name" and "closes L m2"
  shows "\<exists>st'. file_messages writable L
      ((conn, m1, False) # map (\<lambda>msg. (conn, msg, True)) ms @ [(conn, m2, False)]) st =
        (Inr (True # map (\<lambda>msg. msg \<noteq> []) ms @ [True]), st') \<and>
    contents_of (world st') name = Some (concat ms) \<and>
    fst (file_message writable L conn m True st') = Inl Undefined \<and>
    fst (file_message writable L conn m2 False st') = Inl Undefined"
proof -
  obtain st1 where open1: "file_text writable L conn m1 st = (Inr True, st1)"
    and start: "writes_to conn (next_stream (world st)) name [] st1"
    using assms(1,2) by (auto simp: opens_def file_text_def fopen_wb_def writes_to_def)
  obtain st2 where run: "file_messages writable L (map (\<lambda>msg. (conn, msg, True)) ms) st1 =
      (Inr (map (\<lambda>msg. msg \<noteq> []) ms), st2)"
    and at_end: "writes_to conn (next_stream (world st)) name (concat ms) st2"
    using binaries_append [OF start] by force
  obtain st3 where close1: "file_text writable L conn m2 st2 = (Inr True, st3)"
    and closed: "mFiles st3 conn = Some (next_stream (world st))"
      "streams (world st3) (next_stream (world st)) = None" "contents_of (world st3) name = Some (concat ms)"
    using assms(3) at_end by (auto simp: closes_def file_text_def fclose_def writes_to_def)
  have "file_messages writable L ((conn, m1, False) # map (\<lambda>msg. (conn, msg, True)) ms @ [(conn, m2, False)]) st =
      (Inr (True # map (\<lambda>msg. msg \<noteq> []) ms @ [True]), st3)"
    using open1 run close1 by (simp add: file_message_def messages_append)
  moreover have "fst (file_message writable L conn m True st3) = Inl Undefined"
    "fst (file_message writable L conn m2 False st3) = Inl Undefined"
    using closed assms(3) by (auto simp: file_message_def file_binary_def file_text_def fwrite_def fclose_def closes_def)
  ultimately show ?thesis using closed by blast
qed

definition no_files :: file_socket where
  "no_files = \<lparr>mFiles = (\<lambda>c. None), world = \<lparr>streams = (\<lambda>i. None), next_stream = 0, contents_of = (\<lambda>n. None)\<rparr>\<rparr>"

theorem socket_file_session_witness:
  "\<exists>st'. file_messages (\<lambda>n. True) mem_lib
      ((7, ''{\"cmd\":1,\"data\":\"f\"}'', False) # map (\<lambda>msg. (7, msg, True)) [''ab'', ''c''] @
        [(7, ''{\"cmd\":2,\"data\":\"f\"}'', False)]) no_files =
        (Inr (True # map (\<lambda>msg. msg \<noteq> []) [''ab'', ''c''] @ [True]), st') \<and>
    contents_of (world st') ''f'' = Some (concat [''ab'', ''c'']) \<and>
    fst (file_message (\<lambda>n. True) mem_lib 7 ''d'' True st') = Inl Undefined \<and>
    fst (file_message (\<lambda>n. True) mem_lib 7 ''{\"cmd\":2,\"data\":\"f\"}'' False st') = Inl Undefined"
proof (rule socket_file_session)
  have "file_command mem_lib (load ''{\"cmd\":1,\"data\":\"f\"}'') = Inr (Some (1, ''f''))"
    "file_command mem_lib (load ''{\"cmd\":2,\"data\":\"f\"}'') = Inr (Some (2, ''f''))"
    by code_simp+
  then show "opens mem_lib ''{\"cmd\":1,\"data\":\"f\"}'' ''f''" "closes mem_lib ''{\"cmd\":2,\"data\":\"f\"}''"
    by (auto simp: opens_def closes_def c_str_def)
qed simp

end
