(* ===== verification/Comparer.thy ===== *)
theory Comparer
  imports Orm
begin

text \<open>
  The older filter of \<^verbatim>\<open>include/qsorter.hpp\<close>, \<open>JsonComparer::validate\<close>: one field with the operator \<open>eq\<close>
  or \<open>eq_any\<close>, without logical operators, and without catching exceptions. Where it answers, it agrees
  with the filter of \<^verbatim>\<open>include/orm.hpp\<close> that replaced it, on fields that are texts or numbers.
\<close>

text \<open>The first key of an object or list, \<^verbatim>\<open>begin()->key()\<close>.\<close>

definition first_key :: "rvalue \<Rightarrow> string res" where
  "first_key v = res_bind (r_members v) (\<lambda>ms. case ms of [] \<Rightarrow> Inl Undefined | (k, u) # rest \<Rightarrow> Inr k)"

definition field_equals :: "lib \<Rightarrow> rvalue \<Rightarrow> rvalue \<Rightarrow> bool res" where
  "field_equals L fieldValue check =
     (case fieldValue of
        RString t \<Rightarrow> res_bind (r_s check) (\<lambda>b. res_bind (r_s fieldValue) (\<lambda>a. Inr (a = b)))
      | RNumber t \<Rightarrow> res_bind (r_d L check) (\<lambda>b. res_bind (r_d L fieldValue) (\<lambda>a. Inr (double_eq a b)))
      | _ \<Rightarrow> Inr False)"

fun equals_any :: "lib \<Rightarrow> rvalue \<Rightarrow> (string \<times> rvalue) list \<Rightarrow> bool res" where
  "equals_any L fieldValue [] = Inr False"
| "equals_any L fieldValue ((u, check) # checks) =
     res_bind (field_equals L fieldValue check) (\<lambda>b. if b then Inr True else equals_any L fieldValue checks)"

text \<open>\<open>checks\<close> is iterated only for texts and numbers.\<close>

definition check_operator :: "lib \<Rightarrow> rvalue \<Rightarrow> string \<Rightarrow> rvalue \<Rightarrow> bool res" where
  "check_operator L jsonValue field op =
     res_bind (first_key op) (\<lambda>opKey.
     if opKey = ''eq'' then
       res_bind (r_get op opKey) (\<lambda>check. res_bind (r_has jsonValue field) (\<lambda>has.
         if has then res_bind (r_get jsonValue field) (\<lambda>v. field_equals L v check) else Inr False))
     else if opKey = ''eq_any'' then
       res_bind (r_get op opKey) (\<lambda>checks. res_bind (r_has jsonValue field) (\<lambda>has.
         if has then res_bind (r_get jsonValue field) (\<lambda>v.
           case v of
             RString t \<Rightarrow> res_bind (r_members checks) (equals_any L v)
           | RNumber t \<Rightarrow> res_bind (r_members checks) (equals_any L v)
           | _ \<Rightarrow> Inr False) else Inr False))
     else Inr False)"

definition comparer_validate :: "lib \<Rightarrow> rvalue \<Rightarrow> rvalue \<Rightarrow> bool res" where
  "comparer_validate L jsonValue filterBy =
     res_bind (r_members filterBy) (\<lambda>ms.
     if ''where'' \<notin> fst ` set ms then Inr False
     else res_bind (r_get filterBy ''where'') (\<lambda>v.
       res_bind (r_has v ''and'') (\<lambda>hasAnd.
       if hasAnd then Inr False
       else res_bind (r_has v ''or'') (\<lambda>hasOr.
       if hasOr then Inr False
       else res_bind (first_key (sort_members v)) (\<lambda>field.
         res_bind (r_get v field) (check_operator L jsonValue field))))))"

section \<open>Agreement with the filter of ORM\<close>

definition scalar_field :: "rvalue \<Rightarrow> string \<Rightarrow> bool" where
  "scalar_field jsonValue field =
     (case r_get jsonValue field of Inr (RString t) \<Rightarrow> True | Inr (RNumber t) \<Rightarrow> True | Inr v \<Rightarrow> False | Inl e \<Rightarrow> True)"

definition single_filter :: "string \<Rightarrow> string \<Rightarrow> rvalue \<Rightarrow> rvalue" where
  "single_filter field op target = RObject [(''where'', RObject [(field, RObject [(op, target)])])]"

lemma compareValues_scalar:
  assumes "map_of kvs key = Some v" and "field_equals L v check = Inr b"
    and "scalar_field (RObject kvs) key"
  shows "compareValues L (RObject kvs) key check = Inr b"
  using assms map_of_SomeD [OF assms(1)]
  by (cases v) (force simp: compareValues_def field_equals_def scalar_field_def catch_all_def res_bind_Inr_iff)+

lemma any_equal_scalar:
  assumes "map_of kvs key = Some v" and "scalar_field (RObject kvs) key"
  shows "equals_any L v checks = Inr b \<Longrightarrow> any_equal L (RObject kvs) key checks = Inr b"
proof (induction checks)
  case (Cons c checks)
  obtain u check where c: "c = (u, check)" by (cases c)
  obtain b1 where "field_equals L v check = Inr b1" using Cons.prems by (auto simp: c res_bind_Inr_iff)
  with Cons show ?case using compareValues_scalar [OF assms(1) _ assms(2)] by (auto simp: c)
qed simp

text \<open>The two filters agree on one condition, where the older one answers and the field is a text or
  a number.\<close>

theorem comparer_agrees:
  assumes "op = ''eq'' \<or> op = ''eq_any''" and "field \<noteq> ''and''" and "field \<noteq> ''or''"
    and "scalar_field (RObject kvs) field"
    and "comparer_validate L (RObject kvs) (single_filter field op target) = Inr b"
  shows "validate L (RObject kvs) (single_filter field op target) = Inr b"
proof -
  have sorted: "sort_members (RObject [(field, c)]) = RObject [(field, c)]" for c
    by simp
  have old: "check_operator L (RObject kvs) field (RObject [(op, target)]) = Inr b"
    using assms(2,3,5) by (simp add: comparer_validate_def single_filter_def first_key_def sorted)
  have new: "validate L (RObject kvs) (single_filter field op target) =
      catch_all False (check_field L (RObject kvs) field (RObject [(op, target)]))"
    using assms(2,3)
    by (cases "check_field L (RObject kvs) field (RObject [(op, target)])")
      (auto simp: validate_def single_filter_def applyFilter_def sorted)
  show ?thesis
  proof (cases "map_of kvs field")
    case None
    then have "field \<notin> fst ` set kvs" by (simp add: map_of_eq_None_iff)
    then show ?thesis using assms(1) old new
      by (auto simp: check_operator_def first_key_def check_field_def checkEq_def compareValues_def
          checkEqAny_def catch_all_def)
  next
    case (Some v)
    then have "field \<in> fst ` set kvs" by (force dest: map_of_SomeD)
    then have has: "r_has (RObject kvs) field = Inr True" "r_get (RObject kvs) field = Inr v"
      using Some by simp_all
    from assms(1) show ?thesis
    proof
      assume op: "op = ''eq''"
      then have "field_equals L v target = Inr b" using old has by (simp add: check_operator_def first_key_def)
      from compareValues_scalar [OF Some this assms(4)] show ?thesis
        unfolding new
        by (simp add: op check_field_def checkEq_def catch_all_def)
    next
      assume op: "op = ''eq_any''"
      have "(\<exists>t. v = RString t) \<or> (\<exists>t. v = RNumber t)"
        using assms(4) has by (cases v) (auto simp: scalar_field_def)
      then have "res_bind (r_members target) (equals_any L v) = Inr b"
        using old has op by (auto simp: check_operator_def first_key_def)
      then obtain checks where "r_members target = Inr checks" "equals_any L v checks = Inr b"
        by (auto simp: res_bind_Inr_iff)
      then show ?thesis using any_equal_scalar [OF Some assms(4)] has
        unfolding new by (simp add: op check_field_def checkEqAny_def catch_all_def)
    qed
  qed
qed

end
