(* ===== verification/File_Routes.thy ===== *)
theory File_Routes
  imports Tcp_Props Http_Text_Props Keys_Multi
begin

text \<open>
  The routes that read or write files: the pages and resources of \<^verbatim>\<open>include/httprouting.hpp\<close>, uploads, the
  transfer of a file, the backup of the database, and the handlers of \<^verbatim>\<open>src/routing.cpp\<close> for the last two
  and for \<^verbatim>\<open>getKeysMulti\<close>. Which files can be opened for writing, whether RocksDB can make a checkpoint and
  the rendering of templates are parameters.
\<close>

section \<open>Pages\<close>

text \<open>The pages by path; those of the first group take the name of an asset from the parameter \<open>q\<close>.\<close>

definition html_pages :: "(string \<times> string) list" where
  "html_pages = [(''/'', ''index.html''), (''/console'', ''console.html''), (''/home'', ''home.html''),
     (''/chat'', ''chat.html'')]"

definition file_pages :: "(string \<times> string) list" where
  "file_pages = [(''/feed'', ''templates/feed.html''), (''/wrenfeed'', ''wren/feed.html''),
     (''/readme'', ''templates/readme.html'')]"

definition plain_response :: "string \<Rightarrow> file_response" where
  "plain_response body = \<lparr>resp_status = 200, resp_type = None, resp_body = body\<rparr>"

definition serve_page :: "files \<Rightarrow> (string \<Rightarrow> string) \<Rightarrow> string \<Rightarrow> string option \<Rightarrow> file_response option" where
  "serve_page fs page path q =
     (case map_of html_pages path of
        Some name \<Rightarrow> Some (defaultPageLoader fs page q name)
      | None \<Rightarrow> map_option (\<lambda>name. plain_response (readFile fs name)) (map_of file_pages path))"

text \<open>\<^verbatim>\<open>/home/<int>\<close>, \<^verbatim>\<open>/js/<int>\<close> and \<^verbatim>\<open>/css/<int>\<close>.\<close>

definition resource_kinds :: "(string \<times> string) list" where
  "resource_kinds = [(''/home/'', ''.html''), (''/js/'', ''.js''), (''/css/'', ''.css'')]"

definition serve_resource :: "(string \<Rightarrow> string) \<Rightarrow> string \<Rightarrow> int \<Rightarrow> string option" where
  "serve_resource page kind resId =
     map_option (\<lambda>ext. page (to_string resId @ ext)) (map_of resource_kinds kind)"

section \<open>Uploads and transfers\<close>

text \<open>The reply of the upload routes and the files written; \<open>unique\<close> makes the prefix of a name.\<close>

definition upload_response :: "(int \<times> string \<times> (string \<times> string) list) option \<Rightarrow> (file_response \<times> (string \<times> string) list) option" where
  "upload_response r = map_option (\<lambda>(code, str, saved).
     (\<lparr>resp_status = nat code, resp_type = None, resp_body = str\<rparr>, saved)) r"

definition route_upload :: "bool \<Rightarrow> (string \<Rightarrow> bool) \<Rightarrow> (exc \<Rightarrow> string) \<Rightarrow> string \<Rightarrow> string \<Rightarrow> (file_response \<times> (string \<times> string) list) option" where
  "route_upload dir save what content_type body =
     upload_response (fileupload dir None save what content_type body)"

definition route_upload_withuid ::
    "bool \<Rightarrow> (nat \<Rightarrow> string) \<Rightarrow> (string \<Rightarrow> bool) \<Rightarrow> (exc \<Rightarrow> string) \<Rightarrow> string \<Rightarrow> string \<Rightarrow>
     (file_response \<times> (string \<times> string) list) option" where
  "route_upload_withuid dir uid save what content_type body =
     upload_response (fileupload dir (Some uid) save what content_type body)"

text \<open>A transfer: the reply, and the contents of the file when it could be opened. \<^verbatim>\<open>fwrite\<close> of no
  bytes answers 0.\<close>

definition file_transfer :: "bool \<Rightarrow> string \<Rightarrow> string \<times> string option" where
  "file_transfer opened body =
     (if \<not> opened then (''{\"error\":\"not transferred\"}'', None)
      else (if 0 < length body then ''{\"result\":\"transferred\"}'' else ''{\"error\":\"not transferred\"}'',
            Some body))"

definition route_filetransfer :: "bool \<Rightarrow> web_request \<Rightarrow> string \<times> string option" where
  "route_filetransfer opened req = file_transfer opened (req_body req)"

definition tcp_filetransfer :: "bool \<Rightarrow> tcp_request \<Rightarrow> string \<times> string option" where
  "tcp_filetransfer opened req = file_transfer opened (t_body req)"

section \<open>Backup\<close>

definition backup :: "(string \<Rightarrow> bool) \<Rightarrow> string \<Rightarrow> bool" where
  "backup checkpoint path = checkpoint (if path = [] then ''quarks_backup'' else path)"

definition restore :: "string \<Rightarrow> bool" where
  "restore path = True"

definition backup_reply :: "(string \<Rightarrow> bool) \<Rightarrow> rvalue option \<Rightarrow> string res" where
  "backup_reply checkpoint p =
     (case p of
        None \<Rightarrow> Inr ''{\"result\":false, \"error\":\"invalid parameters\"}''
      | Some x \<Rightarrow> res_bind (member_or x ''path'' r_s []) (\<lambda>path.
          Inr (if backup checkpoint path then ''{\"result\":true}'' else ''{\"result\":false}'')))"

definition route_backup :: "(string \<Rightarrow> bool) \<Rightarrow> web_request \<Rightarrow> string res" where
  "route_backup checkpoint req = backup_reply checkpoint (load (body_of req))"

definition tcp_backup :: "(string \<Rightarrow> bool) \<Rightarrow> tcp_request \<Rightarrow> string res" where
  "tcp_backup checkpoint req = res_bind (bodyJson req) (backup_reply checkpoint)"

section \<open>Several wildcards over TCP\<close>

inductive tcp_getkeysmulti ::
    "'db rocks \<Rightarrow> env \<Rightarrow> nat \<Rightarrow> tcp_request \<Rightarrow> 'db core \<Rightarrow> wvalue \<Rightarrow> bool"
  for R X n req s where
  no_body: "t_body req = [] \<Longrightarrow> tcp_getkeysmulti R X n req s
    (error_reply ''{\"error\":\"parameter 'body' missing or has no content\"}'')"
| answered: "t_body req \<noteq> [] \<Longrightarrow>
    getKeysMulti R (env_lib X) n (t_body req) (t_skip req) (t_limit req) s r \<Longrightarrow>
    tcp_getkeysmulti R X n req s (multi_reply r)"

section \<open>Properties\<close>

text \<open>Over TCP, whatever the request, a transfer empties the file and reports a failure, and a query
  for several wildcards is refused.\<close>

theorem tcp_transfer_empties:
  assumes "parse_request L text = Inr req"
  shows "tcp_filetransfer True req = (''{\"error\":\"not transferred\"}'', Some []) \<and>
    (tcp_getkeysmulti R X n req s r \<longleftrightarrow>
       r = error_reply ''{\"error\":\"parameter 'body' missing or has no content\"}'')"
  using t_body_empty [OF assms]
  by (auto simp: tcp_filetransfer_def file_transfer_def tcp_getkeysmulti.simps)

text \<open>A backup without a path, or with an empty one, goes to \<open>quarks_backup\<close>; the reply says whether the
  checkpoint was made. The two interfaces agree on it.\<close>

theorem backup_agrees:
  assumes "load (body_of req) = Some x" and "r_has x ''path'' = Inr False"
    and "t_req treq = Some (RObject [(''body'', x)])"
  shows "route_backup checkpoint req =
      Inr (if checkpoint ''quarks_backup'' then ''{\"result\":true}'' else ''{\"result\":false}'') \<and>
    tcp_backup checkpoint treq = route_backup checkpoint req"
  using assms by (simp add: route_backup_def tcp_backup_def backup_reply_def bodyJson_def member_or_def backup_def)

text \<open>A page that is asked for with the name of an asset serves the file of that name, whichever it is.\<close>

theorem page_serves_any_file:
  assumes "path \<in> fst ` set html_pages" and "fs (c_str asset) = Some found"
  shows "\<exists>resp. serve_page fs page path (Some asset) = Some resp \<and> resp_body resp = found"
proof -
  obtain name where "map_of html_pages path = Some name"
    using assms(1) by (metis map_of_eq_None_iff not_None_eq)
  then show ?thesis using assms(2) by (simp add: serve_page_def defaultPageLoader_def readFile_def)
qed

end
