(* ===== verification/Elastic_File.thy ===== *)
theory Elastic_File
  imports Elastic_Props Crow_Json_Laws
begin

text \<open>
  The file of the document index, \<open>loadIndex\<close> and \<open>persistIndex\<close> of \<^verbatim>\<open>include/qsearch.hpp\<close>: the printed
  index is copied to a memory-mapped file, which is then cut to the length of the text, while the
  mapping keeps its length. A write to a part of the mapping behind the end of the file is not part of
  the file, and is a bus error beyond its last page; POSIX leaves its effect open and it is undefined
  behaviour here, also within that page. \<open>room\<close> tells to which sizes the file
  can be brought; cutting it always succeeds.
\<close>

record doc_file =
  bytes :: string
  mapped :: nat

text \<open>\<open>loadIndex\<close>: the file as it is mapped, and the index; a new file gets a page of zeros.\<close>

definition map_file :: "string \<Rightarrow> doc_file" where
  "map_file file = (if file = [] then \<lparr>bytes = replicate 4096 NUL, mapped = 4096\<rparr>
                    else \<lparr>bytes = file, mapped = length file\<rparr>)"

definition loadIndex :: "lib \<Rightarrow> string \<Rightarrow> wvalue res \<times> doc_file" where
  "loadIndex L file = (load_index L file, map_file file)"

definition resize :: "nat \<Rightarrow> string \<Rightarrow> string" where
  "resize n file = take n (file @ replicate (n - length file) NUL)"

definition persistIndex :: "lib \<Rightarrow> (nat \<Rightarrow> bool) \<Rightarrow> wvalue \<Rightarrow> doc_file \<Rightarrow> unit res \<times> doc_file" where
  "persistIndex L room index f =
     (let json_data = dump_json L index; new_size = length json_data in
      if mapped f < new_size \<and> \<not> room new_size then (Inr (), f)
      else
        let f1 = (if mapped f < new_size then \<lparr>bytes = resize new_size (bytes f), mapped = new_size\<rparr> else f)
        in if length (bytes f1) < mapped f1 then (Inl Undefined, f1)
           else (Inr (), \<lparr>bytes = resize new_size (json_data @ replicate (mapped f1 - new_size) NUL),
                          mapped = mapped f1\<rparr>))"

text \<open>An operation on the index followed by \<open>persistIndex\<close> when its result asks for it.\<close>

definition stored :: "lib \<Rightarrow> (nat \<Rightarrow> bool) \<Rightarrow> ('a \<Rightarrow> bool) \<Rightarrow> 'a index_op \<Rightarrow> wvalue \<times> doc_file \<Rightarrow> 'a res \<times> wvalue \<times> doc_file" where
  "stored L room changes f st =
     (case f (fst st) of
        (Inl e, idx) \<Rightarrow> (Inl e, idx, snd st)
      | (Inr a, idx) \<Rightarrow>
          if changes a then (let (r, file) = persistIndex L room idx (snd st) in (res_bind r (\<lambda>u. Inr a), idx, file))
          else (Inr a, idx, snd st))"

definition index_and_store ::
    "lib \<Rightarrow> (nat \<Rightarrow> bool) \<Rightarrow> string \<Rightarrow> string \<Rightarrow> wvalue \<Rightarrow> wvalue \<times> doc_file \<Rightarrow> unit res \<times> wvalue \<times> doc_file" where
  "index_and_store L room tenant name doc = stored L room (\<lambda>u. True) (indexDocument L tenant name doc)"

definition clear_and_store ::
    "lib \<Rightarrow> (nat \<Rightarrow> bool) \<Rightarrow> string \<Rightarrow> string \<Rightarrow> wvalue \<times> doc_file \<Rightarrow> bool res \<times> wvalue \<times> doc_file" where
  "clear_and_store L room tenant name = stored L room (\<lambda>found. found) (clearIndex tenant name)"

definition update_and_store ::
    "lib \<Rightarrow> (nat \<Rightarrow> bool) \<Rightarrow> string \<Rightarrow> string \<Rightarrow> wvalue \<Rightarrow> (string \<times> string) list \<Rightarrow> int \<Rightarrow> bool \<Rightarrow> bool \<Rightarrow>
     wvalue \<times> doc_file \<Rightarrow> int res \<times> wvalue \<times> doc_file" where
  "update_and_store L room tenant name newDoc conditions fuzziness must ignoreCase =
     stored L room (\<lambda>ret. 0 < ret) (updateDocument L tenant name newDoc conditions fuzziness must ignoreCase)"

section \<open>What is in the file\<close>

lemma length_resize [simp]: "length (resize n file) = n"
  by (simp add: resize_def)

text \<open>The file reaches to the end of its mapping.\<close>

definition whole :: "doc_file \<Rightarrow> bool" where
  "whole f \<longleftrightarrow> length (bytes f) = mapped f"

lemma map_file_whole: "whole (map_file file)"
  by (simp add: whole_def map_file_def)

lemma persist_whole:
  assumes "whole f" and "length (dump_json L index) \<le> mapped f \<or> room (length (dump_json L index))"
  shows "persistIndex L room index f =
    (Inr (), \<lparr>bytes = dump_json L index, mapped = max (mapped f) (length (dump_json L index))\<rparr>)"
  using assms by (auto simp: persistIndex_def Let_def whole_def resize_def max_def)

lemma dump_object_start: "\<exists>t. dump_json L (WObject m) = CHR ''{'' # t"
  by (simp add: dump_json_def)

lemma reopened:
  "fst (loadIndex L (dump_json L (WObject m))) = wvalue_of L (load (dump_json L (WObject m)))"
  using dump_object_start [of L m] by (auto simp: loadIndex_def load_index_def)

lemma indexDocument_object:
  "indexDocument L tenant name doc idx = (Inr u, idx') \<Longrightarrow> \<exists>m. idx' = WObject m"
  by (auto simp: indexDocument_def Let_def w_set_def split: if_splits prod.splits sum.splits)

text \<open>C30: a document indexed in a freshly opened file survives a restart: the index read back is what
  loading the printed index gives. But unless the text filled the mapping, the file now ends before the
  mapping does, and indexing the next document is undefined behaviour as long as the text fits the
  mapping.\<close>

theorem second_store_undefined:
  assumes "indexDocument L tenant name doc idx = (Inr u, idx1)"
    and "length (dump_json L idx1) \<le> mapped (map_file file) \<or> room (length (dump_json L idx1))"
    and "indexDocument L tenant name' doc' idx1 = (Inr u', idx2)"
  shows "\<exists>f1. index_and_store L room tenant name doc (idx, map_file file) = (Inr u, idx1, f1) \<and>
    fst (loadIndex L (bytes f1)) = wvalue_of L (load (dump_json L idx1)) \<and>
    (length (dump_json L idx1) < mapped (map_file file) \<and> length (dump_json L idx2) \<le> mapped (map_file file) \<longrightarrow>
      fst (index_and_store L room tenant name' doc' (idx1, f1)) = Inl Undefined)"
proof -
  let ?f1 = "\<lparr>bytes = dump_json L idx1, mapped = max (mapped (map_file file)) (length (dump_json L idx1))\<rparr>"
  have "persistIndex L room idx1 (map_file file) = (Inr (), ?f1)"
    using assms(2) by (intro persist_whole map_file_whole)
  then have store: "index_and_store L room tenant name doc (idx, map_file file) = (Inr u, idx1, ?f1)"
    using assms(1) by (simp add: index_and_store_def stored_def)
  obtain m where "idx1 = WObject m" using indexDocument_object [OF assms(1)] ..
  then have "fst (loadIndex L (bytes ?f1)) = wvalue_of L (load (dump_json L idx1))" using reopened by simp
  moreover have "fst (index_and_store L room tenant name' doc' (idx1, ?f1)) = Inl Undefined"
    if "length (dump_json L idx1) < mapped (map_file file)" "length (dump_json L idx2) \<le> mapped (map_file file)"
    using that assms(3) by (simp add: index_and_store_def stored_def persistIndex_def Let_def)
  ultimately show ?thesis using store by blast
qed

definition first_note :: wvalue where
  "first_note = snd (indexDocument mem_lib ''t'' ''i'' (WString ''x'') WNull)"

definition second_note :: wvalue where
  "second_note = snd (indexDocument mem_lib ''t'' ''i'' (WString ''y'') first_note)"

theorem second_store_undefined_witness:
  "\<exists>f1. index_and_store mem_lib (\<lambda>n. True) ''t'' ''i'' (WString ''x'') (WNull, map_file []) = (Inr (), first_note, f1) \<and>
    fst (loadIndex mem_lib (bytes f1)) = wvalue_of mem_lib (load (dump_json mem_lib first_note)) \<and>
    fst (index_and_store mem_lib (\<lambda>n. True) ''t'' ''i'' (WString ''y'') (first_note, f1)) = Inl Undefined"
proof -
  have "fst (indexDocument mem_lib ''t'' ''i'' (WString ''x'') WNull) = Inr ()"
    "fst (indexDocument mem_lib ''t'' ''i'' (WString ''y'') first_note) = Inr ()"
    unfolding first_note_def by code_simp+
  then have both: "indexDocument mem_lib ''t'' ''i'' (WString ''x'') WNull = (Inr (), first_note)"
    "indexDocument mem_lib ''t'' ''i'' (WString ''y'') first_note = (Inr (), second_note)"
    unfolding first_note_def second_note_def by (simp_all add: prod_eq_iff)
  have "length (dump_json mem_lib first_note) = 28" "length (dump_json mem_lib second_note) = 32"
    unfolding second_note_def first_note_def by code_simp+
  moreover have "mapped (map_file []) = 4096" by (simp add: map_file_def)
  ultimately show ?thesis
    using second_store_undefined [OF both(1) _ both(2), of "[]" "\<lambda>n. True"] by simp
qed

end
