(* ===== verification/Spec2Isabelle.thy ===== *)
theory Spec2Isabelle
  imports Requests Queries_Props Rooms_Laws Sorted_Props Search_Props Fuzzy_Props
    Task_Queue_Props Base64 Geo_Props Http_Text_Props Tcp_Props Cloud_Props Startup_Props Keys_Multi_Props Join_Threads_Props
    Script_Search Scripting_Props Socket_Files Comparer File_Routes Elastic_File
begin

text \<open>
  Quarks is a key-value server in C++ over RocksDB. A process reads its command line, opens the
  database, and serves the same operations of \<^verbatim>\<open>class Core\<close> over HTTP, over TCP and over web sockets;
  nodes may be coupled as broker, writers and readers, so that the writes of one node are repeated by
  the others. Beside the store it has rooms for web sockets, an index of words, an index of JSON
  documents, geohashes and a queue of tasks. The development models these parts as functions and
  transition systems and proves what each promises, and where it does not keep the promise.

  \<^bold>\<open>Conventions.\<close> A C++ exception is a value of \<open>exc\<close>, a computation that may throw has the type
  \<open>'a res\<close>, an operation that changes a node is a function of the state \<open>'db core\<close> that returns its
  result and the new state. \<open>Undefined\<close> is undefined behaviour of C++ (a read past the end, an
  invalid iterator) and is never caught. A \<^verbatim>\<open>std::string\<close> is a list of bytes, compared bytewise. The
  record \<open>rocks\<close> has the operations of RocksDB the code calls, over an unknown type of databases; the
  locale \<open>rocksdb\<close> states its documented laws and is interpreted by \<open>memdb\<close>, a database in memory. The
  record \<open>lib\<close> has the number conversions and the hash order of Boost and of the C++ library. Both
  are arguments of the definitions that use them.

  \<^bold>\<open>Foundations.\<close> \<open>Prelude\<close> (exceptions, byte strings, 32-bit arithmetic, the skip/limit window, the
  locale \<open>windowed_scan\<close> of the listing loops), \<open>Std_Map\<close> (\<^verbatim>\<open>std::map\<close> as a sorted list of entries, the
  locale \<open>ordered_map\<close>), \<open>Rocks\<close>, \<open>Numbers\<close> (\<^verbatim>\<open>std::to_string\<close>, \<^verbatim>\<open>std::stoi\<close>, the number format of the
  printer), \<open>Crow_Json\<close> and \<open>Crow_Json_Laws\<close> (\<^verbatim>\<open>crow/json.h\<close>: parser, accessors, printer; that what is
  printed loads again).

  \<^bold>\<open>The store, \<^verbatim>\<open>src/quarks.cpp\<close>.\<close> \<open>Wildcmp\<close> is the wildcard matcher, with its three loops, and its
  equivalence with a declarative meaning of patterns. \<open>Store\<close> has the record \<open>core\<close> (database, status,
  cache, roles, messages sent) and the operations on single keys; \<open>Store_Laws\<close> shows that each of them
  refines a list of writes on a finite map (\<open>refines\<close>, \<open>logged\<close>), which \<open>Store_Props\<close> turns into what a
  client sees. \<open>Scan\<close>, \<open>Scan_Laws\<close>, \<open>Scan_Props\<close>: the listings, all instances of \<open>windowed_scan\<close>,
  \<open>getKeys\<close> and \<open>getCount\<close> shown to answer as a scan of the whole database would, but for patterns
  that begin with a star, which they refuse.
  \<open>Requests\<close>: \<open>Core::atom\<close>, and whole histories of writing requests: replication and the coherence of
  the cache. \<open>Keys_Multi\<close>, \<open>Keys_Multi_Props\<close>: \<open>getKeysMulti\<close>, whose threads are a transition system
  with shared counters; the invariant \<open>books\<close> accounts for every hit. \<open>Queries\<close>, \<open>Queries_Props\<close>:
  joins, keys after a key, searches. \<open>Join_Threads\<close>, \<open>Join_Threads_Props\<close>: the joined map whose keys one
  thread hands to another; what it collects is a beginning of the list. \<open>Script_Search\<close>: the search in the
  build with a script engine. \<open>Orm\<close>, \<open>Orm_Props\<close>, \<open>Sorted_Props\<close>, \<open>Comparer\<close> (\<^verbatim>\<open>orm.hpp\<close>, \<^verbatim>\<open>qsorter.hpp\<close>, \<open>getSorted\<close>):
  filters and sorted queries; \<^verbatim>\<open>std::sort\<close> is a parameter with its contract. \<open>Sorted_Props\<close> has the filters of
  the documentation as a datatype with their meaning, and shows what a sorted query answers by it. \<open>Rooms\<close>, \<open>Rooms_Laws\<close>
  (\<^verbatim>\<open>SocketInterceptor\<close> and \<^verbatim>\<open>qsocket.hpp\<close>): the rooms and the connection pointers kept for them, with
  the invariant \<open>room_inv\<close> over every reachable state. \<open>Socket_Files\<close>: the other interceptor of
  \<^verbatim>\<open>qsocket.hpp\<close>, which writes the messages of a connection to a file. \<open>Geohash\<close>, \<open>Geo\<close> and their properties
  (\<^verbatim>\<open>geohash.cpp\<close>, \<open>geoput\<close>, \<open>geonear\<close>): intervals are rational numbers, trigonometry a parameter.

  \<^bold>\<open>Search.\<close> \<open>Trie\<close>, \<open>Trie_Laws\<close>, \<open>Trie_Props\<close>: the word index of \<^verbatim>\<open>qsearch.hpp\<close> as a map from words to
  data. \<open>Fuzzy\<close>: the edit distance computed by a table. \<open>Elastic\<close>: the index of documents. \<open>Elastic_File\<close>: the
  memory-mapped file it is kept in.
  \<open>Search_Routes\<close>: the handlers of \<^verbatim>\<open>qsearch.cpp\<close>.

  \<^bold>\<open>Interfaces.\<close> \<open>Http_Text\<close> (percent decoding, served files, multipart uploads), \<open>Http_Routes\<close> (one
  definition for every handler of the core in \<^verbatim>\<open>httprouting.hpp\<close>, the table of the routes), \<open>Http_Props\<close>
  (what requests do to a node: nothing, or a list of writes that is announced). \<open>Tcp_Routes\<close>,
  \<open>Tcp_Props\<close> (\<^verbatim>\<open>routing.hpp\<close>, \<^verbatim>\<open>routing.cpp\<close>, \<^verbatim>\<open>quarkstcp.hpp\<close>): the requests over TCP their agreement
  with HTTP on five queries and where they differ. \<open>Cloud\<close>, \<open>Cloud_Props\<close> (\<^verbatim>\<open>quarkscloud.hpp\<close>): the frames and the loops of broker, writer and
  reader, and that the contents of a writer reach the nodes behind it. \<open>Startup\<close>, \<open>Startup_Props\<close>: the
  command line and the roles it gives a node. \<open>File_Routes\<close>: pages, uploads, transfers and backup.
  \<open>Scripting\<close>, \<open>Scripting_Props\<close> (\<^verbatim>\<open>wrenengine.hpp\<close>, \<^verbatim>\<open>plugins.hpp\<close>): the machine each thread gets, what
  scripts may call, the handler that asks the script first, plugins under the locale \<open>shared_libraries\<close>.
  \<open>Task_Queue\<close> (\<^verbatim>\<open>quarkstaskqueue.cpp\<close>): producers and workers as a transition system. \<open>Base64\<close>
  (\<^verbatim>\<open>base64.cpp\<close>).

  \<^bold>\<open>Bounds and fuel.\<close> Loops are recursions on their input. Where the code's recursion is not structural
  there is a measure, or, in \<open>load\<close> (the JSON parser), a fuel of one more than the length of the text,
  which \<open>load_fuel_enough\<close> shows to be enough: every call consumes a byte. \<open>wildcmp\<close> may follow a null
  pointer and is an option; \<open>wildcmp_correct\<close> shows that it does not. The runs of \<open>Keys_Multi\<close> and
  \<open>Task_Queue\<close> end by a weight that every step decreases; in \<open>Join_Threads\<close> the reading thread may spin, and
  a complete run is exhibited instead. Integers are \<open>int\<close> with the wrap-around of 32
  bits written out (\<open>wrap32\<close>) where the code computes with client values; \<open>window_ok\<close> is the range in
  which the window arithmetic does not overflow.

  \<^bold>\<open>Concurrency.\<close> The threads of \<open>getKeysMulti\<close> and of the joined map, and the workers of the task queue,
  are interleavings of steps, one access to a shared variable each; the properties hold for every
  interleaving, and the failures found are shown by a schedule that is executed. Elsewhere requests are
  served one after the other.

  \<^bold>\<open>Not modelled.\<close> The HTTP server of Crow, Boost.Asio, ZeroMQ and RocksDB (libraries; what the code
  relies on is stated as laws or parameters); V8, the virtual machine of Wren and their C++ bindings, the
  HTTP client \<^verbatim>\<open>HTTPRequest.hpp\<close> and the web-socket client \<^verbatim>\<open>easywsclient\<close> (third-party code in the source
  tree); the image filters, which call OpenCV; short and failed writes of files, spurious wake-ups of
  the task queue and notifications that overtake one another; the file mapped for the word index, of which only the root
  node is placed in it; \<^verbatim>\<open>matrix.hpp\<close>, which nothing includes; the clients of test routes that open a
  socket; the start of the process's threads; logging and console output; durations.
\<close>

end
